(* ===== verification/Prelude.thy ===== *)
theory Prelude
  imports Main "HOL-Library.Char_ord" "HOL-Library.Code_Target_Nat"
begin

text \<open>
  Shared vocabulary of the development: the named theorem collections the component
  proofs use, and generic facts on lists, options and sums that several components need.
  Nothing in this theory is about the program itself.
\<close>

named_theorems go_strings \<open>equations that compute the models of Go's string functions\<close>
named_theorems buffer_specs \<open>reference characterisations of the backlog operations\<close>
named_theorems session_defs \<open>definitions of the engine session's operations\<close>
named_theorems server_defs \<open>definitions of the engine server's operations\<close>
named_theorems core_defs \<open>definitions of the core engine's operations\<close>

section \<open>Lists\<close>

lemma takeWhile_append_stop [simp]:
  "P x = False \<Longrightarrow> \<forall>y\<in>set xs. P y \<Longrightarrow> takeWhile P (xs @ x # ys) = xs"
  by (induction xs) auto

lemma dropWhile_append_stop [simp]:
  "P x = False \<Longrightarrow> \<forall>y\<in>set xs. P y \<Longrightarrow> dropWhile P (xs @ x # ys) = x # ys"
  by (induction xs) auto

lemma dropWhile_idem [simp]: "dropWhile P (dropWhile P xs) = dropWhile P xs"
  by (induction xs) auto

lemma hd_dropWhile_not: "dropWhile P xs = y # ys \<Longrightarrow> \<not> P y"
  by (induction xs) (auto split: if_splits)

lemma length_dropWhile_Cons:
  "dropWhile P xs = y # ys \<Longrightarrow> length ys < length xs"
  by (metis length_Cons length_dropWhile_le less_eq_Suc_le)

lemma sum_list_filter_split:
  "sum_list (map f (filter P xs)) + sum_list (map f (filter (\<lambda>x. \<not> P x) xs))
     = (sum_list (map f xs) :: int)"
  by (induction xs) auto

lemma sum_list_map_take_drop:
  "sum_list (map f xs) = sum_list (map f (take n xs)) + (sum_list (map f (drop n xs)) :: int)"
  by (metis append_take_drop_id map_append sum_list_append)

lemma sum_list_map_update:
  "distinct xs \<Longrightarrow> x \<in> set xs \<Longrightarrow>
     sum_list (map (g(x := v)) xs) = sum_list (map g xs) - g x + (v :: int)"
  by (induction xs) (auto simp: map_fun_upd)

lemma sum_list_map_remove1:
  "x \<in> set xs \<Longrightarrow> sum_list (map g (remove1 x xs)) = sum_list (map g xs) - (g x :: int)"
  by (induction xs) auto

lemma sum_list_nonneg_int: "(\<And>x. x \<in> set xs \<Longrightarrow> 0 \<le> (x::int)) \<Longrightarrow> 0 \<le> sum_list xs"
  by (induction xs) auto

lemma upt_Suc_append_drop1: "i < j \<Longrightarrow> [i..<j] = i # [Suc i..<j]"
  by (simp add: upt_conv_Cons)

lemma sorted_wrt_upt_less [simp]: "sorted_wrt (<) [i..<j]"
  by (simp add: strict_sorted_iff)

lemma takeWhile_upt: "takeWhile (\<lambda>x. x \<le> k) [i..<j] = [i..<min (max i (Suc k)) j]"
proof (induction "j - i" arbitrary: i)
  case 0
  then show ?case by simp
next
  case (Suc n)
  then have lt: "i < j" and n: "n = j - Suc i" by auto
  from Suc.hyps(1)[OF n] lt show ?case
    by (auto simp: upt_Suc_append_drop1 [OF lt] upt_conv_Cons max_def min_def)
qed

lemma filter_le_upt: "filter (\<lambda>x. k < x) [i..<j] = [max i (Suc k)..<j]"
proof (induction j)
  case (Suc j)
  then show ?case by (cases "i \<le> j") (auto simp: max_def)
qed simp

text \<open>In a strictly sorted list, what lies past an element is what follows it.\<close>

lemma filter_past_element:
  fixes f :: "'a \<Rightarrow> 'b::linorder"
  assumes "sorted_wrt (<) (map f (ys @ y # zs))"
  shows "filter (\<lambda>x. f y < f x) (ys @ y # zs) = zs"
  using assms by (auto simp: sorted_wrt_append filter_id_conv filter_empty_conv dest: less_asym)

lemma filter_past_take:
  fixes f :: "'a \<Rightarrow> 'b::linorder"
  assumes "sorted_wrt (<) (map f xs)" and "take n xs \<noteq> []"
  shows "filter (\<lambda>x. f (last (take n xs)) < f x) xs = drop n xs"
proof -
  have xs: "xs = butlast (take n xs) @ last (take n xs) # drop n xs"
    using assms(2) by (metis append.assoc append_Cons append_Nil append_butlast_last_id
        append_take_drop_id)
  show ?thesis
    using filter_past_element[of f "butlast (take n xs)" "last (take n xs)" "drop n xs"]
      assms(1) xs by metis
qed

lemma find_append_case:
  "find P (xs @ ys) = (case find P xs of None \<Rightarrow> find P ys | Some x \<Rightarrow> Some x)"
  by (induction xs) auto

lemma find_unique_key: "distinct (map f xs) \<Longrightarrow> x \<in> set xs \<Longrightarrow> find (\<lambda>y. f y = f x) xs = Some x"
  by (induction xs) (auto simp: image_iff)

lemma find_SomeD: "find P xs = Some x \<Longrightarrow> P x \<and> x \<in> set xs"
  by (auto simp: find_Some_iff)

lemma find_map: "find P (map f xs) = map_option f (find (\<lambda>x. P (f x)) xs)"
  by (induction xs) auto

section \<open>Options and maps\<close>

lemma map_upd_eq_None_iff [simp]: "(m(k := None)) x = None \<longleftrightarrow> x = k \<or> m x = None"
  by simp

lemma ran_fun_upd_None: "y \<in> ran (m(k := None)) \<Longrightarrow> y \<in> ran m"
  by (auto simp: ran_def split: if_splits)

end
