(* ===== verification/Go_Strings.thy ===== *)
theory Go_Strings
  imports Prelude
begin

text \<open>
  The part of Go's standard library the modelled code calls: \<^verbatim>\<open>strings\<close>, \<^verbatim>\<open>unicode/utf8\<close>,
  \<^verbatim>\<open>strconv\<close> and \<^verbatim>\<open>sort.Search\<close>. A Go string is a sequence of bytes, so a model string is a
  \<^typ>\<open>char list\<close> whose characters are bytes.

  Case mapping and white space follow Unicode in Go. \<open>to_upper\<close> and \<open>equal_fold\<close> treat the
  code points whose simple case mapping meets ASCII (U+0131, U+017F and U+212A) exactly and leave
  every other non-ASCII byte alone: the results are only ever compared with ASCII literals, and no
  other code point can make such a comparison succeed. \<open>trim_space\<close> removes exactly the code
  points of \<^verbatim>\<open>unicode.IsSpace\<close>.
\<close>

section \<open>Prefixes, indices, cuts\<close>

definition has_prefix :: "string \<Rightarrow> string \<Rightarrow> bool" where
  "has_prefix s p \<longleftrightarrow> take (length p) s = p"

fun index_byte :: "string \<Rightarrow> char \<Rightarrow> nat option" where
  "index_byte [] c = None"
| "index_byte (x # xs) c = (if x = c then Some 0 else map_option Suc (index_byte xs c))"

fun index_any :: "string \<Rightarrow> string \<Rightarrow> nat option" where
  "index_any [] cs = None"
| "index_any (x # xs) cs = (if x \<in> set cs then Some 0 else map_option Suc (index_any xs cs))"

definition last_index_byte :: "string \<Rightarrow> char \<Rightarrow> nat option" where
  "last_index_byte s c =
     (case index_byte (rev s) c of None \<Rightarrow> None | Some i \<Rightarrow> Some (length s - Suc i))"

text \<open>\<^verbatim>\<open>strings.Cut\<close> around the first occurrence of a one-byte separator.\<close>

definition str_cut :: "string \<Rightarrow> char \<Rightarrow> string \<times> string \<times> bool" where
  "str_cut s c = (case index_byte s c of
       None \<Rightarrow> (s, [], False)
     | Some i \<Rightarrow> (take i s, drop (Suc i) s, True))"

definition trim_left :: "string \<Rightarrow> char \<Rightarrow> string" where
  "trim_left s c = dropWhile (\<lambda>x. x = c) s"

text \<open>\<^verbatim>\<open>strings.TrimRight\<close> with a set of bytes.\<close>

definition trim_right :: "string \<Rightarrow> string \<Rightarrow> string" where
  "trim_right s cs = rev (dropWhile (\<lambda>x. x \<in> set cs) (rev s))"

definition trim_prefix :: "string \<Rightarrow> string \<Rightarrow> string" where
  "trim_prefix s p = (if has_prefix s p then drop (length p) s else s)"

definition contains_any :: "string \<Rightarrow> string \<Rightarrow> bool" where
  "contains_any s cs \<longleftrightarrow> (\<exists>x\<in>set s. x \<in> set cs)"

text \<open>\<^verbatim>\<open>strings.Split\<close> and \<^verbatim>\<open>strings.SplitSeq\<close> on a one-byte separator: never empty.\<close>

fun split_on :: "string \<Rightarrow> char \<Rightarrow> string list" where
  "split_on [] c = [[]]"
| "split_on (x # xs) c =
     (if x = c then [] # split_on xs c
      else (case split_on xs c of [] \<Rightarrow> [[x]] | p # ps \<Rightarrow> (x # p) # ps))"

fun join_with :: "string list \<Rightarrow> string \<Rightarrow> string" where
  "join_with [] sep = []"
| "join_with [p] sep = p"
| "join_with (p # q # ps) sep = p @ sep @ join_with (q # ps) sep"

section \<open>Case mapping\<close>

definition is_upper_byte :: "char \<Rightarrow> bool" where
  "is_upper_byte c \<longleftrightarrow> CHR ''A'' \<le> c \<and> c \<le> CHR ''Z''"

definition is_lower_byte :: "char \<Rightarrow> bool" where
  "is_lower_byte c \<longleftrightarrow> CHR ''a'' \<le> c \<and> c \<le> CHR ''z''"

definition lower_byte :: "char \<Rightarrow> char" where
  "lower_byte c = (if is_upper_byte c then char_of (of_char c + (32::nat)) else c)"

definition upper_byte :: "char \<Rightarrow> char" where
  "upper_byte c = (if is_lower_byte c then char_of (of_char c - (32::nat)) else c)"

fun to_upper :: "string \<Rightarrow> string" where
  "to_upper [] = []"
| "to_upper [x] = [upper_byte x]"
| "to_upper (x # y # zs) =
     (if x = CHR 0xC4 \<and> y = CHR 0xB1 then CHR ''I'' # to_upper zs
      else if x = CHR 0xC5 \<and> y = CHR 0xBF then CHR ''S'' # to_upper zs
      else upper_byte x # to_upper (y # zs))"

fun simple_fold :: "string \<Rightarrow> string" where
  "simple_fold [] = []"
| "simple_fold [x] = [lower_byte x]"
| "simple_fold [x, y] =
     (if x = CHR 0xC5 \<and> y = CHR 0xBF then ''s'' else lower_byte x # simple_fold [y])"
| "simple_fold (x # y # z # zs) =
     (if x = CHR 0xC5 \<and> y = CHR 0xBF then CHR ''s'' # simple_fold (z # zs)
      else if x = CHR 0xE2 \<and> y = CHR 0x84 \<and> z = CHR 0xAA then CHR ''k'' # simple_fold zs
      else lower_byte x # simple_fold (y # z # zs))"

definition equal_fold :: "string \<Rightarrow> string \<Rightarrow> bool" where
  "equal_fold s t \<longleftrightarrow> simple_fold s = simple_fold t"

section \<open>White space\<close>

text \<open>The number of bytes of the white space code point a string starts with, 0 if none.\<close>

fun space_width :: "string \<Rightarrow> nat" where
  "space_width [] = 0"
| "space_width (x # xs) =
     (if x \<in> {CHR 0x09, CHR 0x0A, CHR 0x0B, CHR 0x0C, CHR 0x0D, CHR 0x20} then 1
      else (case xs of
          [] \<Rightarrow> 0
        | y # ys \<Rightarrow>
          if x = CHR 0xC2 \<and> y \<in> {CHR 0x85, CHR 0xA0} then 2
          else (case ys of
              [] \<Rightarrow> 0
            | z # zs \<Rightarrow>
              if x = CHR 0xE1 \<and> y = CHR 0x9A \<and> z = CHR 0x80
                 \<or> x = CHR 0xE2 \<and> y = CHR 0x80 \<and>
                   (CHR 0x80 \<le> z \<and> z \<le> CHR 0x8A \<or> z \<in> {CHR 0xA8, CHR 0xA9, CHR 0xAF})
                 \<or> x = CHR 0xE2 \<and> y = CHR 0x81 \<and> z = CHR 0x9F
                 \<or> x = CHR 0xE3 \<and> y = CHR 0x80 \<and> z = CHR 0x80
              then 3 else 0)))"

text \<open>The same at the end of a string, read off the reversed string.\<close>

definition rspace_width :: "string \<Rightarrow> nat" where
  "rspace_width r =
     (if space_width (take 1 r) = 1 then 1
      else if space_width (rev (take 2 r)) = 2 then 2
      else if space_width (rev (take 3 r)) = 3 then 3 else 0)"

lemma space_width_le: "space_width s \<le> length s"
  by (cases s) (auto split: list.splits)

function trim_left_space :: "string \<Rightarrow> string" where
  "trim_left_space s =
     (if 0 < space_width s then trim_left_space (drop (space_width s) s) else s)"
  by pat_completeness auto
termination
proof (relation "measure length")
  fix s :: string assume "0 < space_width s"
  then show "(drop (space_width s) s, s) \<in> measure length"
    using space_width_le[of s] by (cases s) auto
qed simp

lemma rspace_width_le: "rspace_width s \<le> length s"
proof -
  have le: "space_width (rev (take n s)) \<le> length s" for n
    using space_width_le[of "rev (take n s)"] by simp
  have "space_width (take 1 s) \<le> length s"
    using space_width_le[of "take 1 s"] by simp
  then show ?thesis using le[of 2] le[of 3] by (simp add: rspace_width_def)
qed

function trim_right_space_rev :: "string \<Rightarrow> string" where
  "trim_right_space_rev r =
     (if 0 < rspace_width r then trim_right_space_rev (drop (rspace_width r) r) else r)"
  by pat_completeness auto
termination
proof (relation "measure length")
  fix s :: string assume "0 < rspace_width s"
  then show "(drop (rspace_width s) s, s) \<in> measure length"
    using rspace_width_le[of s] by (cases s) (auto simp: rspace_width_def)
qed simp

declare trim_left_space.simps [simp del] trim_right_space_rev.simps [simp del]

definition trim_space :: "string \<Rightarrow> string" where
  "trim_space s = rev (trim_right_space_rev (rev (trim_left_space s)))"

section \<open>UTF-8\<close>

definition in_range :: "nat \<Rightarrow> nat \<Rightarrow> char \<Rightarrow> bool" where
  "in_range lo hi c \<longleftrightarrow> lo \<le> of_char c \<and> of_char c \<le> hi"

abbreviation cont :: "char \<Rightarrow> bool" where
  "cont \<equiv> in_range 128 191"

text \<open>
  \<^verbatim>\<open>utf8.DecodeRuneInString\<close>: the width of the well-formed encoding a string starts with, None
  when it starts with none (Go then reports \<^verbatim>\<open>RuneError\<close> of width 1).
\<close>

fun rune_width :: "string \<Rightarrow> nat option" where
  "rune_width [] = None"
| "rune_width (a # s) =
     (if of_char a < (128::nat) then Some 1
      else (case s of
          [] \<Rightarrow> None
        | b # s \<Rightarrow>
          if in_range 194 223 a then (if cont b then Some 2 else None)
          else (case s of
              [] \<Rightarrow> None
            | c # s \<Rightarrow>
              if in_range 224 239 a then
                (if (if a = CHR 0xE0 then in_range 160 191 b
                     else if a = CHR 0xED then in_range 128 159 b else cont b) \<and> cont c
                 then Some 3 else None)
              else (case s of
                  [] \<Rightarrow> None
                | d # s \<Rightarrow>
                  if in_range 240 244 a
                     \<and> (if a = CHR 0xF0 then in_range 144 191 b
                        else if a = CHR 0xF4 then in_range 128 143 b else cont b)
                     \<and> cont c \<and> cont d
                  then Some 4 else None))))"

lemma rune_width_pos: "rune_width s = Some n \<Longrightarrow> 0 < n \<and> n \<le> length s"
  by (cases s) (auto split: list.splits if_splits)

function valid_string :: "string \<Rightarrow> bool" where
  "valid_string s =
     (if s = [] then True
      else (case rune_width s of None \<Rightarrow> False | Some n \<Rightarrow> valid_string (drop n s)))"
  by pat_completeness auto
termination by (relation "measure length") (auto dest: rune_width_pos)

declare valid_string.simps [simp del]

section \<open>Decimal numbers\<close>

text \<open>\<^verbatim>\<open>strconv.FormatUint(n, 10)\<close>.\<close>

fun format_uint :: "nat \<Rightarrow> string" where
  "format_uint n =
     (if n < 10 then [char_of (48 + n)] else format_uint (n div 10) @ [char_of (48 + n mod 10)])"

declare format_uint.simps [simp del]

definition is_digit :: "char \<Rightarrow> bool" where
  "is_digit c \<longleftrightarrow> CHR ''0'' \<le> c \<and> c \<le> CHR ''9''"

fun digits_value :: "nat \<Rightarrow> string \<Rightarrow> nat option" where
  "digits_value acc [] = Some acc"
| "digits_value acc (c # cs) =
     (if is_digit c then digits_value (10 * acc + (of_char c - 48)) cs else None)"

text \<open>\<^verbatim>\<open>strconv.ParseUint(s, 10, 64)\<close>: None for its error results (syntax and range).\<close>

definition parse_uint64 :: "string \<Rightarrow> nat option" where
  "parse_uint64 s =
     (if s = [] then None
      else (case digits_value 0 s of
          None \<Rightarrow> None
        | Some n \<Rightarrow> if n < 2 ^ 64 then Some n else None))"

text \<open>\<^verbatim>\<open>strconv.Atoi\<close> on a 64-bit platform: an optional sign, then decimal digits in range.\<close>

definition atoi :: "string \<Rightarrow> int option" where
  "atoi s =
     (let neg = has_prefix s ''-'';
          ds = (if neg \<or> has_prefix s ''+'' then tl s else s)
      in if ds = [] then None
         else (case digits_value 0 ds of
             None \<Rightarrow> None
           | Some n \<Rightarrow>
             if neg then (if n \<le> 2 ^ 63 then Some (- int n) else None)
             else (if n < 2 ^ 63 then Some (int n) else None)))"

section \<open>Binary search\<close>

text \<open>
  \<^verbatim>\<open>sort.Search(n, f)\<close>: the binary search loop over \<open>[i, j)\<close>, as the library writes it.
\<close>

function search_loop :: "(nat \<Rightarrow> bool) \<Rightarrow> nat \<Rightarrow> nat \<Rightarrow> nat" where
  "search_loop f i j =
     (if i < j then
        let h = (i + j) div 2
        in if \<not> f h then search_loop f (Suc h) j else search_loop f i h
      else i)"
  by pat_completeness auto
termination by (relation "measure (\<lambda>(f, i, j). j - i)") (auto simp: Let_def)

declare search_loop.simps [simp del]

definition sort_search :: "nat \<Rightarrow> (nat \<Rightarrow> bool) \<Rightarrow> nat" where
  "sort_search n f = search_loop f 0 n"

section \<open>Facts about these functions\<close>

lemma index_byte_None: "index_byte s c = None \<longleftrightarrow> c \<notin> set s"
  by (induction s) auto

lemma index_byte_notin [simp]: "c \<notin> set s \<Longrightarrow> index_byte s c = None"
  by (simp add: index_byte_None)

lemma index_byte_Some_len:
  "index_byte s c = Some i \<Longrightarrow> i = length (takeWhile (\<lambda>x. x \<noteq> c) s) \<and> i < length s"
  by (induction s arbitrary: i) (auto split: if_splits)

lemma str_cut_takeWhile:
  "str_cut s c = (takeWhile (\<lambda>x. x \<noteq> c) s, drop 1 (dropWhile (\<lambda>x. x \<noteq> c) s), c \<in> set s)"
proof (cases "index_byte s c")
  case None
  then have "c \<notin> set s" by (simp add: index_byte_None)
  then have "takeWhile (\<lambda>x. x \<noteq> c) s = s" and "dropWhile (\<lambda>x. x \<noteq> c) s = []"
    by (auto simp: takeWhile_eq_all_conv dropWhile_eq_Nil_conv)
  with None \<open>c \<notin> set s\<close> show ?thesis
    by (simp add: str_cut_def del: takeWhile_eq_all_conv dropWhile_eq_Nil_conv)
next
  case (Some i)
  then have i: "i = length (takeWhile (\<lambda>x. x \<noteq> c) s)" by (simp add: index_byte_Some_len)
  have "c \<in> set s" using Some index_byte_None by (metis option.distinct(1))
  moreover have "take i s = takeWhile (\<lambda>x. x \<noteq> c) s"
    by (metis i takeWhile_eq_take)
  moreover have "drop (Suc i) s = drop 1 (dropWhile (\<lambda>x. x \<noteq> c) s)"
    by (metis One_nat_def add.commute drop_drop dropWhile_eq_drop i plus_1_eq_Suc)
  ultimately show ?thesis using Some by (simp add: str_cut_def)
qed

lemma str_cut_append [simp]:
  "c \<notin> set a \<Longrightarrow> str_cut (a @ c # b) c = (a, b, True)"
  by (simp add: str_cut_takeWhile) (metis (mono_tags, lifting) dropWhile_append_stop drop0 drop_Suc_Cons takeWhile_append_stop)

lemma str_cut_notin: "c \<notin> set a \<Longrightarrow> str_cut a c = (a, [], False)"
  by (simp add: str_cut_def)

lemma index_byte_append [simp]:
  "c \<notin> set a \<Longrightarrow> index_byte (a @ c # b) c = Some (length a)"
  by (induction a) auto

lemma split_on_nonempty [simp]: "split_on s c \<noteq> []"
  by (induction s) (auto split: list.splits)

lemma split_on_pieces: "p \<in> set (split_on s c) \<Longrightarrow> c \<notin> set p"
proof (induction s arbitrary: p)
  case (Cons x xs)
  then show ?case by (cases "split_on xs c") (auto split: if_splits)
qed simp

lemma join_split [simp]: "join_with (split_on s c) [c] = s"
proof (induction s)
  case (Cons x xs)
  obtain p ps where ps: "split_on xs c = p # ps"
    using split_on_nonempty by (meson list.exhaust)
  with Cons show ?case by (cases ps) auto
qed simp

lemma split_on_append:
  "c \<notin> set a \<Longrightarrow> split_on (a @ c # b) c = a # split_on b c"
  by (induction a) auto

lemma split_on_notin: "c \<notin> set a \<Longrightarrow> split_on a c = [a]"
  by (induction a) auto

lemma split_join:
  "ps \<noteq> [] \<Longrightarrow> \<forall>p\<in>set ps. c \<notin> set p \<Longrightarrow> split_on (join_with ps [c]) c = ps"
  by (induction ps "[c]" rule: join_with.induct) (auto simp: split_on_append split_on_notin)

lemma digits_value_append:
  "digits_value acc (xs @ ys) =
     (case digits_value acc xs of None \<Rightarrow> None | Some n \<Rightarrow> digits_value n ys)"
  by (induction xs arbitrary: acc) auto

lemma digit_char:
  fixes d :: nat
  assumes "d < 10"
  shows "is_digit (char_of (48 + d))" and "of_char (char_of (48 + d) :: char) = 48 + d"
  using assms by (auto simp: is_digit_def less_eq_char_def)

lemma format_uint_nonempty [simp]: "format_uint n \<noteq> []"
  by (subst format_uint.simps) simp

lemma format_uint_digits: "c \<in> set (format_uint n) \<Longrightarrow> is_digit c"
proof (induction n rule: format_uint.induct)
  case (1 n)
  then show ?case
    by (subst (asm) (2) format_uint.simps) (auto split: if_splits intro: digit_char(1))
qed

text \<open>Printing and parsing a sequence number round-trips.\<close>

lemma digits_value_format_uint: "digits_value 0 (format_uint n) = Some n"
proof (induction n rule: format_uint.induct)
  case (1 n)
  show ?case
  proof (cases "n < 10")
    case True
    then show ?thesis
      using digit_char[of n] by (simp add: format_uint.simps[of n])
  next
    case False
    then show ?thesis
      using digit_char[of "n mod 10"] 1
      by (simp add: format_uint.simps[of n] digits_value_append)
  qed
qed

lemma parse_format_uint: "n < 2 ^ 64 \<Longrightarrow> parse_uint64 (format_uint n) = Some n"
  by (simp add: parse_uint64_def digits_value_format_uint)

text \<open>
  The contract of \<^verbatim>\<open>sort.Search\<close>: for a predicate that is monotone on \<open>[i, j)\<close>, the result is
  the first index where it holds.
\<close>

lemma search_loop_step:
  "i < j \<Longrightarrow> search_loop f i j =
     (if f ((i + j) div 2) then search_loop f i ((i + j) div 2)
      else search_loop f (Suc ((i + j) div 2)) j)"
  by (subst search_loop.simps) (simp add: Let_def)

lemma search_loop_stop: "\<not> i < j \<Longrightarrow> search_loop f i j = i"
  by (subst search_loop.simps) simp

lemma search_loop_spec:
  assumes mono: "\<And>a b. f a \<Longrightarrow> a \<le> b \<Longrightarrow> b < n \<Longrightarrow> f b"
  shows "i \<le> j \<Longrightarrow> j \<le> n \<Longrightarrow> \<forall>a<i. \<not> f a \<Longrightarrow> \<forall>a. j \<le> a \<and> a < n \<longrightarrow> f a \<Longrightarrow>
     search_loop f i j \<le> n \<and> (\<forall>a < search_loop f i j. \<not> f a)
       \<and> (\<forall>a. search_loop f i j \<le> a \<and> a < n \<longrightarrow> f a)"
proof (induction "j - i" arbitrary: i j rule: less_induct)
  case less
  show ?case
  proof (cases "i < j")
    case lt: True
    define h where "h = (i + j) div 2"
    have h: "i \<le> h" "h < j" using lt by (auto simp: h_def)
    show ?thesis
    proof (cases "f h")
      case True
      have above: "\<forall>a. h \<le> a \<and> a < n \<longrightarrow> f a" using True mono by blast
      have "h - i < j - i" and "h \<le> n" using h less.prems(2) by auto
      then show ?thesis
        using less.hyps[of h i] above less.prems(3) h True search_loop_step[OF lt, of f]
        by (simp add: h_def)
    next
      case False
      have below: "\<forall>a<Suc h. \<not> f a"
        using False mono h less.prems(2) by (metis less_Suc_eq_le order_less_le_trans)
      have "j - Suc h < j - i" and "Suc h \<le> j" using h by auto
      then show ?thesis
        using less.hyps[of j "Suc h"] below less.prems(2,4) False search_loop_step[OF lt, of f]
        by (simp add: h_def)
    qed
  next
    case False
    with less.prems show ?thesis by (auto simp: search_loop_stop)
  qed
qed

lemma sort_search_spec:
  assumes mono: "\<And>a b. f a \<Longrightarrow> a \<le> b \<Longrightarrow> b < n \<Longrightarrow> f b"
  shows "sort_search n f \<le> n" and "a < sort_search n f \<Longrightarrow> \<not> f a"
    and "sort_search n f \<le> a \<Longrightarrow> a < n \<Longrightarrow> f a"
proof -
  have "search_loop f 0 n \<le> n \<and> (\<forall>a < search_loop f 0 n. \<not> f a)
       \<and> (\<forall>a. search_loop f 0 n \<le> a \<and> a < n \<longrightarrow> f a)"
    by (rule search_loop_spec) (use mono in auto)
  then show "sort_search n f \<le> n" and "a < sort_search n f \<Longrightarrow> \<not> f a"
    and "sort_search n f \<le> a \<Longrightarrow> a < n \<Longrightarrow> f a"
    by (simp_all add: sort_search_def)
qed

end
