(* ===== verification/Engine_Line.thy ===== *)
theory Engine_Line
  imports Go_Strings
begin

text \<open>
  Model of \<^verbatim>\<open>internal/engine/ircline.go\<close>: the minimal IRC line parser of stugan-engine, RFC 1459
  case folding, the commands recorded for a replay, and the rewriting of a recorded 001 to the
  current nick. The lemmas relate \<open>rewriteTarget\<close> to \<open>parseLine\<close> on lines written with single
  spaces, the form \<open>render\<close> below produces.
\<close>

section \<open>Parsing\<close>

record ircLine =
  l_nick :: string
  l_cmd :: string
  l_params :: "string list"

text \<open>The tag section, if any, is skipped: None where the code returns \<^verbatim>\<open>ok = false\<close>.\<close>

definition skip_tags :: "string \<Rightarrow> string option" where
  "skip_tags s =
     (if has_prefix s ''@'' then
        (case index_byte s CHR '' '' of
           None \<Rightarrow> None
         | Some i \<Rightarrow> if i < 2 then None else Some (trim_left (drop (i + 1) s) CHR '' ''))
      else Some s)"

text \<open>The prefix, if any: the source nick and what follows.\<close>

definition take_source :: "string \<Rightarrow> (string \<times> string) option" where
  "take_source s =
     (if has_prefix s '':'' then
        (case index_byte s CHR '' '' of
           None \<Rightarrow> None
         | Some i \<Rightarrow>
             if i < 2 then None
             else
               (let src = drop 1 (take i s);
                    nick = (case index_any src ''!@'' of Some j \<Rightarrow> take j src | None \<Rightarrow> src)
                in Some (nick, trim_left (drop (i + 1) s) CHR '' '')))
      else Some ([], s))"

text \<open>The parameter loop: a parameter that starts with a colon takes the rest of the line.\<close>

function parse_params :: "string \<Rightarrow> string list" where
  "parse_params rest =
     (case trim_left rest CHR '' '' of
        [] \<Rightarrow> []
      | c # cs \<Rightarrow>
          if c = CHR '':'' then [cs]
          else (let (p, rest', _) = str_cut (c # cs) CHR '' '' in p # parse_params rest'))"
  by pat_completeness auto
termination
proof (relation "measure length")
  fix rest c cs a p b rest' f
  assume *: "trim_left rest CHR '' '' = c # cs" "c \<noteq> CHR '':''"
    "a = str_cut (c # cs) CHR '' ''" "(p, b) = a" "(rest', f) = b"
  have "length (c # cs) \<le> length rest"
    using *(1) unfolding trim_left_def by (metis length_dropWhile_le)
  moreover have "c \<noteq> CHR '' ''"
    using *(1) unfolding trim_left_def by (rule hd_dropWhile_not)
  moreover have "rest' = drop 1 (dropWhile (\<lambda>x. x \<noteq> CHR '' '') (c # cs))"
    using *(3-5) by (simp add: str_cut_takeWhile)
  ultimately have "length rest' < length rest"
    using length_dropWhile_le[of "\<lambda>x. x \<noteq> CHR '' ''" cs] by auto
  then show "(rest', rest) \<in> measure length" by simp
qed simp

declare parse_params.simps [simp del]

definition parseLine :: "string \<Rightarrow> ircLine option" where
  "parseLine raw =
     (case skip_tags raw of
        None \<Rightarrow> None
      | Some s \<Rightarrow>
          (case take_source s of
             None \<Rightarrow> None
           | Some (nick, s') \<Rightarrow>
               if s' = [] then None
               else (let (cmd, rest, _) = str_cut s' CHR '' ''
                     in Some \<lparr>l_nick = nick, l_cmd = to_upper cmd, l_params = parse_params rest\<rparr>)))"

definition param :: "ircLine \<Rightarrow> nat \<Rightarrow> string" where
  "param l i = (if i < length (l_params l) then l_params l ! i else [])"

definition last_param :: "ircLine \<Rightarrow> string" where
  "last_param l = (if l_params l = [] then [] else List.last (l_params l))"

section \<open>Case folding\<close>

definition fold_byte :: "char \<Rightarrow> char" where
  "fold_byte c =
     (if is_upper_byte c then char_of (of_char c + (32::nat))
      else if c = CHR ''['' then CHR ''{''
      else if c = CHR '']'' then CHR ''}''
      else if c = CHR 0x5C then CHR ''|''
      else if c = CHR ''~'' then CHR ''^''
      else c)"

definition fold_name :: "string \<Rightarrow> string" where
  "fold_name s = map fold_byte s"

section \<open>The registration burst\<close>

definition burstCommands :: "string \<Rightarrow> bool" where
  "burstCommands cmd \<longleftrightarrow>
     cmd \<in> set [''CAP'', ''AUTHENTICATE'', ''001'', ''002'', ''003'', ''004'', ''005'', ''042'',
               ''900'', ''901'', ''903'', ''907'', ''908'']"

definition endOfBurst :: "string \<Rightarrow> bool" where
  "endOfBurst cmd \<longleftrightarrow> cmd = ''376'' \<or> cmd = ''422''"

text \<open>
  \<open>rewriteTarget\<close>: a leading \<open>@\<close> or colon section is moved to the prefix; a section with no
  terminating space makes the function return the line unchanged.
\<close>

definition take_section :: "char \<Rightarrow> string \<Rightarrow> (string \<times> string) option" where
  "take_section c s =
     (if has_prefix s [c] then
        (case index_byte s CHR '' '' of
           None \<Rightarrow> None
         | Some i \<Rightarrow> Some (take (i + 1) s, drop (i + 1) s))
      else Some ([], s))"

definition rewriteTarget :: "string \<Rightarrow> string \<Rightarrow> string" where
  "rewriteTarget raw nick =
     (case take_section CHR ''@'' raw of
        None \<Rightarrow> raw
      | Some (prefix, s) \<Rightarrow>
          (case take_section CHR '':'' s of
             None \<Rightarrow> raw
           | Some (prefix', s') \<Rightarrow>
               (let (cmd, rest, ok) = str_cut s' CHR '' ''
                in if \<not> ok \<or> rest = [] \<or> hd rest = CHR '':'' then raw
                   else
                     (let (_, after, _) = str_cut rest CHR '' '';
                          out = prefix @ prefix' @ cmd @ '' '' @ nick
                      in if after \<noteq> [] then out @ '' '' @ after else out))))"

section \<open>Facts about folding\<close>

lemma lower_char_range:
  assumes "is_upper_byte c"
  shows "of_char (char_of (of_char c + (32::nat)) :: char) = (of_char c + 32 :: nat)"
    and "97 \<le> (of_char c + 32 :: nat)" and "of_char c + 32 \<le> (122::nat)"
  using assms by (auto simp: is_upper_byte_def less_eq_char_def)

lemma fold_byte_idem [simp]: "fold_byte (fold_byte c) = fold_byte c"
proof (cases "is_upper_byte c")
  case True
  have keep: "fold_byte d = d" if "97 \<le> (of_char d::nat)" "(of_char d::nat) \<le> 122" for d
    using that by (auto simp: fold_byte_def is_upper_byte_def less_eq_char_def)
  show ?thesis
    using lower_char_range[OF True] keep[of "char_of (of_char c + (32::nat))"] True
    by (simp add: fold_byte_def)
next
  case False
  then show ?thesis by (auto simp: fold_byte_def is_upper_byte_def less_eq_char_def)
qed

lemma fold_name_idem [simp]: "fold_name (fold_name s) = fold_name s"
  by (simp add: fold_name_def)

lemma length_fold_name [simp]: "length (fold_name s) = length s"
  by (simp add: fold_name_def)

section \<open>Rendering well-formed messages\<close>

text \<open>
  A message as servers write one: optional tag section, optional source, a command, a target
  parameter and the rest of the parameters, separated by single spaces.
\<close>

record message =
  m_tags :: "string option"
  m_source :: "string option"
  m_cmd :: string
  m_target :: string
  m_rest :: string

definition opt_section :: "char \<Rightarrow> string option \<Rightarrow> string" where
  "opt_section c = case_option [] (\<lambda>b. c # b @ '' '')"

definition render :: "message \<Rightarrow> string" where
  "render m = opt_section CHR ''@'' (m_tags m) @ opt_section CHR '':'' (m_source m) @ m_cmd m
     @ '' '' @ m_target m @ (if m_rest m = [] then [] else '' '' @ m_rest m)"

text \<open>A token: not empty, without spaces, not starting with a colon or an at sign.\<close>

definition token :: "string \<Rightarrow> bool" where
  "token s \<longleftrightarrow> s \<noteq> [] \<and> CHR '' '' \<notin> set s \<and> hd s \<noteq> CHR '':'' \<and> hd s \<noteq> CHR ''@''"

definition section_body :: "string option \<Rightarrow> bool" where
  "section_body b = (case b of None \<Rightarrow> True | Some x \<Rightarrow> x \<noteq> [] \<and> CHR '' '' \<notin> set x)"

definition wf_message :: "message \<Rightarrow> bool" where
  "wf_message m \<longleftrightarrow> section_body (m_tags m) \<and> section_body (m_source m)
     \<and> token (m_cmd m) \<and> token (m_target m)"

definition source_nick :: "string option \<Rightarrow> string" where
  "source_nick b = (case b of None \<Rightarrow> []
     | Some src \<Rightarrow> (case index_any src ''!@'' of Some j \<Rightarrow> take j src | None \<Rightarrow> src))"

lemma trim_left_token: "token s \<Longrightarrow> trim_left (s @ t) CHR '' '' = s @ t"
  by (cases s) (auto simp: token_def trim_left_def)

lemma skip_tags_render:
  assumes "section_body b" and "s \<noteq> []" and "hd s \<noteq> CHR '' ''" and "hd s \<noteq> CHR ''@''"
  shows "skip_tags (opt_section CHR ''@'' b @ s) = Some s"
proof (cases b)
  case None
  with assms show ?thesis by (cases s) (auto simp: skip_tags_def opt_section_def has_prefix_def)
next
  case (Some x)
  with assms have "index_byte (CHR ''@'' # x @ CHR '' '' # s) CHR '' '' = Some (Suc (length x))"
    by (simp add: section_body_def)
  moreover have "trim_left s CHR '' '' = s"
    using assms(2,3) by (cases s) (auto simp: trim_left_def)
  ultimately show ?thesis using Some assms(1)
    by (cases x) (auto simp: skip_tags_def opt_section_def has_prefix_def section_body_def)
qed

lemma take_source_render:
  assumes "section_body b" and "s \<noteq> []" and "hd s \<noteq> CHR '' ''" and "hd s \<noteq> CHR '':''"
  shows "take_source (opt_section CHR '':'' b @ s) = Some (source_nick b, s)"
proof (cases b)
  case None
  with assms show ?thesis
    by (cases s) (auto simp: take_source_def opt_section_def has_prefix_def source_nick_def)
next
  case (Some x)
  with assms have "index_byte (CHR '':'' # x @ CHR '' '' # s) CHR '' '' = Some (Suc (length x))"
    by (simp add: section_body_def)
  moreover have "trim_left s CHR '' '' = s"
    using assms(2,3) by (cases s) (auto simp: trim_left_def)
  ultimately show ?thesis using Some assms(1)
    by (cases x) (auto simp: take_source_def opt_section_def has_prefix_def section_body_def
        source_nick_def Let_def)
qed

lemma take_section_render:
  assumes "section_body b" and "s \<noteq> []" and "hd s \<noteq> c" and "c \<noteq> CHR '' ''"
  shows "take_section c (opt_section c b @ s) = Some (opt_section c b, s)"
proof (cases b)
  case None
  with assms show ?thesis by (cases s) (auto simp: take_section_def opt_section_def has_prefix_def)
next
  case (Some x)
  with assms have "index_byte (c # x @ CHR '' '' # s) CHR '' '' = Some (Suc (length x))"
    by (simp add: section_body_def)
  then show ?thesis using Some
    by (auto simp: take_section_def opt_section_def has_prefix_def)
qed

lemma parse_params_token:
  assumes "token p"
  shows "parse_params (p @ (if r = [] then [] else '' '' @ r)) = p # parse_params r"
proof -
  have nil: "parse_params [] = []" by (simp add: parse_params.simps trim_left_def)
  from assms obtain c cs where p: "p = c # cs" "c \<noteq> CHR '':''" "CHR '' '' \<notin> set p"
    by (cases p) (auto simp: token_def)
  show ?thesis
  proof (cases "r = []")
    case True
    then show ?thesis using p trim_left_token[OF assms, of "[]"] nil
      by (simp add: parse_params.simps[of p] parse_params.simps[of "c # cs"] str_cut_notin)
  next
    case False
    have "str_cut (p @ CHR '' '' # r) CHR '' '' = (p, r, True)"
      by (rule str_cut_append) (rule p(3))
    then show ?thesis using False p trim_left_token[OF assms, of "CHR '' '' # r"]
      by (subst parse_params.simps) simp
  qed
qed

lemma opt_section_hd:
  "s \<noteq> [] \<Longrightarrow> hd s \<noteq> CHR '' '' \<Longrightarrow> c \<noteq> CHR '' '' \<Longrightarrow>
     opt_section c b @ s \<noteq> [] \<and> hd (opt_section c b @ s) \<noteq> CHR '' ''"
  by (auto simp: opt_section_def split: option.split)

lemma parseLine_render:
  assumes "wf_message m"
  shows "parseLine (render m) = Some \<lparr>l_nick = source_nick (m_source m),
     l_cmd = to_upper (m_cmd m), l_params = m_target m # parse_params (m_rest m)\<rparr>"
proof -
  define tail where "tail = m_target m @ (if m_rest m = [] then [] else '' '' @ m_rest m)"
  define body where "body = m_cmd m @ CHR '' '' # tail"
  have cmd: "token (m_cmd m)" and tgt: "token (m_target m)"
    and secs: "section_body (m_tags m)" "section_body (m_source m)"
    using assms by (auto simp: wf_message_def)
  have body: "body \<noteq> []" "hd body \<noteq> CHR '' ''" "hd body \<noteq> CHR '':''" "hd body \<noteq> CHR ''@''"
    using cmd by (cases "m_cmd m"; auto simp: body_def token_def)+
  have r: "render m = opt_section CHR ''@'' (m_tags m) @ opt_section CHR '':'' (m_source m) @ body"
    by (simp add: render_def body_def tail_def)
  have "skip_tags (render m) = Some (opt_section CHR '':'' (m_source m) @ body)"
    unfolding r by (rule skip_tags_render)
      (use secs body in \<open>auto simp: opt_section_def split: option.split\<close>)
  moreover have "take_source (opt_section CHR '':'' (m_source m) @ body)
      = Some (source_nick (m_source m), body)"
    by (rule take_source_render) (use secs body in auto)
  moreover have "str_cut body CHR '' '' = (m_cmd m, tail, True)"
    using cmd by (simp add: body_def token_def)
  moreover have "parse_params tail = m_target m # parse_params (m_rest m)"
    unfolding tail_def by (rule parse_params_token [OF tgt])
  ultimately show ?thesis using body by (simp add: parseLine_def)
qed

text \<open>On rendered messages \<open>rewriteTarget\<close> replaces the target and nothing else.\<close>

lemma rewriteTarget_render:
  assumes "wf_message m"
  shows "rewriteTarget (render m) nick = render (m\<lparr>m_target := nick\<rparr>)"
proof -
  define tail where "tail = m_target m @ (if m_rest m = [] then [] else '' '' @ m_rest m)"
  define body where "body = m_cmd m @ CHR '' '' # tail"
  have cmd: "token (m_cmd m)" and tgt: "token (m_target m)"
    and secs: "section_body (m_tags m)" "section_body (m_source m)"
    using assms by (auto simp: wf_message_def)
  have body: "body \<noteq> []" "hd body \<noteq> CHR '':''" "hd body \<noteq> CHR ''@''"
    using cmd by (cases "m_cmd m"; auto simp: body_def token_def)+
  have tail: "tail \<noteq> []" "hd tail \<noteq> CHR '':''"
    using tgt by (cases "m_target m"; auto simp: tail_def token_def)+
  have r: "render m = opt_section CHR ''@'' (m_tags m) @ opt_section CHR '':'' (m_source m) @ body"
    by (simp add: render_def body_def tail_def)
  have "take_section CHR ''@'' (render m)
      = Some (opt_section CHR ''@'' (m_tags m), opt_section CHR '':'' (m_source m) @ body)"
    unfolding r by (rule take_section_render)
      (use secs body in \<open>auto simp: opt_section_def split: option.split\<close>)
  moreover have "take_section CHR '':'' (opt_section CHR '':'' (m_source m) @ body)
      = Some (opt_section CHR '':'' (m_source m), body)"
    by (rule take_section_render) (use secs body in auto)
  moreover have "str_cut body CHR '' '' = (m_cmd m, tail, True)"
    using cmd by (simp add: body_def token_def)
  moreover have "str_cut tail CHR '' '' = (m_target m, m_rest m, m_rest m \<noteq> [])"
    using tgt by (auto simp: tail_def token_def str_cut_notin)
  ultimately show ?thesis using tail by (simp add: rewriteTarget_def render_def)
qed

end
