(* ===== verification/Line_Buffer.thy ===== *)
theory Line_Buffer
  imports Go_Strings
begin

text \<open>
  Model of the backlog of \<^verbatim>\<open>internal/engine/buffer.go\<close>: \<^verbatim>\<open>bufferedLine\<close>, \<^verbatim>\<open>lineCost\<close> and every method of
  \<^verbatim>\<open>lineBuffer\<close>. Sequence numbers are natural numbers (one per line a server sends, so the 64-bit
  counter does not wrap), byte counts are integers. \<^verbatim>\<open>compact\<close> only moves the lines to a fresh array
  and has no effect on the contents, so it does not appear.

  The locale \<open>backlog\<close> states what the session relies on; its lemmas (batched delivery) are proved
  once from the contract and interpreted on the model of \<^verbatim>\<open>lineBuffer\<close>.
\<close>

section \<open>Data and operations\<close>

record bufferedLine =
  bl_seq :: nat
  bl_at :: int
  bl_line :: string

definition lineCost :: "string \<Rightarrow> int" where
  "lineCost line = int (length line) + 32"

record lineBuffer =
  lb_lines :: "bufferedLine list"
  lb_bytes :: int

definition empty_buffer :: lineBuffer where
  "empty_buffer = \<lparr>lb_lines = [], lb_bytes = 0\<rparr>"

definition push :: "bufferedLine \<Rightarrow> lineBuffer \<Rightarrow> lineBuffer" where
  "push l b = \<lparr>lb_lines = lb_lines b @ [l], lb_bytes = lb_bytes b + lineCost (bl_line l)\<rparr>"

definition buf_len :: "lineBuffer \<Rightarrow> nat" where
  "buf_len b = length (lb_lines b)"

definition dropOldest :: "lineBuffer \<Rightarrow> (bufferedLine \<times> lineBuffer) option" where
  "dropOldest b =
     (case lb_lines b of
        [] \<Rightarrow> None
      | l # ls \<Rightarrow> Some (l, \<lparr>lb_lines = ls, lb_bytes = lb_bytes b - lineCost (bl_line l)\<rparr>))"

text \<open>The binary search all three readers share: the first index whose line is past \<open>seq\<close>.\<close>

definition search_after :: "nat \<Rightarrow> bufferedLine list \<Rightarrow> nat" where
  "search_after seq ls = sort_search (length ls) (\<lambda>i. seq < bl_seq (ls ! i))"

fun freed_cost :: "bufferedLine list \<Rightarrow> int" where
  "freed_cost [] = 0"
| "freed_cost (l # ls) = lineCost (bl_line l) + freed_cost ls"

definition ackThrough :: "nat \<Rightarrow> lineBuffer \<Rightarrow> int \<times> lineBuffer" where
  "ackThrough seq b =
     (let n = search_after seq (lb_lines b);
          freed = freed_cost (take n (lb_lines b))
      in (freed, \<lparr>lb_lines = drop n (lb_lines b), lb_bytes = lb_bytes b - freed\<rparr>))"

definition after :: "nat \<Rightarrow> nat \<Rightarrow> lineBuffer \<Rightarrow> bufferedLine list" where
  "after seq limit b =
     (let i = search_after seq (lb_lines b);
          j = min (length (lb_lines b)) (i + limit)
      in take (j - i) (drop i (lb_lines b)))"

definition countAfter :: "nat \<Rightarrow> lineBuffer \<Rightarrow> nat" where
  "countAfter seq b = length (lb_lines b) - search_after seq (lb_lines b)"

definition clear_buffer :: "lineBuffer \<Rightarrow> int \<times> lineBuffer" where
  "clear_buffer b = (lb_bytes b, \<lparr>lb_lines = [], lb_bytes = 0\<rparr>)"

text \<open>Lines in strictly increasing order of sequence number, and an exact byte count.\<close>

definition lb_inv :: "lineBuffer \<Rightarrow> bool" where
  "lb_inv b \<longleftrightarrow> sorted_wrt (<) (map bl_seq (lb_lines b)) \<and> lb_bytes b = freed_cost (lb_lines b)"

section \<open>Reference characterisation\<close>

lemma lineCost_pos: "0 < lineCost s"
  by (simp add: lineCost_def)

lemma freed_cost_append [simp]: "freed_cost (xs @ ys) = freed_cost xs + freed_cost ys"
  by (induction xs) auto

lemma freed_cost_nonneg: "0 \<le> freed_cost xs"
  using lineCost_pos by (induction xs) (auto simp: add_nonneg_nonneg less_imp_le)

lemma freed_cost_pos: "xs \<noteq> [] \<Longrightarrow> 0 < freed_cost xs"
  using lineCost_pos freed_cost_nonneg by (cases xs) (auto simp: add_pos_nonneg)

lemma search_after_split:
  assumes "sorted_wrt (<) (map bl_seq ls)"
  shows "take (search_after seq ls) ls = filter (\<lambda>l. bl_seq l \<le> seq) ls"
    and "drop (search_after seq ls) ls = filter (\<lambda>l. seq < bl_seq l) ls"
proof -
  let ?n = "search_after seq ls"
  have mono: "seq < bl_seq (ls ! b)" if "seq < bl_seq (ls ! a)" "a \<le> b" "b < length ls" for a b
  proof (cases "a = b")
    case False
    then have "bl_seq (ls ! a) < bl_seq (ls ! b)"
      using assms that by (simp add: sorted_wrt_iff_nth_less)
    with that show ?thesis by simp
  qed (use that in simp)
  let ?f = "\<lambda>i. seq < bl_seq (ls ! i)"
  have below: "\<not> ?f a" if "a < ?n" for a
    using sort_search_spec(2)[of ?f "length ls" a] mono that by (auto simp: search_after_def)
  have above: "?f a" if "?n \<le> a" "a < length ls" for a
    using sort_search_spec(3)[of ?f "length ls" a] mono that by (auto simp: search_after_def)
  have le: "\<forall>l\<in>set (take ?n ls). bl_seq l \<le> seq"
    using below by (auto simp: in_set_conv_nth not_less)
  have gt: "\<forall>l\<in>set (drop ?n ls). seq < bl_seq l"
    using above by (auto simp: in_set_conv_nth)
  have "filter (\<lambda>l. bl_seq l \<le> seq) (take ?n ls @ drop ?n ls) = take ?n ls"
    using le gt by (auto simp: filter_id_conv filter_empty_conv simp del: append_take_drop_id)
  moreover have "filter (\<lambda>l. seq < bl_seq l) (take ?n ls @ drop ?n ls) = drop ?n ls"
    using le gt by (auto simp: filter_id_conv filter_empty_conv simp del: append_take_drop_id)
  ultimately show "take ?n ls = filter (\<lambda>l. bl_seq l \<le> seq) ls"
    and "drop ?n ls = filter (\<lambda>l. seq < bl_seq l) ls" by simp_all
qed

lemma lb_sorted: "lb_inv b \<Longrightarrow> sorted_wrt (<) (map bl_seq (lb_lines b))"
  by (simp add: lb_inv_def)

lemma ackThrough_spec [buffer_specs]:
  assumes "lb_inv b"
  shows "lb_lines (snd (ackThrough seq b)) = filter (\<lambda>l. seq < bl_seq l) (lb_lines b)"
    and "fst (ackThrough seq b) = freed_cost (filter (\<lambda>l. bl_seq l \<le> seq) (lb_lines b))"
  using search_after_split[OF lb_sorted[OF assms], of seq]
  by (simp_all add: ackThrough_def Let_def)

lemma after_spec [buffer_specs]:
  assumes "lb_inv b"
  shows "after seq limit b = take limit (filter (\<lambda>l. seq < bl_seq l) (lb_lines b))"
proof -
  let ?n = "search_after seq (lb_lines b)"
  have "take (min (length (lb_lines b)) (?n + limit) - ?n) (drop ?n (lb_lines b))
      = take limit (drop ?n (lb_lines b))"
    by (cases "?n + limit \<le> length (lb_lines b)") (auto simp: min_def)
  then show ?thesis
    using search_after_split(2)[OF lb_sorted[OF assms], of seq] by (simp add: after_def Let_def)
qed

lemma countAfter_spec [buffer_specs]:
  assumes "lb_inv b"
  shows "countAfter seq b = length (filter (\<lambda>l. seq < bl_seq l) (lb_lines b))"
  using search_after_split(2)[OF lb_sorted[OF assms], of seq]
  by (metis countAfter_def length_drop)

section \<open>The contract of a backlog\<close>

locale backlog =
  fixes b_push :: "bufferedLine \<Rightarrow> 'b \<Rightarrow> 'b"
    and b_drop :: "'b \<Rightarrow> (bufferedLine \<times> 'b) option"
    and b_ack :: "nat \<Rightarrow> 'b \<Rightarrow> int \<times> 'b"
    and b_after :: "nat \<Rightarrow> nat \<Rightarrow> 'b \<Rightarrow> bufferedLine list"
    and b_count :: "nat \<Rightarrow> 'b \<Rightarrow> nat"
    and b_lines :: "'b \<Rightarrow> bufferedLine list"
    and b_bytes :: "'b \<Rightarrow> int"
    and b_inv :: "'b \<Rightarrow> bool"
  assumes inv_sorted: "b_inv b \<Longrightarrow> sorted_wrt (<) (map bl_seq (b_lines b))"
    and inv_bytes: "b_inv b \<Longrightarrow> b_bytes b = freed_cost (b_lines b)"
    and push_lines: "b_inv b \<Longrightarrow> b_lines (b_push l b) = b_lines b @ [l]"
    and push_inv: "b_inv b \<Longrightarrow> \<forall>x\<in>set (b_lines b). bl_seq x < bl_seq l \<Longrightarrow> b_inv (b_push l b)"
    and drop_None: "b_inv b \<Longrightarrow> b_drop b = None \<longleftrightarrow> b_lines b = []"
    and drop_Some: "b_inv b \<Longrightarrow> b_drop b = Some (l, b') \<Longrightarrow> b_lines b = l # b_lines b' \<and> b_inv b'"
    and ack_lines: "b_inv b \<Longrightarrow>
      b_lines (snd (b_ack seq b)) = filter (\<lambda>l. seq < bl_seq l) (b_lines b)"
    and ack_inv: "b_inv b \<Longrightarrow> b_inv (snd (b_ack seq b))"
    and after_lines: "b_inv b \<Longrightarrow>
      b_after seq limit b = take limit (filter (\<lambda>l. seq < bl_seq l) (b_lines b))"
    and count_lines: "b_inv b \<Longrightarrow>
      b_count seq b = length (filter (\<lambda>l. seq < bl_seq l) (b_lines b))"
begin

lemma ack_freed: "b_inv b \<Longrightarrow>
   b_bytes b - b_bytes (snd (b_ack seq b)) = freed_cost (filter (\<lambda>l. bl_seq l \<le> seq) (b_lines b))"
proof -
  assume "b_inv b"
  have "freed_cost xs = freed_cost (filter (\<lambda>l. bl_seq l \<le> seq) xs)
      + freed_cost (filter (\<lambda>l. seq < bl_seq l) xs)" for xs
    by (induction xs) auto
  from this[of "b_lines b"] show ?thesis
    using \<open>b_inv b\<close> inv_bytes ack_lines ack_inv by (simp add: algebra_simps)
qed

text \<open>The last line of a batch is a cursor: past it lies exactly what the batch did not take.\<close>

lemma after_cursor:
  assumes "b_inv b" and "b_after seq limit b \<noteq> []"
  shows "filter (\<lambda>l. bl_seq (last (b_after seq limit b)) < bl_seq l) (b_lines b)
    = drop limit (filter (\<lambda>l. seq < bl_seq l) (b_lines b))"
    and "seq < bl_seq (last (b_after seq limit b))"
proof -
  let ?xs = "filter (\<lambda>l. seq < bl_seq l) (b_lines b)"
  have ne: "take limit ?xs \<noteq> []" using assms after_lines by simp
  have gt: "seq < bl_seq (last (take limit ?xs))"
    using last_in_set[OF ne] set_take_subset[of limit ?xs] by auto
  have "sorted_wrt (<) (map bl_seq ?xs)"
    using inv_sorted[OF assms(1)] by (simp add: sorted_wrt_map sorted_wrt_filter)
  then have past: "filter (\<lambda>l. bl_seq (last (take limit ?xs)) < bl_seq l) ?xs = drop limit ?xs"
    using ne by (rule filter_past_take)
  have "filter (\<lambda>l. k < bl_seq l) (filter (\<lambda>l. seq < bl_seq l) ls)
      = filter (\<lambda>l. k < bl_seq l) ls" if "seq < k" for k ls
    using that by (induction ls) auto
  from trans[OF this[OF gt, of "b_lines b", symmetric] past]
  show "filter (\<lambda>l. bl_seq (last (b_after seq limit b)) < bl_seq l) (b_lines b) = drop limit ?xs"
    unfolding after_lines[OF assms(1)] .
  show "seq < bl_seq (last (b_after seq limit b))"
    using gt unfolding after_lines[OF assms(1)] .
qed

end

lemma push_inv_model:
  "lb_inv b \<Longrightarrow> \<forall>x\<in>set (lb_lines b). bl_seq x < bl_seq l \<Longrightarrow> lb_inv (push l b)"
  by (auto simp: lb_inv_def push_def sorted_wrt_append)

lemma ack_inv_model:
  assumes "lb_inv b"
  shows "lb_inv (snd (ackThrough seq b))"
proof -
  let ?n = "search_after seq (lb_lines b)"
  have "lb_bytes b = freed_cost (take ?n (lb_lines b)) + freed_cost (drop ?n (lb_lines b))"
    using assms freed_cost_append[of "take ?n (lb_lines b)" "drop ?n (lb_lines b)"]
    by (simp add: lb_inv_def)
  moreover have "sorted_wrt (<) (map bl_seq (drop ?n (lb_lines b)))"
    using assms by (simp add: lb_inv_def drop_map [symmetric] sorted_wrt_drop)
  ultimately show ?thesis by (simp add: lb_inv_def ackThrough_def Let_def)
qed

lemma drop_Some_model:
  "lb_inv b \<Longrightarrow> dropOldest b = Some (l, b') \<Longrightarrow> lb_lines b = l # lb_lines b' \<and> lb_inv b'"
  by (auto simp: dropOldest_def lb_inv_def split: list.splits)

interpretation lb: backlog push dropOldest ackThrough after countAfter lb_lines lb_bytes lb_inv
proof (unfold_locales, goal_cases)
  case 1 then show ?case by (rule lb_sorted)
next
  case 2 then show ?case by (simp add: lb_inv_def)
next
  case 3 then show ?case by (simp add: push_def)
next
  case 4 then show ?case by (rule push_inv_model)
next
  case 5 then show ?case by (simp add: dropOldest_def split: list.splits)
next
  case 6 then show ?case by (rule drop_Some_model)
next
  case 7 then show ?case by (rule ackThrough_spec(1))
next
  case 8 then show ?case by (rule ack_inv_model)
next
  case 9 then show ?case by (rule after_spec)
next
  case 10 then show ?case by (rule countAfter_spec)
qed

lemma empty_buffer_inv [simp]: "lb_inv empty_buffer"
  by (simp add: lb_inv_def empty_buffer_def)

lemma clear_buffer_inv [simp]: "lb_inv (snd (clear_buffer b))"
  by (simp add: lb_inv_def clear_buffer_def)

end
