(* ===== verification/Engine_Proto.thy ===== *)
theory Engine_Proto
  imports Go_Strings
begin

text \<open>
  Model of the frames of \<^verbatim>\<open>internal/engineproto/proto.go\<close>: the \<^verbatim>\<open>Frame\<close> struct, the ops, the size limits
  and the \<^verbatim>\<open>SetLine\<close>/\<^verbatim>\<open>Text\<close> pair that keeps a relayed line byte-exact. A zero value of a field is
  what \<^verbatim>\<open>omitempty\<close> leaves out, so an absent field and a zero one are the same here as on the wire.
  A nil \<^verbatim>\<open>Bin\<close> is None. The address forms of \<^verbatim>\<open>ParseAddr\<close> that need no URL parser are modelled by
  \<open>checkHostPort\<close>.
\<close>

definition ProtocolMajor :: int where "ProtocolMajor = 1"
definition ProtocolMinor :: int where "ProtocolMinor = 0"
definition MaxFrameBytes :: nat where "MaxFrameBytes = 1048576"
definition MaxLineBytes :: nat where "MaxLineBytes = 16384"

datatype op = OpHello | OpPing | OpPong | OpConnect | OpWrite | OpAck | OpDetach | OpClose
  | OpOpen | OpAttached | OpLine | OpDetached | OpClosed | OpError | OpHealth | OpOther string

text \<open>The wire names of the ops; any other non-empty name is an op this version does not know.\<close>

definition op_names :: "(string \<times> op) list" where
  "op_names = [(''hello'', OpHello), (''ping'', OpPing), (''pong'', OpPong),
     (''connect'', OpConnect), (''write'', OpWrite), (''ack'', OpAck), (''detach'', OpDetach),
     (''close'', OpClose), (''open'', OpOpen), (''attached'', OpAttached), (''line'', OpLine),
     (''detached'', OpDetached), (''closed'', OpClosed), (''error'', OpError),
     (''health'', OpHealth)]"

definition op_of_string :: "string \<Rightarrow> op" where
  "op_of_string s = (case map_of op_names s of Some k \<Rightarrow> k | None \<Rightarrow> OpOther s)"

fun string_of_op :: "op \<Rightarrow> string" where
  "string_of_op OpHello = ''hello''"
| "string_of_op OpPing = ''ping''"
| "string_of_op OpPong = ''pong''"
| "string_of_op OpConnect = ''connect''"
| "string_of_op OpWrite = ''write''"
| "string_of_op OpAck = ''ack''"
| "string_of_op OpDetach = ''detach''"
| "string_of_op OpClose = ''close''"
| "string_of_op OpOpen = ''open''"
| "string_of_op OpAttached = ''attached''"
| "string_of_op OpLine = ''line''"
| "string_of_op OpDetached = ''detached''"
| "string_of_op OpClosed = ''closed''"
| "string_of_op OpError = ''error''"
| "string_of_op OpHealth = ''health''"
| "string_of_op (OpOther s) = s"

record frame =
  f_op :: op
  f_protocol :: int
  f_minor :: int
  f_secret :: string
  f_instance :: string
  f_gen :: int
  f_version :: string
  f_id :: string
  f_handle :: string
  f_addr :: string
  f_tls :: bool
  f_insecure :: bool
  f_certPEM :: string
  f_fingerprint :: string
  f_line :: string
  f_bin :: "string option"
  f_seq :: nat
  f_at :: int
  f_replay :: "string list"
  f_nick :: string
  f_channels :: "string list"
  f_unattended :: bool
  f_detachedMs :: int
  f_backlog :: nat
  f_lost :: nat
  f_error :: string

text \<open>A frame whose fields all have their zero value.\<close>

definition zero_frame :: "op \<Rightarrow> frame" where
  "zero_frame k = \<lparr>f_op = k, f_protocol = 0, f_minor = 0, f_secret = [], f_instance = [],
     f_gen = 0, f_version = [], f_id = [], f_handle = [], f_addr = [], f_tls = False,
     f_insecure = False, f_certPEM = [], f_fingerprint = [], f_line = [], f_bin = None,
     f_seq = 0, f_at = 0, f_replay = [], f_nick = [], f_channels = [], f_unattended = False,
     f_detachedMs = 0, f_backlog = 0, f_lost = 0, f_error = []\<rparr>"

definition SetLine :: "string \<Rightarrow> frame \<Rightarrow> frame" where
  "SetLine line f =
     (if valid_string line then f\<lparr>f_line := line, f_bin := None\<rparr>
      else f\<lparr>f_line := [], f_bin := Some line\<rparr>)"

definition Text :: "frame \<Rightarrow> string" where
  "Text f = (case f_bin f of Some b \<Rightarrow> b | None \<Rightarrow> f_line f)"

text \<open>The port check of an engine address: a last colon followed by a port in 1..65535.\<close>

definition checkHostPort :: "string \<Rightarrow> bool" where
  "checkHostPort hp =
     (case last_index_byte hp CHR '':'' of
        None \<Rightarrow> False
      | Some i \<Rightarrow>
          if i = length hp - 1 then False
          else (case atoi (drop (i + 1) hp) of
              None \<Rightarrow> False
            | Some port \<Rightarrow> \<not> (port \<le> 0 \<or> 65535 < port)))"

section \<open>Facts about frames\<close>

lemma Text_SetLine [simp]: "Text (SetLine line f) = line"
  by (simp add: Text_def SetLine_def)

lemma SetLine_fields [simp]:
  "f_op (SetLine l f) = f_op f" "f_seq (SetLine l f) = f_seq f"
  "f_handle (SetLine l f) = f_handle f" "f_at (SetLine l f) = f_at f"
  by (simp_all add: SetLine_def)

lemma zero_frame_fields [simp]:
  "f_op (zero_frame k) = k" "f_handle (zero_frame k) = []" "f_seq (zero_frame k) = 0"
  "f_error (zero_frame k) = []" "f_replay (zero_frame k) = []"
  by (simp_all add: zero_frame_def)

text \<open>Known wire names and ops correspond one to one.\<close>

lemma op_of_string_of_op:
  "(case k of OpOther s \<Rightarrow> map_of op_names s = None | _ \<Rightarrow> True) \<Longrightarrow>
     op_of_string (string_of_op k) = k"
  by (cases k) (simp_all add: op_of_string_def op_names_def)

lemma string_of_op_of_string: "string_of_op (op_of_string s) = s"
  by (auto simp: op_of_string_def op_names_def)

end
