(* ===== verification/Engine_Session.thy ===== *)
theory Engine_Session
  imports Engine_Line Line_Buffer Engine_Proto
begin

text \<open>
  Model of \<^verbatim>\<open>internal/engine/session.go\<close>: one held IRC socket. Each definition is one critical section
  of the code (the part under the session's mutex), a function from session to session; what it
  owes the byte budget is returned beside the new session. Link pointers are numbers (an address in
  the server's heap), times are milliseconds, a zero \<^verbatim>\<open>time.Time\<close> is None.

  The invariant \<open>sess_inv\<close> says that the backlog is the contiguous run of the newest lines, that
  watermarks lie inside the run of assigned numbers, and that the recorded burst is bounded.
\<close>

section \<open>State\<close>

datatype sessionState = StateDialing | StateOpen | StateClosed

record session =
  s_key :: string
  s_instance :: string
  s_id :: string
  s_fp :: string
  s_addr :: string
  s_created :: int
  s_writeQ :: "string list"
  s_stopped :: bool
  s_state :: sessionState
  s_closeErr :: string
  s_conn :: bool
  s_link :: "nat option"
  s_handle :: string
  s_handles :: "string list"
  s_detachedAt :: "int option"
  s_buf :: lineBuffer
  s_seq :: nat
  s_acked :: nat
  s_sent :: nat
  s_everSent :: nat
  s_lost :: nat
  s_ctrl :: "frame list"
  s_finished :: bool
  s_registered :: bool
  s_unattended :: bool
  s_burst :: "string list"
  s_burstBytes :: nat
  s_burstOpen :: bool
  s_burstCovered :: nat
  s_welcomeIdx :: int
  s_nick :: string
  s_channels :: "string list"
  s_capLog :: "string list"
  s_capLogBytes :: nat

definition maxBurstBytes :: nat where "maxBurstBytes = 65536"
definition maxCapLogBytes :: nat where "maxCapLogBytes = 16384"
definition recentHandles :: nat where "recentHandles = 8"
definition writeQueueSize :: nat where "writeQueueSize = 1024"

definition probeToken :: string where
  "probeToken = ''stugan-engine-probe''"

definition newSession :: "int \<Rightarrow> nat \<Rightarrow> string \<Rightarrow> frame \<Rightarrow> string \<Rightarrow> session" where
  "newSession now l inst f key =
     \<lparr>s_key = key, s_instance = inst, s_id = f_id f, s_fp = f_fingerprint f, s_addr = f_addr f,
      s_created = now, s_writeQ = [], s_stopped = False, s_state = StateDialing,
      s_closeErr = [], s_conn = False, s_link = Some l, s_handle = f_handle f,
      s_handles = [f_handle f], s_detachedAt = None, s_buf = empty_buffer, s_seq = 0,
      s_acked = 0, s_sent = 0, s_everSent = 0, s_lost = 0, s_ctrl = [], s_finished = False,
      s_registered = False, s_unattended = False, s_burst = [], s_burstBytes = 0,
      s_burstOpen = False, s_burstCovered = 0, s_welcomeIdx = -1, s_nick = [], s_channels = [],
      s_capLog = [], s_capLogBytes = 0\<rparr>"

section \<open>Dialing\<close>

text \<open>
  The end of \<^verbatim>\<open>dial\<close>: \<open>Some e\<close> is a failed open, None a socket. A session closed while it dialed
  stays closed (its fresh socket is closed again).
\<close>

definition dial_done :: "string option \<Rightarrow> session \<Rightarrow> session" where
  "dial_done err s =
     (if s_state s = StateClosed then s
      else (case err of
          Some e \<Rightarrow> s\<lparr>s_state := StateClosed, s_closeErr := e, s_stopped := True\<rparr>
        | None \<Rightarrow> s\<lparr>s_conn := True, s_state := StateOpen, s_burstOpen := True,
            s_ctrl := s_ctrl s @ [(zero_frame OpOpen)\<lparr>f_handle := s_handle s\<rparr>]\<rparr>))"

section \<open>Writing to the socket\<close>

text \<open>
  \<^verbatim>\<open>enqueueWrite\<close>: after \<^verbatim>\<open>stop\<close> nothing is written any more; a full queue is reported (second
  component), on which the code ends the session.
\<close>

definition enqueueWrite :: "string \<Rightarrow> session \<Rightarrow> session \<times> bool" where
  "enqueueWrite line s =
     (if s_stopped s then (s, False)
      else if length (s_writeQ s) < writeQueueSize
      then (s\<lparr>s_writeQ := s_writeQ s @ [line]\<rparr>, False)
      else (s, True))"

text \<open>One round of \<^verbatim>\<open>writeLoop\<close>: the next queued line, with its terminator, goes to the socket.\<close>

definition write_one :: "session \<Rightarrow> (string \<times> session) option" where
  "write_one s =
     (if s_stopped s then None
      else (case s_writeQ s of
          [] \<Rightarrow> None
        | l # ls \<Rightarrow> Some (l @ [CHR 0x0D, CHR 0x0A], s\<lparr>s_writeQ := ls\<rparr>)))"

section \<open>Tracking\<close>

definition addChannel :: "string \<Rightarrow> session \<Rightarrow> session" where
  "addChannel ch s =
     (if ch = [] \<or> ch = ''0'' then s
      else if \<exists>c\<in>set (s_channels s). fold_name c = fold_name ch then s
      else s\<lparr>s_channels := s_channels s @ [ch]\<rparr>)"

definition removeChannel :: "string \<Rightarrow> session \<Rightarrow> session" where
  "removeChannel ch s =
     s\<lparr>s_channels := filter (\<lambda>c. fold_name c \<noteq> fold_name ch) (s_channels s)\<rparr>"

text \<open>The burst part of \<^verbatim>\<open>track\<close>: what a replay will be built from.\<close>

definition track_burst :: "ircLine \<Rightarrow> string \<Rightarrow> session \<Rightarrow> session" where
  "track_burst l raw s =
     (if s_burstOpen s then
        (let s = s\<lparr>s_burstCovered := s_seq s\<rparr>;
             s = (if burstCommands (l_cmd l) then
                    (if s_burstBytes s + length raw > maxBurstBytes then s\<lparr>s_burstOpen := False\<rparr>
                     else
                       (let s = s\<lparr>s_burst := s_burst s @ [raw],
                                  s_burstBytes := s_burstBytes s + length raw\<rparr>
                        in if l_cmd l = ''001'' \<and> s_welcomeIdx s < 0
                           then s\<lparr>s_welcomeIdx := int (length (s_burst s)) - 1\<rparr> else s))
                  else s)
         in if endOfBurst (l_cmd l) then s\<lparr>s_burstOpen := False\<rparr> else s)
      else if l_cmd l = ''CAP'' \<and> (equal_fold (param l 1) ''ACK'' \<or> equal_fold (param l 1) ''DEL'')
      then (if s_capLogBytes s + length raw \<le> maxCapLogBytes
            then s\<lparr>s_capLog := s_capLog s @ [raw], s_capLogBytes := s_capLogBytes s + length raw\<rparr>
            else s)
      else s)"

text \<open>The command part of \<^verbatim>\<open>track\<close>: registration, own nick, own channels.\<close>

definition is_self :: "ircLine \<Rightarrow> session \<Rightarrow> bool" where
  "is_self l s \<longleftrightarrow> s_nick s \<noteq> [] \<and> l_nick l \<noteq> [] \<and> fold_name (l_nick l) = fold_name (s_nick s)"

definition track_command :: "ircLine \<Rightarrow> session \<Rightarrow> session" where
  "track_command l s =
     (let self = is_self l s in
      if l_cmd l = ''001'' then
        (let s = (if \<not> s_registered s
                  then s\<lparr>s_registered := True, s_unattended := (s_link s = None)\<rparr> else s)
         in if param l 0 \<noteq> [] then s\<lparr>s_nick := param l 0\<rparr> else s)
      else if l_cmd l = ''NICK'' then
        (if self \<and> param l 0 \<noteq> [] then s\<lparr>s_nick := param l 0\<rparr> else s)
      else if l_cmd l = ''JOIN'' then
        (if self then List.fold addChannel (split_on (param l 0) CHR '','') s else s)
      else if l_cmd l = ''PART'' then
        (if self then List.fold removeChannel (split_on (param l 0) CHR '','') s else s)
      else if l_cmd l = ''KICK'' then
        (if s_nick s \<noteq> [] \<and> fold_name (param l 1) = fold_name (s_nick s)
         then removeChannel (param l 0) s else s)
      else s)"

definition track :: "ircLine \<Rightarrow> string \<Rightarrow> session \<Rightarrow> session" where
  "track l raw s = track_command l (track_burst l raw s)"

section \<open>Shedding and accepting lines\<close>

text \<open>\<^verbatim>\<open>dropOldestLocked\<close>, with the bytes it refunds to the budget.\<close>

definition dropOldestLocked :: "session \<Rightarrow> int \<times> session" where
  "dropOldestLocked s =
     (case dropOldest (s_buf s) of
        None \<Rightarrow> (0, s)
      | Some (l, b) \<Rightarrow>
          (lineCost (bl_line l),
           s\<lparr>s_buf := b, s_lost := (if s_everSent s < bl_seq l then s_lost s + 1 else s_lost s)\<rparr>))"

definition shedOldest :: "session \<Rightarrow> (int \<times> session) option" where
  "shedOldest s = (if buf_len (s_buf s) \<le> 1 then None else Some (dropOldestLocked s))"

lemma dropOldestLocked_len:
  "0 < buf_len (s_buf s) \<Longrightarrow> buf_len (s_buf (snd (dropOldestLocked s))) = buf_len (s_buf s) - 1"
  by (auto simp: dropOldestLocked_def dropOldest_def buf_len_def split: list.splits)

text \<open>The per-connection cap: the loop that sheds until the backlog fits or one line is left.\<close>

function shed_loop :: "int \<Rightarrow> session \<Rightarrow> int \<times> session" where
  "shed_loop cap s =
     (if cap < lb_bytes (s_buf s) \<and> 1 < buf_len (s_buf s) then
        (let (r, s') = dropOldestLocked s; (r', s'') = shed_loop cap s' in (r + r', s''))
      else (0, s))"
  by pat_completeness auto
termination
proof (relation "measure (\<lambda>(cap, s). buf_len (s_buf s))")
  fix cap :: int and s :: session and p :: "int \<times> session" and r :: int and s' :: session
  assume *: "cap < lb_bytes (s_buf s) \<and> 1 < buf_len (s_buf s)" "p = dropOldestLocked s" "(r, s') = p"
  then have "s' = snd (dropOldestLocked s)" by (metis snd_conv)
  with * dropOldestLocked_len[of s]
  show "((cap, s'), cap, s) \<in> measure (\<lambda>(cap, s). buf_len (s_buf s))" by simp
qed simp

declare shed_loop.simps [simp del]

text \<open>
  The locked part of \<^verbatim>\<open>ingest\<close> on an open session: number, buffer, track, shed. The first component is
  what the line costs the budget, less what shedding refunds.
\<close>

definition accept_line :: "int \<Rightarrow> int \<Rightarrow> ircLine \<Rightarrow> string \<Rightarrow> session \<Rightarrow> int \<times> session" where
  "accept_line cap now l raw s =
     (let s1 = s\<lparr>s_seq := s_seq s + 1\<rparr>;
          s2 = s1\<lparr>s_buf := push \<lparr>bl_seq = s_seq s1, bl_at = now, bl_line = raw\<rparr> (s_buf s1)\<rparr>;
          s3 = track l raw s2;
          (refund, s4) = shed_loop cap s3
      in (lineCost raw - refund, s4))"

datatype ingest_action = Ignore | Reply string | Accept ircLine

text \<open>The part of \<^verbatim>\<open>ingest\<close> before the lock: unparsable lines, PING and the probe's PONG.\<close>

definition classify :: "string \<Rightarrow> ingest_action" where
  "classify raw =
     (case parseLine raw of
        None \<Rightarrow> Ignore
      | Some l \<Rightarrow>
          if length (trim_space raw) < 2 then Ignore
          else if l_cmd l = ''PING'' then Reply (''PONG :'' @ last_param l)
          else if l_cmd l = ''PONG'' \<and> last_param l = probeToken then Ignore
          else Accept l)"

section \<open>Claims: attach, detach, pull, ack, shutdown\<close>

definition reusable :: "string \<Rightarrow> session \<Rightarrow> bool" where
  "reusable fp s \<longleftrightarrow>
     s_state s = StateOpen \<and> s_registered s \<and> 0 \<le> s_welcomeIdx s \<and> s_fp s = fp"

text \<open>The replay: the burst with its 001 addressed to the current nick, then the cap changes.\<close>

definition replay_of :: "session \<Rightarrow> string list" where
  "replay_of s =
     map (\<lambda>(i, line). if int i = s_welcomeIdx s \<and> s_nick s \<noteq> [] then rewriteTarget line (s_nick s)
                      else line)
       (enumerate 0 (s_burst s)) @ s_capLog s"

definition attachLocked :: "int \<Rightarrow> nat \<Rightarrow> string \<Rightarrow> session \<Rightarrow> session" where
  "attachLocked now l handle s =
     (let detachedMs = (case s_detachedAt s of Some t \<Rightarrow> now - t | None \<Rightarrow> 0);
          hs = s_handles s @ [handle];
          hs' = (if length hs > recentHandles then drop (length hs - recentHandles) hs else hs);
          s = s\<lparr>s_link := Some l, s_handle := handle, s_handles := hs', s_detachedAt := None,
                s_sent := max (s_acked s) (s_burstCovered s)\<rparr>
      in s\<lparr>s_ctrl := [(zero_frame OpAttached)\<lparr>f_handle := handle, f_replay := replay_of s,
              f_nick := s_nick s, f_channels := s_channels s, f_unattended := s_unattended s,
              f_detachedMs := detachedMs, f_backlog := countAfter (s_sent s) (s_buf s),
              f_lost := s_lost s\<rparr>],
           s_lost := 0, s_unattended := False\<rparr>)"

definition detachLocked :: "int \<Rightarrow> nat \<Rightarrow> session \<Rightarrow> session \<times> bool" where
  "detachLocked now l s =
     (if s_link s \<noteq> Some l then (s, False)
      else (s\<lparr>s_link := None, s_detachedAt := Some now, s_ctrl := []\<rparr>, True))"

definition line_frame :: "string \<Rightarrow> bufferedLine \<Rightarrow> frame" where
  "line_frame handle bl = SetLine (bl_line bl)
     ((zero_frame OpLine)\<lparr>f_handle := handle, f_seq := bl_seq bl, f_at := bl_at bl\<rparr>)"

record pull_result =
  p_out :: "frame list"
  p_done :: bool
  p_stale :: bool

definition pull_lines :: "nat \<Rightarrow> session \<Rightarrow> frame list \<times> session" where
  "pull_lines limit s =
     (if s_state s \<noteq> StateDialing then
        (let ls = after (s_sent s) limit (s_buf s);
             sent = (if ls = [] then s_sent s else bl_seq (last ls))
         in (map (line_frame (s_handle s)) ls,
             s\<lparr>s_sent := sent, s_everSent := max (s_everSent s) sent\<rparr>))
      else ([], s))"

definition pull :: "nat \<Rightarrow> nat \<Rightarrow> session \<Rightarrow> pull_result \<times> session" where
  "pull l limit s =
     (if s_link s \<noteq> Some l then (\<lparr>p_out = [], p_done = False, p_stale = True\<rparr>, s)
      else
        (let (fs, s') = pull_lines limit (s\<lparr>s_ctrl := []\<rparr>);
             out = s_ctrl s @ fs
         in if s_state s' = StateClosed \<and> \<not> s_finished s'
               \<and> countAfter (s_sent s') (s_buf s') = 0
            then (\<lparr>p_out = out @ [(zero_frame OpClosed)\<lparr>f_handle := s_handle s',
                       f_error := s_closeErr s'\<rparr>], p_done = True, p_stale = False\<rparr>,
                  s'\<lparr>s_finished := True\<rparr>)
            else (\<lparr>p_out = out, p_done = False, p_stale = False\<rparr>, s')))"

definition ack :: "string \<Rightarrow> nat \<Rightarrow> session \<Rightarrow> int \<times> session" where
  "ack handle seq s =
     (if handle \<notin> set (s_handles s) \<or> seq \<le> s_acked s \<or> s_seq s < seq then (0, s)
      else (let (freed, b) = ackThrough seq (s_buf s) in (freed, s\<lparr>s_buf := b, s_acked := seq\<rparr>)))"

text \<open>\<^verbatim>\<open>shutdown\<close>: None when the session was closed already, else the link to tell.\<close>

definition shutdown :: "string \<Rightarrow> session \<Rightarrow> (nat option) option \<times> session" where
  "shutdown reason s =
     (if s_state s = StateClosed then (None, s)
      else (Some (s_link s),
            s\<lparr>s_state := StateClosed, s_closeErr := reason, s_stopped := True\<rparr>))"

lemmas session_ops [session_defs] = dial_done_def enqueueWrite_def addChannel_def removeChannel_def
  track_burst_def track_command_def track_def dropOldestLocked_def shedOldest_def accept_line_def
  attachLocked_def detachLocked_def pull_lines_def pull_def ack_def shutdown_def

end
