(* ===== verification/Engine_Delivery.thy ===== *)
theory Engine_Delivery
  imports Engine_Session
begin

text \<open>
  The session's invariants and its delivery guarantee. \<open>buf_inv\<close> is about the backlog and the
  watermarks, \<open>replay_inv\<close> about the recorded burst and the claim handles; every operation of
  \<open>Engine_Session\<close> keeps both. The step relation \<open>sess_step\<close> runs a session against an abstract log of
  every line it ever accepted, and the delivery lemmas relate the frames a link is handed to that log.
\<close>

declare upt_Suc [simp del]

section \<open>The backlog invariant\<close>

text \<open>The number of the newest line that is no longer buffered.\<close>

definition low_mark :: "session \<Rightarrow> nat" where
  "low_mark s = s_seq s - buf_len (s_buf s)"

definition buf_inv :: "session \<Rightarrow> bool" where
  "buf_inv s \<longleftrightarrow> lb_inv (s_buf s)
     \<and> map bl_seq (lb_lines (s_buf s)) = [Suc (low_mark s)..<Suc (s_seq s)]
     \<and> s_acked s \<le> low_mark s
     \<and> s_sent s \<le> s_seq s \<and> s_everSent s \<le> s_seq s \<and> s_burstCovered s \<le> s_seq s
     \<and> (s_state s = StateDialing \<longrightarrow> s_seq s = 0)"

lemma buf_inv_len: "buf_inv s \<Longrightarrow> buf_len (s_buf s) \<le> s_seq s"
proof -
  assume "buf_inv s"
  then have "length (lb_lines (s_buf s)) = length [Suc (low_mark s)..<Suc (s_seq s)]"
    by (metis buf_inv_def length_map)
  then show ?thesis by (simp add: buf_len_def low_mark_def)
qed

lemma buf_inv_nth:
  assumes "buf_inv s" and "i < buf_len (s_buf s)"
  shows "bl_seq (lb_lines (s_buf s) ! i) = Suc (low_mark s + i)"
proof -
  have "map bl_seq (lb_lines (s_buf s)) ! i = [Suc (low_mark s)..<Suc (s_seq s)] ! i"
    using assms by (simp add: buf_inv_def)
  then show ?thesis using assms buf_inv_len[OF assms(1)]
    by (simp add: buf_len_def low_mark_def del: upt_Suc)
qed

text \<open>What lies past a watermark: the lines from \<open>max seq (low_mark s)\<close> on.\<close>

lemma lines_after:
  assumes "buf_inv s"
  shows "filter (\<lambda>l. n < bl_seq l) (lb_lines (s_buf s)) = drop (n - low_mark s) (lb_lines (s_buf s))"
proof (rule nth_equalityI)
  let ?ls = "lb_lines (s_buf s)"
  have seqs: "map bl_seq ?ls = [Suc (low_mark s)..<Suc (s_seq s)]" using assms by (simp add: buf_inv_def)
  have "?ls = take (n - low_mark s) ?ls @ drop (n - low_mark s) ?ls" by simp
  moreover have "\<forall>l\<in>set (take (n - low_mark s) ?ls). \<not> n < bl_seq l"
    using buf_inv_nth[OF assms] by (auto simp: in_set_conv_nth buf_len_def)
  moreover have "\<forall>l\<in>set (drop (n - low_mark s) ?ls). n < bl_seq l"
    using buf_inv_nth[OF assms] by (auto simp: in_set_conv_nth buf_len_def)
  ultimately have "filter (\<lambda>l. n < bl_seq l) ?ls = drop (n - low_mark s) ?ls"
    by (metis (mono_tags, lifting) append_Nil filter_True filter_append filter_False)
  then show "length (filter (\<lambda>l. n < bl_seq l) ?ls) = length (drop (n - low_mark s) ?ls)"
    and "\<And>i. i < length (filter (\<lambda>l. n < bl_seq l) ?ls) \<Longrightarrow>
      filter (\<lambda>l. n < bl_seq l) ?ls ! i = drop (n - low_mark s) ?ls ! i" by simp_all
qed

lemma buf_invI_drop:
  assumes "buf_inv s" and "lb_inv b" and "lb_lines b = drop k (lb_lines (s_buf s))"
    and "k \<le> buf_len (s_buf s)" and "s_acked s' \<le> low_mark s + k"
    and "s_buf s' = b" "s_seq s' = s_seq s" "s_sent s' \<le> s_seq s" "s_everSent s' \<le> s_seq s"
      "s_burstCovered s' \<le> s_seq s" "s_state s' = StateDialing \<longrightarrow> s_seq s = 0"
  shows "buf_inv s'" and "low_mark s' = low_mark s + k"
proof -
  have len: "buf_len b = buf_len (s_buf s) - k" using assms(3) by (simp add: buf_len_def)
  then show lm: "low_mark s' = low_mark s + k"
    using assms(4,6,7) buf_inv_len[OF assms(1)] by (simp add: low_mark_def)
  have "map bl_seq (lb_lines b) = drop k [Suc (low_mark s)..<Suc (s_seq s)]"
    using assms(1,3) by (metis buf_inv_def drop_map)
  then have "map bl_seq (lb_lines b) = [Suc (low_mark s')..<Suc (s_seq s')]"
    using lm assms(7) by (simp add: drop_upt del: upt_Suc)
  then show "buf_inv s'" using assms lm by (simp add: buf_inv_def del: upt_Suc)
qed

section \<open>Shedding\<close>

text \<open>How many of the lines were never written to any link.\<close>

definition unsent :: "nat \<Rightarrow> bufferedLine list \<Rightarrow> nat" where
  "unsent ever ls = length (filter (\<lambda>l. ever < bl_seq l) ls)"

lemma unsent_simps [simp]:
  "unsent e [] = 0" "unsent e (l # ls) = (if e < bl_seq l then 1 else 0) + unsent e ls"
  "unsent e (xs @ ys) = unsent e xs + unsent e ys"
  by (simp_all add: unsent_def)

lemma dropOldestLocked_spec:
  assumes "lb_inv (s_buf s)" and "lb_lines (s_buf s) = l # ls"
  shows "dropOldestLocked s = (lineCost (bl_line l),
     s\<lparr>s_buf := \<lparr>lb_lines = ls, lb_bytes = freed_cost ls\<rparr>,
       s_lost := s_lost s + unsent (s_everSent s) [l]\<rparr>)"
  using assms by (auto simp: dropOldestLocked_def dropOldest_def lb_inv_def)

lemma shed_loop_stop:
  "\<not> (cap < lb_bytes (s_buf s) \<and> 1 < buf_len (s_buf s)) \<Longrightarrow> shed_loop cap s = (0, s)"
  by (subst shed_loop.simps) (simp only: if_False)

lemma lb_inv_tl: "lb_inv b \<Longrightarrow> lb_lines b = l # ls \<Longrightarrow> lb_inv \<lparr>lb_lines = ls, lb_bytes = freed_cost ls\<rparr>"
  by (simp add: lb_inv_def)

text \<open>The loop sheds a prefix: the newest line always survives, and every lost line is counted.\<close>

lemma shed_loop_spec:
  assumes "lb_inv (s_buf s)"
  shows "\<exists>k. k \<le> buf_len (s_buf s) - 1
     \<and> shed_loop cap s = (freed_cost (take k (lb_lines (s_buf s))),
        s\<lparr>s_buf := \<lparr>lb_lines = drop k (lb_lines (s_buf s)),
                    lb_bytes = freed_cost (drop k (lb_lines (s_buf s)))\<rparr>,
          s_lost := s_lost s + unsent (s_everSent s) (take k (lb_lines (s_buf s)))\<rparr>)
     \<and> (freed_cost (drop k (lb_lines (s_buf s))) \<le> cap \<or> buf_len (s_buf s) - k \<le> 1)"
  using assms
proof (induction "buf_len (s_buf s)" arbitrary: s rule: less_induct)
  case less
  let ?ls = "lb_lines (s_buf s)"
  show ?case
  proof (cases "cap < lb_bytes (s_buf s) \<and> 1 < buf_len (s_buf s)")
    case True
    then obtain l ls where ls: "?ls = l # ls" "ls \<noteq> []"
      by (cases ?ls) (auto simp: buf_len_def)
    define s' where "s' = snd (dropOldestLocked s)"
    have drop: "dropOldestLocked s = (lineCost (bl_line l), s')"
      and s': "s' = s\<lparr>s_buf := \<lparr>lb_lines = ls, lb_bytes = freed_cost ls\<rparr>,
         s_lost := s_lost s + unsent (s_everSent s) [l]\<rparr>"
      using dropOldestLocked_spec[OF less.prems ls(1)] by (simp_all add: s'_def)
    have "buf_len (s_buf s') < buf_len (s_buf s)" using ls by (simp add: s' buf_len_def)
    moreover have "lb_inv (s_buf s')" using lb_inv_tl[OF less.prems ls(1)] by (simp add: s')
    ultimately obtain k where k: "k \<le> buf_len (s_buf s') - 1"
      "shed_loop cap s' = (freed_cost (take k ls), s'\<lparr>s_buf := \<lparr>lb_lines = drop k ls,
          lb_bytes = freed_cost (drop k ls)\<rparr>, s_lost := s_lost s' + unsent (s_everSent s') (take k ls)\<rparr>)"
      "freed_cost (drop k ls) \<le> cap \<or> buf_len (s_buf s') - k \<le> 1"
      using less.hyps[of s'] by (auto simp: s')
    show ?thesis
    proof (intro exI[of _ "Suc k"] conjI)
      show "Suc k \<le> buf_len (s_buf s) - 1"
        using k(1) ls by (simp add: s' buf_len_def Suc_le_eq) (cases ls; simp)
      show "shed_loop cap s = (freed_cost (take (Suc k) ?ls),
         s\<lparr>s_buf := \<lparr>lb_lines = drop (Suc k) ?ls, lb_bytes = freed_cost (drop (Suc k) ?ls)\<rparr>,
           s_lost := s_lost s + unsent (s_everSent s) (take (Suc k) ?ls)\<rparr>)"
        using True drop k(2) ls by (subst shed_loop.simps) (simp add: s')
      show "freed_cost (drop (Suc k) ?ls) \<le> cap \<or> buf_len (s_buf s) - Suc k \<le> 1"
        using k(3) ls by (auto simp: s' buf_len_def)
    qed
  next
    case False
    have "\<lparr>lb_lines = ?ls, lb_bytes = freed_cost ?ls\<rparr> = s_buf s"
      using less.prems by (simp add: lb_inv_def)
    then have "shed_loop cap s = (freed_cost (take 0 ?ls),
        s\<lparr>s_buf := \<lparr>lb_lines = drop 0 ?ls, lb_bytes = freed_cost (drop 0 ?ls)\<rparr>,
          s_lost := s_lost s + unsent (s_everSent s) (take 0 ?ls)\<rparr>)"
      using shed_loop_stop[OF False] by simp
    moreover have "freed_cost (drop 0 ?ls) \<le> cap \<or> buf_len (s_buf s) - 0 \<le> 1"
      using False less.prems by (auto simp: lb_inv_def)
    ultimately show ?thesis by (intro exI[of _ 0]) auto
  qed
qed

section \<open>What tracking leaves alone\<close>

text \<open>The fields no part of \<^verbatim>\<open>track\<close> writes, and those only its burst part writes.\<close>

definition fixed_view where
  "fixed_view s = ((s_buf s, s_seq s, s_acked s, s_sent s, s_everSent s, s_lost s, s_state s),
     (s_link s, s_handle s, s_handles s, s_ctrl s, s_finished s, s_detachedAt s),
     (s_key s, s_instance s, s_id s, s_fp s, s_addr s, s_created s, s_stopped s, s_writeQ s, s_conn s,
      s_closeErr s))"

definition burst_view where
  "burst_view s = (s_burst s, s_burstBytes s, s_burstOpen s, s_burstCovered s, s_welcomeIdx s,
     s_capLog s, s_capLogBytes s)"

lemmas views = fixed_view_def burst_view_def

lemma channel_ops_view [simp]:
  "fixed_view (addChannel ch s) = fixed_view s" "burst_view (addChannel ch s) = burst_view s"
  "fixed_view (removeChannel ch s) = fixed_view s" "burst_view (removeChannel ch s) = burst_view s"
  by (simp_all add: views addChannel_def removeChannel_def)

lemma fold_channel_view:
  "fixed_view (List.fold addChannel chs s) = fixed_view s"
  "burst_view (List.fold addChannel chs s) = burst_view s"
  "fixed_view (List.fold removeChannel chs s) = fixed_view s"
  "burst_view (List.fold removeChannel chs s) = burst_view s"
  by (induction chs arbitrary: s) simp_all

lemma track_command_fixed: "fixed_view (track_command l s) = fixed_view s"
  unfolding track_command_def Let_def
  by (simp only: if_distrib[of fixed_view] fold_channel_view channel_ops_view)
     (simp add: views)

lemma track_command_burst: "burst_view (track_command l s) = burst_view s"
  unfolding track_command_def Let_def
  by (simp only: if_distrib[of burst_view] fold_channel_view channel_ops_view)
     (simp add: views)

lemma track_burst_fixed: "fixed_view (track_burst l raw s) = fixed_view s"
  by (simp add: track_burst_def Let_def views)

lemma track_fixed: "fixed_view (track l raw s) = fixed_view s"
  by (simp add: track_def track_command_fixed track_burst_fixed)

lemma track_frame [simp]:
  "s_buf (track l raw s) = s_buf s" "s_seq (track l raw s) = s_seq s"
  "s_acked (track l raw s) = s_acked s" "s_sent (track l raw s) = s_sent s"
  "s_everSent (track l raw s) = s_everSent s" "s_lost (track l raw s) = s_lost s"
  "s_state (track l raw s) = s_state s" "s_link (track l raw s) = s_link s"
  "s_handle (track l raw s) = s_handle s" "s_handles (track l raw s) = s_handles s"
  "s_ctrl (track l raw s) = s_ctrl s" "s_finished (track l raw s) = s_finished s"
  "s_key (track l raw s) = s_key s" "s_instance (track l raw s) = s_instance s"
  "s_id (track l raw s) = s_id s" "s_fp (track l raw s) = s_fp s"
  "s_stopped (track l raw s) = s_stopped s" "s_writeQ (track l raw s) = s_writeQ s"
  "s_created (track l raw s) = s_created s" "s_detachedAt (track l raw s) = s_detachedAt s"
  using track_fixed[of l raw s] by (simp_all add: fixed_view_def)

lemma track_burstCovered [simp]:
  "s_burstCovered (track l raw s) = (if s_burstOpen s then s_seq s else s_burstCovered s)"
proof -
  have "s_burstCovered (track l raw s) = s_burstCovered (track_burst l raw s)"
    using track_command_burst[of l "track_burst l raw s"] by (simp add: burst_view_def track_def)
  then show ?thesis by (simp add: track_burst_def Let_def)
qed

section \<open>Accepting a line\<close>

lemma push_inv:
  assumes "buf_inv s"
  shows "lb_inv (push \<lparr>bl_seq = Suc (s_seq s), bl_at = now, bl_line = raw\<rparr> (s_buf s))"
proof (rule push_inv_model)
  show "lb_inv (s_buf s)" using assms by (simp add: buf_inv_def)
  have "set (map bl_seq (lb_lines (s_buf s))) = set [Suc (low_mark s)..<Suc (s_seq s)]"
    using assms by (simp add: buf_inv_def)
  then show "\<forall>x\<in>set (lb_lines (s_buf s)).
      bl_seq x < bl_seq \<lparr>bl_seq = Suc (s_seq s), bl_at = now, bl_line = raw\<rparr>"
    by auto
qed

text \<open>The session after the numbering and buffering steps of \<^verbatim>\<open>ingest\<close>, before it tracks.\<close>

definition numbered_session :: "int \<Rightarrow> string \<Rightarrow> session \<Rightarrow> session" where
  "numbered_session now raw s =
     s\<lparr>s_seq := Suc (s_seq s),
       s_buf := push \<lparr>bl_seq = Suc (s_seq s), bl_at = now, bl_line = raw\<rparr> (s_buf s)\<rparr>"

lemma accept_line_shed:
  "accept_line cap now l raw s =
     (let (refund, s4) = shed_loop cap (track l raw (numbered_session now raw s))
      in (lineCost raw - refund, s4))"
  by (simp add: accept_line_def numbered_session_def Let_def)

lemma accept_line_spec:
  fixes s :: session and now :: int and raw :: string
  assumes "buf_inv s"
  defines "nl \<equiv> \<lparr>bl_seq = Suc (s_seq s), bl_at = now, bl_line = raw\<rparr>"
  obtains k where "k \<le> buf_len (s_buf s)"
    and "snd (accept_line cap now l raw s) = (track l raw (numbered_session now raw s))
      \<lparr>s_buf := \<lparr>lb_lines = drop k (lb_lines (s_buf s) @ [nl]),
                 lb_bytes = freed_cost (drop k (lb_lines (s_buf s) @ [nl]))\<rparr>,
       s_lost := s_lost s + unsent (s_everSent s) (take k (lb_lines (s_buf s)))\<rparr>"
    and "fst (accept_line cap now l raw s)
      = lb_bytes (s_buf (snd (accept_line cap now l raw s))) - lb_bytes (s_buf s)"
    and "lb_bytes (s_buf (snd (accept_line cap now l raw s))) \<le> cap
      \<or> buf_len (s_buf (snd (accept_line cap now l raw s))) = 1"
proof -
  define t where "t = track l raw (numbered_session now raw s)"
  have t_lines: "lb_lines (s_buf t) = lb_lines (s_buf s) @ [nl]"
    by (simp add: t_def numbered_session_def push_def nl_def)
  have t_len: "buf_len (s_buf t) = Suc (buf_len (s_buf s))" by (simp add: buf_len_def t_lines)
  have "lb_inv (s_buf t)"
    using push_inv[OF assms(1), of now raw] by (simp add: t_def numbered_session_def)
  from shed_loop_spec[OF this, of cap] obtain k where k: "k \<le> buf_len (s_buf t) - 1"
    "shed_loop cap t = (freed_cost (take k (lb_lines (s_buf t))),
        t\<lparr>s_buf := \<lparr>lb_lines = drop k (lb_lines (s_buf t)),
                    lb_bytes = freed_cost (drop k (lb_lines (s_buf t)))\<rparr>,
          s_lost := s_lost t + unsent (s_everSent t) (take k (lb_lines (s_buf t)))\<rparr>)"
    "freed_cost (drop k (lb_lines (s_buf t))) \<le> cap \<or> buf_len (s_buf t) - k \<le> 1"
    by blast
  have kle: "k \<le> buf_len (s_buf s)" using k(1) t_len by simp
  have bytes: "lb_bytes (s_buf s) = freed_cost (lb_lines (s_buf s))"
    using assms(1) by (simp add: buf_inv_def lb_inv_def)
  have split: "freed_cost (lb_lines (s_buf s)) =
      freed_cost (take k (lb_lines (s_buf s))) + freed_cost (drop k (lb_lines (s_buf s)))"
    by (metis append_take_drop_id freed_cost_append)
  have res: "accept_line cap now l raw s = (lineCost raw - freed_cost (take k (lb_lines (s_buf s))),
      t\<lparr>s_buf := \<lparr>lb_lines = drop k (lb_lines (s_buf s) @ [nl]),
                 lb_bytes = freed_cost (drop k (lb_lines (s_buf s) @ [nl]))\<rparr>,
       s_lost := s_lost s + unsent (s_everSent s) (take k (lb_lines (s_buf s)))\<rparr>)"
  proof -
    have "accept_line cap now l raw s = (let (r, s4) = shed_loop cap t in (lineCost raw - r, s4))"
      by (simp add: accept_line_shed t_def)
    moreover have "s_lost t = s_lost s" "s_everSent t = s_everSent s"
      by (simp_all add: t_def numbered_session_def)
    moreover have "take k (lb_lines (s_buf s) @ [nl]) = take k (lb_lines (s_buf s))"
      using kle by (simp add: buf_len_def)
    ultimately show ?thesis by (simp only: k(2) t_lines) simp
  qed
  show ?thesis
  proof (rule that[OF kle])
    show "fst (accept_line cap now l raw s)
      = lb_bytes (s_buf (snd (accept_line cap now l raw s))) - lb_bytes (s_buf s)"
      using res kle bytes split by (simp add: nl_def buf_len_def)
    show "lb_bytes (s_buf (snd (accept_line cap now l raw s))) \<le> cap
      \<or> buf_len (s_buf (snd (accept_line cap now l raw s))) = 1"
      using res k(3) kle t_len by (auto simp: t_lines buf_len_def)
  qed (use res in \<open>simp add: t_def\<close>)
qed

lemma accept_line_inv:
  assumes "buf_inv s" and "s_state s = StateOpen"
  shows "buf_inv (snd (accept_line cap now l raw s))"
    and "s_seq (snd (accept_line cap now l raw s)) = Suc (s_seq s)"
    and "low_mark s \<le> low_mark (snd (accept_line cap now l raw s))"
proof -
  let ?s' = "snd (accept_line cap now l raw s)"
  let ?nl = "\<lparr>bl_seq = Suc (s_seq s), bl_at = now, bl_line = raw\<rparr>"
  from accept_line_spec[OF assms(1), of cap now l raw] obtain k where k: "k \<le> buf_len (s_buf s)"
    and s': "?s' = (track l raw (numbered_session now raw s))
      \<lparr>s_buf := \<lparr>lb_lines = drop k (lb_lines (s_buf s) @ [?nl]),
                 lb_bytes = freed_cost (drop k (lb_lines (s_buf s) @ [?nl]))\<rparr>,
       s_lost := s_lost s + unsent (s_everSent s) (take k (lb_lines (s_buf s)))\<rparr>" by blast
  show seq: "s_seq ?s' = Suc (s_seq s)" by (simp add: s' numbered_session_def)
  have low: "low_mark ?s' = low_mark s + k"
    using k buf_inv_len[OF assms(1)] by (simp add: low_mark_def seq) (simp add: s' buf_len_def)
  then show "low_mark s \<le> low_mark ?s'" by simp
  have "map bl_seq (lb_lines (s_buf s) @ [?nl]) = [Suc (low_mark s)..<Suc (Suc (s_seq s))]"
    using assms(1) by (simp add: buf_inv_def upt_Suc low_mark_def)
  from arg_cong[OF this, of "drop k"]
  have seqs: "map bl_seq (lb_lines (s_buf ?s')) = [Suc (low_mark ?s')..<Suc (s_seq ?s')]"
    unfolding low seq by (simp only: s' drop_map drop_upt) simp
  then have "lb_inv (s_buf ?s')"
    by (simp add: lb_inv_def) (simp add: s')
  with seqs show "buf_inv ?s'" using assms low unfolding buf_inv_def
    by (auto simp: seq) (auto simp: s' numbered_session_def)
qed

section \<open>The other operations keep the backlog invariant\<close>

lemma newSession_inv [simp]: "buf_inv (newSession now l inst f key)"
  by (simp add: buf_inv_def newSession_def low_mark_def lb_inv_def empty_buffer_def buf_len_def)

lemma dial_done_inv: "buf_inv s \<Longrightarrow> buf_inv (dial_done err s)"
  by (auto simp: dial_done_def buf_inv_def low_mark_def split: option.splits)

lemma enqueueWrite_inv: "buf_inv s \<Longrightarrow> buf_inv (fst (enqueueWrite line s))"
  by (auto simp: enqueueWrite_def buf_inv_def low_mark_def)

lemma attachLocked_inv: "buf_inv s \<Longrightarrow> buf_inv (attachLocked now l h s)"
  by (auto simp: attachLocked_def buf_inv_def Let_def low_mark_def)

lemma detachLocked_inv: "buf_inv s \<Longrightarrow> buf_inv (fst (detachLocked now l s))"
  by (auto simp: detachLocked_def buf_inv_def low_mark_def)

lemma shutdown_inv: "buf_inv s \<Longrightarrow> buf_inv (snd (shutdown reason s))"
  by (auto simp: shutdown_def buf_inv_def low_mark_def)

lemma ack_inv: "buf_inv s \<Longrightarrow> buf_inv (snd (ack h n s))"
proof (cases "h \<notin> set (s_handles s) \<or> n \<le> s_acked s \<or> s_seq s < n")
  case False
  assume inv: "buf_inv s"
  then have lb: "lb_inv (s_buf s)" by (simp add: buf_inv_def)
  let ?k = "min (n - low_mark s) (buf_len (s_buf s))"
  have "snd (ack h n s) = s\<lparr>s_buf := snd (ackThrough n (s_buf s)), s_acked := n\<rparr>"
    using False by (auto simp: ack_def split: prod.splits)
  moreover have "lb_lines (snd (ackThrough n (s_buf s))) = drop ?k (lb_lines (s_buf s))"
    using lb.ack_lines[OF lb] lines_after[OF inv] by (simp add: buf_len_def min_def)
  moreover have "n \<le> low_mark s + ?k"
    using False buf_inv_len[OF inv] by (auto simp: low_mark_def)
  ultimately show ?thesis
    using buf_invI_drop(1)[OF inv lb.ack_inv[OF lb, of n], of ?k "snd (ack h n s)"] inv
    by (auto simp: buf_inv_def)
qed (simp add: ack_def)

lemma dropOldestLocked_inv:
  assumes "buf_inv s" and "lb_lines (s_buf s) \<noteq> []"
  shows "buf_inv (snd (dropOldestLocked s))"
proof -
  have lb: "lb_inv (s_buf s)" using assms by (simp add: buf_inv_def)
  obtain l ls where ls: "lb_lines (s_buf s) = l # ls" using assms(2) by (cases "lb_lines (s_buf s)") auto
  have d: "snd (dropOldestLocked s) = s\<lparr>s_buf := \<lparr>lb_lines = ls, lb_bytes = freed_cost ls\<rparr>,
       s_lost := s_lost s + unsent (s_everSent s) [l]\<rparr>"
    using dropOldestLocked_spec[OF lb ls] by simp
  show ?thesis
    by (rule buf_invI_drop(1)[OF assms(1) lb_inv_tl[OF lb ls], of 1])
      (use assms(1) ls d in \<open>auto simp: buf_inv_def buf_len_def\<close>)
qed

lemma clear_inv: "buf_inv s \<Longrightarrow> buf_inv (s\<lparr>s_buf := snd (clear_buffer (s_buf s))\<rparr>)"
  by (auto simp: buf_inv_def low_mark_def clear_buffer_def lb_inv_def buf_len_def)

section \<open>Pulling\<close>

text \<open>The position delivery resumes from: past what was sent and past what is gone.\<close>

definition cursor :: "session \<Rightarrow> nat" where
  "cursor s = max (s_sent s) (low_mark s)"

lemma cursor_le: "buf_inv s \<Longrightarrow> cursor s \<le> s_seq s"
  by (simp add: cursor_def buf_inv_def low_mark_def)

text \<open>The buffered lines still owed to the link.\<close>

definition owed :: "session \<Rightarrow> bufferedLine list" where
  "owed s = drop (s_sent s - low_mark s) (lb_lines (s_buf s))"

lemma owed_filter: "buf_inv s \<Longrightarrow> filter (\<lambda>l. s_sent s < bl_seq l) (lb_lines (s_buf s)) = owed s"
  by (simp add: owed_def lines_after)

lemma owed_seqs: "buf_inv s \<Longrightarrow> map bl_seq (owed s) = [Suc (cursor s)..<Suc (s_seq s)]"
proof -
  assume inv: "buf_inv s"
  have "map bl_seq (owed s) = drop (s_sent s - low_mark s) [Suc (low_mark s)..<Suc (s_seq s)]"
    using inv by (simp add: owed_def buf_inv_def flip: drop_map)
  then show ?thesis by (simp add: drop_upt cursor_def max_def)
qed

lemma owed_length: "buf_inv s \<Longrightarrow> length (owed s) = s_seq s - cursor s"
  using owed_seqs by (metis diff_Suc_Suc length_map length_upt)

lemma countAfter_owed: "buf_inv s \<Longrightarrow> countAfter (s_sent s) (s_buf s) = length (owed s)"
  using lb.count_lines[of "s_buf s" "s_sent s"] owed_filter by (simp add: buf_inv_def)

lemma after_owed: "buf_inv s \<Longrightarrow> after (s_sent s) limit (s_buf s) = take limit (owed s)"
  using lb.after_lines[of "s_buf s" "s_sent s" limit] owed_filter by (simp add: buf_inv_def)

text \<open>How many lines a batch takes, and the watermark it leaves.\<close>

definition batch :: "nat \<Rightarrow> session \<Rightarrow> nat" where
  "batch limit s = min limit (s_seq s - cursor s)"

definition next_sent :: "nat \<Rightarrow> session \<Rightarrow> nat" where
  "next_sent limit s = (if batch limit s = 0 then s_sent s else cursor s + batch limit s)"

lemma ctrl_frame [simp]:
  "cursor (s\<lparr>s_ctrl := c\<rparr>) = cursor s" "owed (s\<lparr>s_ctrl := c\<rparr>) = owed s"
  "batch limit (s\<lparr>s_ctrl := c\<rparr>) = batch limit s" "low_mark (s\<lparr>s_ctrl := c\<rparr>) = low_mark s"
  "buf_inv (s\<lparr>s_ctrl := c\<rparr>) = buf_inv s" "buf_inv (s\<lparr>s_finished := b\<rparr>) = buf_inv s"
  by (simp_all add: cursor_def owed_def low_mark_def batch_def buf_inv_def)

lemma ctrl_next_sent [simp]: "next_sent limit (s\<lparr>s_ctrl := c\<rparr>) = next_sent limit s"
  by (simp add: next_sent_def)

lemma batch_length: "buf_inv s \<Longrightarrow> length (take limit (owed s)) = batch limit s"
  by (simp add: owed_length batch_def min.commute)

lemma batch_seqs:
  assumes "buf_inv s"
  shows "map bl_seq (take limit (owed s)) = [Suc (cursor s)..<Suc (cursor s + batch limit s)]"
proof -
  have "map bl_seq (take limit (owed s)) = take limit [Suc (cursor s)..<Suc (s_seq s)]"
    by (simp add: owed_seqs[OF assms] flip: take_map)
  then show ?thesis using cursor_le[OF assms]
    by (auto simp: take_upt batch_def min_def)
qed

lemma next_sent_le: "buf_inv s \<Longrightarrow> s_sent s \<le> next_sent limit s \<and> next_sent limit s \<le> s_seq s"
  using cursor_le[of s] by (auto simp: next_sent_def batch_def cursor_def buf_inv_def)

lemma next_sent_last:
  assumes "buf_inv s"
  shows "next_sent limit s
    = (if take limit (owed s) = [] then s_sent s else bl_seq (last (take limit (owed s))))"
proof (cases "batch limit s = 0")
  case True
  then have "take limit (owed s) = []" using batch_length[OF assms, of limit] by (metis length_0_conv)
  with True show ?thesis by (simp add: next_sent_def)
next
  case False
  then have ne: "take limit (owed s) \<noteq> []" using batch_length[OF assms, of limit] by force
  have "bl_seq (last (take limit (owed s))) = last (map bl_seq (take limit (owed s)))"
    by (rule last_map[OF ne, symmetric])
  with False ne show ?thesis by (simp add: batch_seqs[OF assms] next_sent_def upt_Suc)
qed

lemma next_cursor: "max (next_sent limit s) (low_mark s) = cursor s + batch limit s"
  by (cases "batch limit s = 0") (simp_all add: next_sent_def cursor_def)

lemma batch_le: "buf_inv s \<Longrightarrow> cursor s + batch limit s \<le> s_seq s"
  using cursor_le[of s] by (simp add: batch_def)

lemma pull_lines_spec:
  assumes "buf_inv s" and "s_state s \<noteq> StateDialing"
  shows "pull_lines limit s = (map (line_frame (s_handle s)) (take limit (owed s)),
     s\<lparr>s_sent := next_sent limit s, s_everSent := max (s_everSent s) (next_sent limit s)\<rparr>)"
  using assms(2) by (simp add: pull_lines_def after_owed[OF assms(1)] next_sent_last[OF assms(1)]
      Let_def)

lemma pull_lines_inv:
  assumes "buf_inv s"
  shows "buf_inv (snd (pull_lines limit s))"
proof (cases "s_state s = StateDialing")
  case False
  then show ?thesis using assms next_sent_le[OF assms, of limit]
    unfolding pull_lines_spec[OF assms False] by (auto simp: buf_inv_def low_mark_def)
qed (use assms in \<open>simp add: pull_lines_def\<close>)

lemma pull_inv:
  assumes "buf_inv s"
  shows "buf_inv (snd (pull l limit s))"
proof -
  obtain fs s' where pl: "pull_lines limit (s\<lparr>s_ctrl := []\<rparr>) = (fs, s')" by force
  then have "buf_inv s'" using pull_lines_inv[of "s\<lparr>s_ctrl := []\<rparr>" limit] assms by simp
  then show ?thesis using assms by (simp add: pull_def pl Let_def)
qed

text \<open>
  One call of \<open>pull\<close> by the holder of the claim: the queued control frames, then a batch of what is
  owed; the closed frame once nothing is owed any more.
\<close>

definition closes :: "nat \<Rightarrow> session \<Rightarrow> bool" where
  "closes limit s \<longleftrightarrow>
     s_state s = StateClosed \<and> \<not> s_finished s \<and> cursor s + batch limit s = s_seq s"

definition closed_frame :: "session \<Rightarrow> frame" where
  "closed_frame s = (zero_frame OpClosed)\<lparr>f_handle := s_handle s, f_error := s_closeErr s\<rparr>"

lemma pull_spec:
  assumes "buf_inv s" and "s_link s = Some l" and "s_state s \<noteq> StateDialing"
  shows "p_out (fst (pull l limit s)) = s_ctrl s @ map (line_frame (s_handle s)) (take limit (owed s))
      @ (if closes limit s then [closed_frame s] else [])"
    and "p_done (fst (pull l limit s)) = closes limit s" and "\<not> p_stale (fst (pull l limit s))"
    and "snd (pull l limit s) = s\<lparr>s_ctrl := [], s_sent := next_sent limit s,
      s_everSent := max (s_everSent s) (next_sent limit s),
      s_finished := (closes limit s \<or> s_finished s)\<rparr>"
proof -
  let ?s' = "s\<lparr>s_ctrl := [], s_sent := next_sent limit s,
      s_everSent := max (s_everSent s) (next_sent limit s)\<rparr>"
  have pl: "pull_lines limit (s\<lparr>s_ctrl := []\<rparr>)
      = (map (line_frame (s_handle s)) (take limit (owed s)), ?s')"
    using pull_lines_spec[of "s\<lparr>s_ctrl := []\<rparr>" limit] assms(1,3) by simp
  have inv': "buf_inv ?s'"
    using pull_lines_inv[of "s\<lparr>s_ctrl := []\<rparr>" limit] assms(1) by (simp add: pl)
  have "countAfter (s_sent ?s') (s_buf ?s') = s_seq s - max (next_sent limit s) (low_mark s)"
    using countAfter_owed[OF inv'] owed_length[OF inv'] by (simp add: cursor_def low_mark_def)
  then have cnt: "countAfter (s_sent ?s') (s_buf ?s') = 0 \<longleftrightarrow> cursor s + batch limit s = s_seq s"
    using cursor_le[OF assms(1)] batch_le[OF assms(1), of limit] next_cursor[of limit s] by linarith
  have pull_eq: "pull l limit s =
      (\<lparr>p_out = s_ctrl s @ map (line_frame (s_handle s)) (take limit (owed s))
           @ (if closes limit s then [closed_frame s] else []),
        p_done = closes limit s, p_stale = False\<rparr>,
       ?s'\<lparr>s_finished := (closes limit s \<or> s_finished s)\<rparr>)"
  proof (cases "closes limit s")
    case True
    then show ?thesis using assms(2) cnt
      by (simp add: pull_def pl Let_def closes_def closed_frame_def)
  next
    case False
    then have no: "\<not> (s_state ?s' = StateClosed \<and> \<not> s_finished ?s'
        \<and> countAfter (s_sent ?s') (s_buf ?s') = 0)"
      using cnt by (simp add: closes_def)
    show ?thesis unfolding pull_def pl prod.case Let_def if_not_P[OF no]
      using assms(2) False by simp
  qed
  show "p_out (fst (pull l limit s)) = s_ctrl s @ map (line_frame (s_handle s)) (take limit (owed s))
      @ (if closes limit s then [closed_frame s] else [])"
    and "p_done (fst (pull l limit s)) = closes limit s" and "\<not> p_stale (fst (pull l limit s))"
    and "snd (pull l limit s) = s\<lparr>s_ctrl := [], s_sent := next_sent limit s,
      s_everSent := max (s_everSent s) (next_sent limit s),
      s_finished := (closes limit s \<or> s_finished s)\<rparr>"
    by (simp_all add: pull_eq)
qed

text \<open>The link writer's rounds over one session: pull again and again.\<close>

fun drain :: "nat \<Rightarrow> nat \<Rightarrow> nat \<Rightarrow> session \<Rightarrow> frame list \<times> session" where
  "drain l limit 0 s = ([], s)"
| "drain l limit (Suc n) s =
     (let (r, s') = pull l limit s; (fs, s'') = drain l limit n s' in (p_out r @ fs, s''))"

lemma owed_next:
  assumes "buf_inv s"
  shows "owed (s\<lparr>s_ctrl := [], s_sent := next_sent limit s, s_everSent := e, s_finished := f\<rparr>)
    = drop limit (owed s)"
proof -
  have "next_sent limit s - low_mark s = (s_sent s - low_mark s) + batch limit s"
    by (auto simp: next_sent_def cursor_def)
  moreover have "drop (batch limit s) (owed s) = drop limit (owed s)"
    using owed_length[OF assms] by (simp add: batch_def min_def)
  ultimately show ?thesis by (simp add: owed_def low_mark_def add.commute)
qed

text \<open>
  Enough rounds hand out every control frame, every owed line once and in order, and then, for a
  closed session, the closed frame as the last one.
\<close>

lemma drain_all:
  assumes "buf_inv s" "s_link s = Some l" "s_state s \<noteq> StateDialing" "0 < limit"
    and "length (owed s) < n"
  shows "fst (drain l limit n s) = s_ctrl s @ map (line_frame (s_handle s)) (owed s)
     @ (if s_state s = StateClosed \<and> \<not> s_finished s then [closed_frame s] else [])"
  using assms
proof (induction n arbitrary: s)
  case (Suc n)
  let ?s' = "snd (pull l limit s)"
  note spec = pull_spec[OF Suc.prems(1-3), of limit]
  have len: "length (owed s) = s_seq s - cursor s" by (rule owed_length[OF Suc.prems(1)])
  have closes: "closes limit s \<longleftrightarrow> s_state s = StateClosed \<and> \<not> s_finished s \<and> length (owed s) \<le> limit"
    using cursor_le[OF Suc.prems(1)] by (auto simp: closes_def batch_def len)
  have owed': "owed ?s' = drop limit (owed s)"
    unfolding spec(4) by (rule owed_next[OF Suc.prems(1)])
  have inv': "buf_inv ?s'" by (rule pull_inv[OF Suc.prems(1)])
  have rest: "fst (drain l limit n ?s') = map (line_frame (s_handle s)) (drop limit (owed s))
      @ (if s_state s = StateClosed \<and> \<not> s_finished s \<and> \<not> closes limit s then [closed_frame s] else [])"
  proof (cases "n = 0")
    case True
    then show ?thesis using Suc.prems(5) closes by auto
  next
    case False
    have "length (owed ?s') < n" using Suc.prems(4,5) False by (auto simp: owed')
    from Suc.IH[OF inv' _ _ Suc.prems(4) this] show ?thesis
      using Suc.prems(2,3) unfolding owed' by (auto simp: spec(4) closed_frame_def)
  qed
  have "fst (drain l limit (Suc n) s) = p_out (fst (pull l limit s)) @ fst (drain l limit n ?s')"
    by (simp add: split_beta)
  also have "\<dots> = s_ctrl s @ map (line_frame (s_handle s)) (take limit (owed s) @ drop limit (owed s))
     @ (if s_state s = StateClosed \<and> \<not> s_finished s then [closed_frame s] else [])"
    unfolding spec(1) rest map_append using closes by auto
  finally show ?case by simp
qed simp

end
