(* ===== verification/Engine_Server.thy ===== *)
theory Engine_Server
  imports Session_Runs
begin

text \<open>
  Model of \<^verbatim>\<open>internal/engine/server.go\<close> and of the byte budget in \<^verbatim>\<open>buffer.go\<close>: the sessions a server
  holds, the links that claim them, the indexes between them and every frame handler. Sessions and
  links are allocated in two heaps (lists) and referred to by their address, as the code refers to
  them by pointer; \<^verbatim>\<open>sessions\<close> and \<^verbatim>\<open>byHandle\<close> are maps to addresses. Where Go ranges over a map, in
  no particular order, the model goes by address. A handler is one step; the two that drop the
  server's lock half way (\<^verbatim>\<open>handleWrite\<close>, \<^verbatim>\<open>handleClose\<close>) do so after their decision was taken.
\<close>

section \<open>State\<close>

record link =
  lk_instance :: string
  lk_gen :: int
  lk_version :: string
  lk_done :: bool
  lk_ctrl :: "frame list"
  lk_sessions :: "nat list"

record options =
  o_secret :: string
  o_version :: string
  o_bufferBytes :: int
  o_totalBufferBytes :: int
  o_orphanTimeout :: int
  o_dialTimeout :: int
  o_idleTimeout :: int
  o_probeTimeout :: int
  o_helloTimeout :: int
  o_linkTimeout :: int

record budget =
  b_max :: int
  b_used :: int
  b_sessions :: "nat list"

record server =
  sv_opts :: options
  sv_budget :: budget
  sv_closed :: bool
  sv_heap :: "session list"
  sv_linkHeap :: "link list"
  sv_sessions :: "string \<Rightarrow> nat option"
  sv_byHandle :: "string \<Rightarrow> nat option"
  sv_links :: "nat list"

definition unregisteredTimeout :: int where "unregisteredTimeout = 120000"
definition pullBatch :: nat where "pullBatch = 256"

text \<open>\<^verbatim>\<open>Options.defaults\<close>: durations in milliseconds.\<close>

definition option_defaults :: "options \<Rightarrow> options" where
  "option_defaults o1 =
     o1\<lparr>o_bufferBytes := (if o_bufferBytes o1 \<le> 0 then 4194304 else o_bufferBytes o1),
       o_totalBufferBytes := (if o_totalBufferBytes o1 \<le> 0 then 268435456 else o_totalBufferBytes o1),
       o_orphanTimeout := (if o_orphanTimeout o1 = 0 then 3600000 else o_orphanTimeout o1),
       o_dialTimeout := (if o_dialTimeout o1 \<le> 0 then 60000 else o_dialTimeout o1),
       o_idleTimeout := (if o_idleTimeout o1 \<le> 0 then 90000 else o_idleTimeout o1),
       o_probeTimeout := (if o_probeTimeout o1 \<le> 0 then 60000 else o_probeTimeout o1),
       o_helloTimeout := (if o_helloTimeout o1 \<le> 0 then 10000 else o_helloTimeout o1),
       o_linkTimeout := (if o_linkTimeout o1 \<le> 0 then 120000 else o_linkTimeout o1)\<rparr>"

definition newBudget :: "int \<Rightarrow> budget" where
  "newBudget limit = \<lparr>b_max = limit, b_used = 0, b_sessions = []\<rparr>"

definition New :: "options \<Rightarrow> string + server" where
  "New opts =
     (if o_secret opts = [] then Inl ''engine: a secret is required''
      else (let opts = option_defaults opts
            in Inr \<lparr>sv_opts = opts, sv_budget = newBudget (o_totalBufferBytes opts), sv_closed = False,
                 sv_heap = [], sv_linkHeap = [], sv_sessions = (\<lambda>_. None), sv_byHandle = (\<lambda>_. None),
                 sv_links = []\<rparr>))"

section \<open>Heap access\<close>

definition sess :: "server \<Rightarrow> nat \<Rightarrow> session" where
  "sess sv i = sv_heap sv ! i"

definition set_sess :: "nat \<Rightarrow> session \<Rightarrow> server \<Rightarrow> server" where
  "set_sess i s sv = sv\<lparr>sv_heap := (sv_heap sv)[i := s]\<rparr>"

definition upd_link :: "nat \<Rightarrow> (link \<Rightarrow> link) \<Rightarrow> server \<Rightarrow> server" where
  "upd_link l g sv = sv\<lparr>sv_linkHeap := (sv_linkHeap sv)[l := g (sv_linkHeap sv ! l)]\<rparr>"

text \<open>\<^verbatim>\<open>link.send\<close>, \<^verbatim>\<open>addSession\<close>, \<^verbatim>\<open>removeSession\<close>.\<close>

definition link_send :: "nat \<Rightarrow> frame \<Rightarrow> server \<Rightarrow> server" where
  "link_send l f = upd_link l (\<lambda>k. k\<lparr>lk_ctrl := lk_ctrl k @ [f]\<rparr>)"

definition addSession :: "nat \<Rightarrow> nat \<Rightarrow> server \<Rightarrow> server" where
  "addSession l i = upd_link l (\<lambda>k. k\<lparr>lk_sessions := List.insert i (lk_sessions k)\<rparr>)"

definition removeSession :: "nat \<Rightarrow> nat \<Rightarrow> server \<Rightarrow> server" where
  "removeSession l i = upd_link l (\<lambda>k. k\<lparr>lk_sessions := removeAll i (lk_sessions k)\<rparr>)"

section \<open>The byte budget\<close>

definition register :: "nat \<Rightarrow> server \<Rightarrow> server" where
  "register i sv = sv\<lparr>sv_budget := (sv_budget sv)\<lparr>b_sessions := List.insert i (b_sessions (sv_budget sv))\<rparr>\<rparr>"

definition unregister :: "nat \<Rightarrow> server \<Rightarrow> server" where
  "unregister i sv = sv\<lparr>sv_budget := (sv_budget sv)\<lparr>b_sessions := removeAll i (b_sessions (sv_budget sv))\<rparr>\<rparr>"

definition charge :: "int \<Rightarrow> server \<Rightarrow> server" where
  "charge n sv = sv\<lparr>sv_budget := (sv_budget sv)\<lparr>b_used := b_used (sv_budget sv) + n\<rparr>\<rparr>"

definition refund :: "int \<Rightarrow> server \<Rightarrow> server" where
  "refund n = charge (- n)"

definition buf_bytes :: "server \<Rightarrow> nat \<Rightarrow> int" where
  "buf_bytes sv i = lb_bytes (s_buf (sess sv i))"

text \<open>
  The scan of \<^verbatim>\<open>reclaim\<close> for the largest backlog: the first session strictly above the best so far.
  \<open>reclaim_one\<close> is one round; the guard on the address only says that no pointer dangles.
\<close>

fun largest_of :: "server \<Rightarrow> nat list \<Rightarrow> nat option \<Rightarrow> int \<Rightarrow> nat option" where
  "largest_of sv [] best sz = best"
| "largest_of sv (i # is) best sz =
     (if sz < buf_bytes sv i then largest_of sv is (Some i) (buf_bytes sv i)
      else largest_of sv is best sz)"

definition largest :: "server \<Rightarrow> nat option" where
  "largest sv = largest_of sv (b_sessions (sv_budget sv)) None 0"

definition reclaim_one :: "server \<Rightarrow> server option" where
  "reclaim_one sv =
     (case largest sv of
        None \<Rightarrow> None
      | Some i \<Rightarrow>
          if length (sv_heap sv) \<le> i then None
          else (case shedOldest (sess sv i) of
              None \<Rightarrow> None
            | Some (freed, s) \<Rightarrow> Some (refund freed (set_sess i s sv))))"

text \<open>The lines in all backlogs: what a round of \<^verbatim>\<open>reclaim\<close> takes one off.\<close>

definition total_lines :: "server \<Rightarrow> nat" where
  "total_lines sv = sum_list (map (\<lambda>s. buf_len (s_buf s)) (sv_heap sv))"

lemma sum_list_nat_update:
  "i < length (xs :: nat list) \<Longrightarrow> sum_list (xs[i := v]) + xs ! i = sum_list xs + v"
  by (induction xs arbitrary: i) (auto split: nat.splits)

lemma total_lines_set_sess:
  assumes "i < length (sv_heap sv)" and "buf_len (s_buf s) < buf_len (s_buf (sess sv i))"
  shows "total_lines (refund n (set_sess i s sv)) < total_lines sv"
proof -
  have "total_lines (refund n (set_sess i s sv)) + buf_len (s_buf (sess sv i))
      = total_lines sv + buf_len (s_buf s)"
    using assms(1) sum_list_nat_update[of i "map (\<lambda>s. buf_len (s_buf s)) (sv_heap sv)"]
    by (simp add: total_lines_def refund_def charge_def set_sess_def sess_def map_update)
  with assms(2) show ?thesis by simp
qed

lemma shedOldest_less: "shedOldest s = Some (freed, s') \<Longrightarrow> buf_len (s_buf s') < buf_len (s_buf s)"
  using dropOldestLocked_len[of s] by (auto simp: shedOldest_def split: if_splits)

lemma reclaim_one_less: "reclaim_one sv = Some sv' \<Longrightarrow> total_lines sv' < total_lines sv"
  by (auto simp: reclaim_one_def split: option.splits if_splits
      intro!: total_lines_set_sess shedOldest_less)

function reclaim :: "server \<Rightarrow> server" where
  "reclaim sv =
     (if b_max (sv_budget sv) < b_used (sv_budget sv) then
        (case reclaim_one sv of None \<Rightarrow> sv | Some sv' \<Rightarrow> reclaim sv')
      else sv)"
  by pat_completeness auto
termination by (relation "measure total_lines") (simp_all add: reclaim_one_less)

declare reclaim.simps [simp del]

section \<open>Ending sessions\<close>

text \<open>\<^verbatim>\<open>forgetLocked\<close>: out of both indexes, its backlog dropped and its bytes refunded.\<close>

definition forgetLocked :: "nat \<Rightarrow> server \<Rightarrow> server" where
  "forgetLocked i sv =
     (let s = sess sv i;
          sv = (if sv_sessions sv (s_key s) = Some i
                then sv\<lparr>sv_sessions := (sv_sessions sv)(s_key s := None)\<rparr> else sv);
          sv = sv\<lparr>sv_byHandle := (\<lambda>h. if h \<in> set (s_handles s) \<and> sv_byHandle sv h = Some i
                                      then None else sv_byHandle sv h)\<rparr>;
          (freed, b) = clear_buffer (s_buf s)
      in refund freed (unregister i (set_sess i (s\<lparr>s_buf := b\<rparr>) sv)))"

definition release :: "nat option \<Rightarrow> nat \<Rightarrow> server \<Rightarrow> server" where
  "release l i sv = (case l of Some _ \<Rightarrow> sv | None \<Rightarrow> forgetLocked i sv)"

definition endSession :: "nat \<Rightarrow> string \<Rightarrow> server \<Rightarrow> server" where
  "endSession i reason sv =
     (let (r, s) = shutdown reason (sess sv i)
      in (case r of None \<Rightarrow> sv | Some l \<Rightarrow> release l i (set_sess i s sv)))"

text \<open>The addresses in \<^verbatim>\<open>s.sessions\<close>.\<close>

definition held_sessions :: "server \<Rightarrow> nat list" where
  "held_sessions sv =
     filter (\<lambda>i. sv_sessions sv (s_key (sess sv i)) = Some i) [0..<length (sv_heap sv)]"

text \<open>The fractional digits of a duration, trailing zeros dropped, and Go's \<^verbatim>\<open>Duration.String\<close>.\<close>

definition fmt_frac :: "nat \<Rightarrow> string" where
  "fmt_frac ms =
     (if ms = 0 then []
      else ''.'' @ rev (dropWhile (\<lambda>c. c = CHR ''0'')
        (rev (drop 1 (format_uint (1000 + ms))))))"

definition duration_string :: "int \<Rightarrow> string" where
  "duration_string d =
     (let n = nat (abs d);
          body =
            (if n = 0 then ''0s''
             else if n < 1000 then format_uint n @ ''ms''
             else (let secs = n div 1000; mins = secs div 60; hours = mins div 60;
                       s = format_uint (secs mod 60) @ fmt_frac (n mod 1000) @ ''s''
                   in if mins = 0 then s
                      else if hours = 0 then format_uint mins @ ''m'' @ s
                      else format_uint hours @ ''h'' @ format_uint (mins mod 60) @ ''m'' @ s))
      in if d < 0 then ''-'' @ body else body)"

definition reap_reason :: "int \<Rightarrow> options \<Rightarrow> session \<Rightarrow> string option" where
  "reap_reason now opts s =
     (if s_link s = None \<and> s_state s \<noteq> StateClosed then
        (if \<not> s_registered s \<and> now - s_created s > unregisteredTimeout
         then Some ''never finished registering''
         else (case s_detachedAt s of
             None \<Rightarrow> None
           | Some t \<Rightarrow>
               if o_orphanTimeout opts > 0 \<and> now - t > o_orphanTimeout opts
               then Some (''no stugan attached for '' @ duration_string (o_orphanTimeout opts))
               else None))
      else None)"

definition reap_victims :: "int \<Rightarrow> server \<Rightarrow> (nat \<times> string) list" where
  "reap_victims now sv =
     List.map_filter (\<lambda>i. map_option (Pair i) (reap_reason now (sv_opts sv) (sess sv i)))
       (held_sessions sv)"

definition reap :: "int \<Rightarrow> server \<Rightarrow> server" where
  "reap now sv = List.fold (\<lambda>(i, reason). endSession i reason) (reap_victims now sv) sv"

section \<open>Links\<close>

text \<open>\<^verbatim>\<open>link.close\<close>: every session the link held is detached; a closed one is forgotten.\<close>

definition release_held :: "int \<Rightarrow> nat \<Rightarrow> nat \<Rightarrow> server \<Rightarrow> server" where
  "release_held now l i sv =
     (let (s, detached) = detachLocked now l (sess sv i); sv = set_sess i s sv
      in if detached \<and> s_state s = StateClosed then forgetLocked i sv else sv)"

definition link_close :: "int \<Rightarrow> nat \<Rightarrow> server \<Rightarrow> server" where
  "link_close now l sv =
     (if lk_done (sv_linkHeap sv ! l) then sv
      else (let held = lk_sessions (sv_linkHeap sv ! l);
                sv = upd_link l (\<lambda>k. k\<lparr>lk_done := True, lk_sessions := []\<rparr>) sv;
                sv = sv\<lparr>sv_links := removeAll l (sv_links sv)\<rparr>
            in List.fold (release_held now l) held sv))"

definition server_shutdown :: "int \<Rightarrow> server \<Rightarrow> server" where
  "server_shutdown now sv =
     (let sv = sv\<lparr>sv_closed := True\<rparr>; links = sv_links sv; sessions = held_sessions sv;
          sv = List.fold (link_close now) links sv
      in List.fold (\<lambda>i. endSession i ''engine shutting down'') sessions sv)"

record stats =
  st_sessions :: nat
  st_attached :: nat
  st_bufferedBytes :: int

definition Stats :: "server \<Rightarrow> stats" where
  "Stats sv = \<lparr>st_sessions = length (held_sessions sv),
     st_attached = length (filter (\<lambda>i. s_link (sess sv i) \<noteq> None) (held_sessions sv)),
     st_bufferedBytes = b_used (sv_budget sv)\<rparr>"

section \<open>The handshake\<close>

datatype hello = Health frame | Reject frame | Welcome server nat

definition format_int :: "int \<Rightarrow> string" where
  "format_int n = (if n < 0 then ''-'' @ format_uint (nat (- n)) else format_uint (nat n))"

definition reject :: "string \<Rightarrow> hello" where
  "reject msg = Reject ((zero_frame OpError)\<lparr>f_error := msg\<rparr>)"

definition new_link :: "frame \<Rightarrow> link" where
  "new_link f = \<lparr>lk_instance = f_instance f, lk_gen = f_gen f, lk_version = f_version f,
     lk_done = False, lk_ctrl = [], lk_sessions = []\<rparr>"

definition serveLink :: "frame \<Rightarrow> server \<Rightarrow> hello" where
  "serveLink f sv =
     (if f_op f = OpHealth then Health ((zero_frame OpHealth)\<lparr>f_version := o_version (sv_opts sv)\<rparr>)
      else if f_op f \<noteq> OpHello then reject ''expected hello''
      else if f_secret f \<noteq> o_secret (sv_opts sv)
      then reject ''authentication failed: wrong engine secret''
      else if f_protocol f \<noteq> ProtocolMajor
      then reject (''protocol mismatch: engine speaks '' @ format_int ProtocolMajor
                   @ '', stugan speaks '' @ format_int (f_protocol f))
      else if f_instance f = [] \<or> CHR 0x00 \<in> set (f_instance f)
      then reject ''hello without a valid instance''
      else if sv_closed sv then reject ''engine shutting down''
      else (let l = length (sv_linkHeap sv);
                sv = sv\<lparr>sv_linkHeap := sv_linkHeap sv @ [new_link f], sv_links := sv_links sv @ [l]\<rparr>
            in Welcome (link_send l ((zero_frame OpHello)\<lparr>f_protocol := ProtocolMajor,
                 f_minor := ProtocolMinor, f_version := o_version (sv_opts sv)\<rparr>) sv) l))"

section \<open>Frame handlers\<close>

definition sess_key :: "string \<Rightarrow> string \<Rightarrow> string" where
  "sess_key inst ident = inst @ [CHR 0x00] @ ident"

text \<open>Go's \<^verbatim>\<open>net.SplitHostPort\<close>: None on success, else the text of its error.\<close>

definition addr_error :: "string \<Rightarrow> string \<Rightarrow> string" where
  "addr_error hp why = (if hp = [] then why else ''address '' @ hp @ '': '' @ why)"

definition split_host_port_error :: "string \<Rightarrow> string option" where
  "split_host_port_error hp =
     (case last_index_byte hp CHR '':'' of
        None \<Rightarrow> Some (addr_error hp ''missing port in address'')
      | Some i \<Rightarrow>
          (let brackets = (\<lambda>j k. if CHR ''['' \<in> set (drop j hp)
                                then Some (addr_error hp ''unexpected '[' in address'')
                                else if CHR '']'' \<in> set (drop k hp)
                                then Some (addr_error hp ''unexpected ']' in address'')
                                else None)
           in if hd hp = CHR ''['' then
                (case index_byte hp CHR '']'' of
                   None \<Rightarrow> Some (addr_error hp ''missing ']' in address'')
                 | Some e \<Rightarrow>
                     if e + 1 = length hp then Some (addr_error hp ''missing port in address'')
                     else if e + 1 = i then brackets 1 (e + 1)
                     else if hp ! (e + 1) = CHR '':'' then Some (addr_error hp ''too many colons in address'')
                     else Some (addr_error hp ''missing port in address''))
              else if CHR '':'' \<in> set (take i hp) then Some (addr_error hp ''too many colons in address'')
              else brackets 0 0))"

definition connect_fail :: "nat \<Rightarrow> frame \<Rightarrow> string \<Rightarrow> server \<Rightarrow> server" where
  "connect_fail l f msg = link_send l ((zero_frame OpError)\<lparr>f_handle := f_handle f, f_error := msg\<rparr>)"

definition tell_detached :: "nat option \<Rightarrow> nat \<Rightarrow> string \<Rightarrow> string \<Rightarrow> server \<Rightarrow> server" where
  "tell_detached holder i h why sv =
     (case holder of
        None \<Rightarrow> sv
      | Some l' \<Rightarrow> link_send l' ((zero_frame OpDetached)\<lparr>f_handle := h, f_error := why\<rparr>)
          (removeSession l' i sv))"

text \<open>The branch of \<^verbatim>\<open>handleConnect\<close> that takes over a held connection.\<close>

definition take_over :: "int \<Rightarrow> nat \<Rightarrow> frame \<Rightarrow> nat \<Rightarrow> server \<Rightarrow> server" where
  "take_over now l f i sv =
     (let s = sess sv i; old = s_handle s;
          sv = tell_detached (s_link s) i old ''taken over by a newer connect'' sv;
          by = (sv_byHandle sv)(old := (if sv_byHandle sv old = Some i then None else sv_byHandle sv old));
          sv = set_sess i (attachLocked now l (f_handle f) s) sv;
          sv = sv\<lparr>sv_byHandle := by(f_handle f := Some i)\<rparr>
      in addSession l i sv)"

text \<open>The branch that ends a connection that cannot be taken over.\<close>

definition replace_old :: "int \<Rightarrow> nat \<Rightarrow> server \<Rightarrow> server" where
  "replace_old now i sv =
     (let s = sess sv i;
          sv = tell_detached (s_link s) i (s_handle s) ''replaced by a new connection'' sv;
          s = (case s_link s of Some l' \<Rightarrow> fst (detachLocked now l' s) | None \<Rightarrow> s)
      in forgetLocked i (set_sess i (snd (shutdown ''replaced by a new connection'' s)) sv))"

definition open_new :: "int \<Rightarrow> nat \<Rightarrow> frame \<Rightarrow> string \<Rightarrow> server \<Rightarrow> server" where
  "open_new now l f key sv =
     (let i = length (sv_heap sv);
          sv = sv\<lparr>sv_heap := sv_heap sv @ [newSession now l (lk_instance (sv_linkHeap sv ! l)) f key],
                 sv_sessions := (sv_sessions sv)(key := Some i),
                 sv_byHandle := (sv_byHandle sv)(f_handle f := Some i)\<rparr>
      in addSession l i (register i sv))"

definition held_by_newer :: "nat \<Rightarrow> nat \<Rightarrow> server \<Rightarrow> bool" where
  "held_by_newer l i sv =
     (case s_link (sess sv i) of
        None \<Rightarrow> False
      | Some l' \<Rightarrow> l' \<noteq> l \<and> lk_gen (sv_linkHeap sv ! l') > lk_gen (sv_linkHeap sv ! l))"

definition handleConnect :: "int \<Rightarrow> nat \<Rightarrow> frame \<Rightarrow> server \<Rightarrow> server" where
  "handleConnect now l f sv =
     (if f_id f = [] \<or> f_handle f = [] \<or> f_addr f = []
      then connect_fail l f ''connect: missing id, handle or addr'' sv
      else (case split_host_port_error (f_addr f) of
          Some e \<Rightarrow> connect_fail l f (''connect: bad addr: '' @ e) sv
        | None \<Rightarrow>
            (let key = sess_key (lk_instance (sv_linkHeap sv ! l)) (f_id f) in
             if sv_closed sv then connect_fail l f ''engine shutting down'' sv
             else if sv_byHandle sv (f_handle f) \<noteq> None
             then connect_fail l f ''connect: handle already in use'' sv
             else (case sv_sessions sv key of
                 None \<Rightarrow> open_new now l f key sv
               | Some i \<Rightarrow>
                   if held_by_newer l i sv
                   then connect_fail l f ''connection is held by a newer stugan process'' sv
                   else if reusable (f_fingerprint f) (sess sv i) then take_over now l f i sv
                   else open_new now l f key (replace_old now i sv)))))"

definition server_write :: "nat \<Rightarrow> string \<Rightarrow> server \<Rightarrow> server" where
  "server_write i line sv =
     (let (s, full) = enqueueWrite line (sess sv i); sv = set_sess i s sv
      in if full then endSession i overflowReason sv else sv)"

definition handleWrite :: "nat \<Rightarrow> frame \<Rightarrow> server \<Rightarrow> server" where
  "handleWrite l f sv =
     (let line = Text f in
      if line = [] \<or> MaxLineBytes < length line
         \<or> contains_any line [CHR 0x0D, CHR 0x0A, CHR 0x00] then sv
      else (case sv_byHandle sv (f_handle f) of
          None \<Rightarrow> sv
        | Some i \<Rightarrow>
            if s_handle (sess sv i) = f_handle f \<and> s_link (sess sv i) = Some l
               \<and> s_state (sess sv i) = StateOpen
            then server_write i line sv else sv))"

definition handleDetach :: "int \<Rightarrow> nat \<Rightarrow> frame \<Rightarrow> server \<Rightarrow> server" where
  "handleDetach now l f sv =
     (case sv_byHandle sv (f_handle f) of
        None \<Rightarrow> sv
      | Some i \<Rightarrow>
          if s_handle (sess sv i) = f_handle f \<and> snd (detachLocked now l (sess sv i))
          then (let s = fst (detachLocked now l (sess sv i));
                    sv = removeSession l i (set_sess i s sv)
                in if s_state s = StateClosed then forgetLocked i sv else sv)
          else sv)"

definition handleClose :: "int \<Rightarrow> nat \<Rightarrow> frame \<Rightarrow> server \<Rightarrow> server" where
  "handleClose now l f sv =
     (case sv_sessions sv (sess_key (lk_instance (sv_linkHeap sv ! l)) (f_id f)) of
        None \<Rightarrow> sv
      | Some i \<Rightarrow>
          (let s = sess sv i in
           if s_handle s = f_handle f \<and> (s_link s = None \<or> s_link s = Some l)
           then (let s = (fst (detachLocked now l s))\<lparr>s_finished := True\<rparr>;
                     s = snd (shutdown ''closed by stugan'' s)
                 in forgetLocked i (removeSession l i (set_sess i s sv)))
           else sv))"

definition handleAck :: "nat \<Rightarrow> frame \<Rightarrow> server \<Rightarrow> server" where
  "handleAck l f sv =
     (case sv_sessions sv (sess_key (lk_instance (sv_linkHeap sv ! l)) (f_id f)) of
        None \<Rightarrow> sv
      | Some i \<Rightarrow> (let (freed, s) = ack (f_handle f) (f_seq f) (sess sv i)
                  in refund freed (set_sess i s sv)))"

definition handleFrame :: "int \<Rightarrow> nat \<Rightarrow> frame \<Rightarrow> server \<Rightarrow> server" where
  "handleFrame now l f sv =
     (case f_op f of
        OpPing \<Rightarrow> link_send l (zero_frame OpPong) sv
      | OpPong \<Rightarrow> sv
      | OpConnect \<Rightarrow> handleConnect now l f sv
      | OpWrite \<Rightarrow> handleWrite l f sv
      | OpAck \<Rightarrow> handleAck l f sv
      | OpDetach \<Rightarrow> handleDetach now l f sv
      | OpClose \<Rightarrow> handleClose now l f sv
      | k \<Rightarrow> link_send l ((zero_frame OpError)\<lparr>f_handle := f_handle f,
               f_error := ''unknown op '' @ string_of_op k\<rparr>) sv)"

section \<open>The socket's goroutines and the link's writer\<close>

text \<open>The end of a dial; the socket's lines; one pass of the link's writer.\<close>

definition server_dial :: "nat \<Rightarrow> string option \<Rightarrow> server \<Rightarrow> server" where
  "server_dial i err sv =
     (let s = sess sv i in
      if s_state s = StateClosed then sv
      else (let sv = set_sess i (dial_done err s) sv
            in (case err of Some e \<Rightarrow> release (s_link s) i sv | None \<Rightarrow> sv)))"

definition server_ingest :: "int \<Rightarrow> nat \<Rightarrow> string \<Rightarrow> server \<Rightarrow> server" where
  "server_ingest now i raw sv =
     (case classify raw of
        Ignore \<Rightarrow> sv
      | Reply r \<Rightarrow> server_write i r sv
      | Accept il \<Rightarrow>
          if s_state (sess sv i) \<noteq> StateOpen then sv
          else (let (cost, s) = accept_line (o_bufferBytes (sv_opts sv)) now il raw (sess sv i)
                in reclaim (charge cost (set_sess i s sv))))"

definition writer_pull :: "nat \<Rightarrow> nat \<Rightarrow> server \<Rightarrow> frame list \<times> server" where
  "writer_pull l i sv =
     (let (r, s) = pull l pullBatch (sess sv i);
          sv = set_sess i s sv;
          sv = (if p_stale r \<or> p_done r then removeSession l i sv else sv)
      in (p_out r, if p_done r then forgetLocked i sv else sv))"

fun writer_sessions :: "nat \<Rightarrow> nat list \<Rightarrow> server \<Rightarrow> frame list \<times> server" where
  "writer_sessions l [] sv = ([], sv)"
| "writer_sessions l (i # is) sv =
     (let (fs, sv) = writer_pull l i sv; (gs, sv) = writer_sessions l is sv in (fs @ gs, sv))"

definition writer_pass :: "nat \<Rightarrow> server \<Rightarrow> frame list \<times> server" where
  "writer_pass l sv =
     (let ctrl = lk_ctrl (sv_linkHeap sv ! l); held = lk_sessions (sv_linkHeap sv ! l);
          (fs, sv) = writer_sessions l held (upd_link l (\<lambda>k. k\<lparr>lk_ctrl := []\<rparr>) sv)
      in (ctrl @ fs, sv))"

lemmas server_ops [server_defs] = forgetLocked_def release_def endSession_def release_held_def
  link_close_def tell_detached_def take_over_def replace_old_def open_new_def handleWrite_def
  handleDetach_def handleClose_def handleAck_def server_dial_def server_write_def writer_pull_def
  writer_pass_def connect_fail_def

end
