(* ===== verification/Server_Invariant.thy ===== *)
theory Server_Invariant
  imports Engine_Server
begin

text \<open>
  The invariant of the engine server and its preservation by every handler. It has four parts: each
  session in the heap is well formed, the budget's counter is the sum of the backlogs, the two indexes
  and the budget's set describe the same live sessions, and links and sessions agree on claims. The
  step relation \<open>server_step\<close> lists what the server's goroutines do; \<open>reachable\<close> is its closure.
\<close>

section \<open>Session moves\<close>

definition sess_ok :: "session \<Rightarrow> bool" where
  "sess_ok s \<longleftrightarrow> buf_inv s \<and> replay_inv s \<and> ctrl_ok s
     \<and> s_key s = sess_key (s_instance s) (s_id s) \<and> CHR 0x00 \<notin> set (s_instance s)"

text \<open>What every operation but an attach leaves alone; a closed session stays closed and only shrinks.\<close>

definition keeps :: "session \<Rightarrow> session \<Rightarrow> bool" where
  "keeps s s' \<longleftrightarrow> s_key s' = s_key s \<and> s_instance s' = s_instance s \<and> s_id s' = s_id s
     \<and> s_handle s' = s_handle s \<and> s_handles s' = s_handles s
     \<and> (s_state s = StateClosed \<longrightarrow> s_state s' = StateClosed
          \<and> buf_len (s_buf s') \<le> buf_len (s_buf s))"

definition sess_move :: "session \<Rightarrow> session \<Rightarrow> bool" where
  "sess_move s s' \<longleftrightarrow> keeps s s' \<and> (sess_ok s \<longrightarrow> sess_ok s')"

lemma sess_moveI:
  assumes "keeps s s'" and "sess_ok s \<Longrightarrow> buf_inv s'" and "sess_ok s \<Longrightarrow> replay_inv s'"
    and "sess_ok s \<Longrightarrow> ctrl_ok s'"
  shows "sess_move s s'"
  using assms by (auto simp: sess_move_def sess_ok_def keeps_def)

lemma sess_move_refl [simp]: "sess_move s s"
  by (simp add: sess_move_def keeps_def)

lemma sess_move_trans: "sess_move s t \<Longrightarrow> sess_move t u \<Longrightarrow> sess_move s u"
  by (auto simp: sess_move_def keeps_def)

lemma sess_okD:
  "sess_ok s \<Longrightarrow> buf_inv s" "sess_ok s \<Longrightarrow> replay_inv s" "sess_ok s \<Longrightarrow> ctrl_ok s"
  "sess_ok s \<Longrightarrow> s_key s = sess_key (s_instance s) (s_id s)"
  "sess_ok s \<Longrightarrow> CHR 0x00 \<notin> set (s_instance s)"
  by (simp_all add: sess_ok_def)

text \<open>Every step of a session's life other than an attach is a move.\<close>

lemma accept_line_keeps:
  assumes "buf_inv s" "s_state s = StateOpen"
  shows "keeps s (snd (accept_line cap now l raw s))"
proof -
  from accept_line_spec[OF assms(1), of cap now l raw] obtain b n where
    "snd (accept_line cap now l raw s)
      = (track l raw (numbered_session now raw s))\<lparr>s_buf := b, s_lost := n\<rparr>" by blast
  then show ?thesis using assms(2) by (simp add: keeps_def numbered_session_def)
qed

lemma move_accept:
  assumes "s_state s = StateOpen" "sess_ok s"
  shows "sess_move s (snd (accept_line cap now l raw s))"
  using assms by (intro sess_moveI)
    (auto simp: sess_ok_def accept_line_keeps accept_line_inv accept_line_replay ctrl_ok_def)

lemma move_enqueue: "sess_move s (fst (enqueueWrite line s))"
  by (rule sess_moveI)
     (auto simp: keeps_def enqueueWrite_def sess_ok_def ctrl_ok_def replay_inv_def buf_inv_def low_mark_def)

lemma move_shutdown: "sess_move s (snd (shutdown reason s))"
  by (rule sess_moveI) (auto simp: keeps_def shutdown_def sess_ok_def ctrl_ok_def replay_inv_def
      buf_inv_def low_mark_def)

lemma move_dial: "sess_move s (dial_done err s)"
  by (rule sess_moveI) (auto simp: keeps_def dial_done_def sess_ok_def ctrl_ok_def replay_inv_def
      buf_inv_def low_mark_def split: option.splits)

lemma move_detach: "sess_move s (fst (detachLocked now l s))"
  by (rule sess_moveI) (auto simp: keeps_def detachLocked_def sess_ok_def ctrl_ok_def replay_inv_def
      buf_inv_def low_mark_def)

lemma move_finish: "sess_move s (s\<lparr>s_finished := b\<rparr>)"
  by (rule sess_moveI) (auto simp: keeps_def sess_ok_def ctrl_ok_def replay_inv_def)

lemma move_clear: "sess_move s (s\<lparr>s_buf := snd (clear_buffer (s_buf s))\<rparr>)"
  by (rule sess_moveI)
     (auto simp: clear_inv keeps_def sess_ok_def ctrl_ok_def replay_inv_def, simp add: clear_buffer_def buf_len_def)

lemma move_ack:
  assumes "sess_ok s"
  shows "sess_move s (snd (ack h n s))"
proof (rule sess_moveI)
  have b: "buf_inv s" using assms by (simp add: sess_ok_def)
  have "buf_len (s_buf (snd (ack h n s))) \<le> buf_len (s_buf s)"
    using ack_backlog[OF b, of h n] by (auto simp: backlog_step_def buf_len_def)
  then show "keeps s (snd (ack h n s))"
    by (auto simp: keeps_def ack_def split_beta)
  show "buf_inv (snd (ack h n s))" by (rule ack_inv[OF b])
qed (auto simp: sess_ok_def ctrl_ok_def ack_def replay_inv_def split_beta)

lemma pull_keep [simp]:
  "s_key (snd (pull l limit s)) = s_key s" "s_instance (snd (pull l limit s)) = s_instance s"
  "s_id (snd (pull l limit s)) = s_id s" "s_handle (snd (pull l limit s)) = s_handle s"
  "s_handles (snd (pull l limit s)) = s_handles s" "s_state (snd (pull l limit s)) = s_state s"
  "s_link (snd (pull l limit s)) = s_link s"
  by (simp_all add: pull_def pull_lines_def Let_def split_beta)

lemma move_pull: "sess_move s (snd (pull l limit s))"
proof (rule sess_moveI)
  show "keeps s (snd (pull l limit s))" by (simp add: keeps_def)
  show "sess_ok s \<Longrightarrow> ctrl_ok (snd (pull l limit s))" by (auto simp: ctrl_ok_def pull_ctrl sess_ok_def)
  show "sess_ok s \<Longrightarrow> replay_inv (snd (pull l limit s))"
    using sess_step_replay[of s 0 "SPull l limit"] by (simp add: sess_ok_def)
qed (auto simp: sess_ok_def pull_inv)

lemma move_shed:
  assumes "shedOldest s = Some (n, s')" "sess_ok s"
  shows "sess_move s s'"
proof (rule sess_moveI)
  have s': "sess_step 0 SShed s = s'" using assms(1) by simp
  show "buf_inv s'" using shedOldest_inv[of s 0] s' assms(2) by (simp add: sess_ok_def)
  show "replay_inv s'" using sess_step_replay[of s 0 SShed] s' assms(2) by (simp add: sess_ok_def)
  show "ctrl_ok s'" using step_ctrl_ok[of s 0 SShed] s' assms(2) by (simp add: sess_ok_def)
  show "keeps s s'" using assms(1)
    by (auto simp: keeps_def shedOldest_def dropOldestLocked_def dropOldest_def buf_len_def
        split: option.splits list.splits if_splits)
qed

text \<open>The link of a session changes only where a claim is given up.\<close>

lemma move_link [simp]:
  "s_link (fst (enqueueWrite line s)) = s_link s" "s_link (snd (shutdown reason s)) = s_link s"
  "s_link (dial_done err s) = s_link s" "s_link (snd (ack h n s)) = s_link s"
  by (simp_all add: enqueueWrite_def shutdown_def dial_done_def ack_def split_beta split: option.splits)

lemma shed_link: "shedOldest s = Some (n, s') \<Longrightarrow> s_link s' = s_link s"
  by (auto simp: shedOldest_def dropOldestLocked_def split: option.splits if_splits)

lemma accept_line_link:
  assumes "sess_ok s"
  shows "s_link (snd (accept_line cap now l raw s)) = s_link s"
proof -
  have "buf_inv s" using assms by (simp add: sess_ok_def)
  from accept_line_spec[OF this, of cap now l raw] obtain b n where
    "snd (accept_line cap now l raw s)
      = (track l raw (numbered_session now raw s))\<lparr>s_buf := b, s_lost := n\<rparr>" by blast
  then show ?thesis by (simp add: numbered_session_def)
qed

section \<open>The invariant\<close>

definition live :: "server \<Rightarrow> nat \<Rightarrow> bool" where
  "live sv i \<longleftrightarrow> i \<in> set (b_sessions (sv_budget sv))"

definition heap_bytes :: "server \<Rightarrow> int" where
  "heap_bytes sv = sum_list (map (\<lambda>s. lb_bytes (s_buf s)) (sv_heap sv))"

definition heap_ok :: "server \<Rightarrow> bool" where
  "heap_ok sv \<longleftrightarrow> (\<forall>i<length (sv_heap sv). sess_ok (sess sv i))"

text \<open>A session no index knows is closed and holds no lines; a live one is found under its key and handle.\<close>

definition idx_ok :: "server \<Rightarrow> bool" where
  "idx_ok sv \<longleftrightarrow>
     (\<forall>i. live sv i \<longrightarrow> i < length (sv_heap sv) \<and> sv_sessions sv (s_key (sess sv i)) = Some i
          \<and> sv_byHandle sv (s_handle (sess sv i)) = Some i)
     \<and> (\<forall>k i. sv_sessions sv k = Some i \<longrightarrow> live sv i \<and> s_key (sess sv i) = k)
     \<and> (\<forall>h i. sv_byHandle sv h = Some i \<longrightarrow> live sv i \<and> s_handle (sess sv i) = h)
     \<and> (\<forall>i<length (sv_heap sv). \<not> live sv i \<longrightarrow>
          s_state (sess sv i) = StateClosed \<and> buf_len (s_buf (sess sv i)) = 0)"

text \<open>A claim is held by a link of the session's instance, and an open link lists the sessions it holds.\<close>

definition link_ok :: "server \<Rightarrow> bool" where
  "link_ok sv \<longleftrightarrow>
     (\<forall>i<length (sv_heap sv). \<forall>l. s_link (sess sv i) = Some l \<longrightarrow>
        l < length (sv_linkHeap sv) \<and> lk_instance (sv_linkHeap sv ! l) = s_instance (sess sv i)
        \<and> (live sv i \<and> \<not> lk_done (sv_linkHeap sv ! l) \<longrightarrow> i \<in> set (lk_sessions (sv_linkHeap sv ! l))))
     \<and> (\<forall>l<length (sv_linkHeap sv). CHR 0x00 \<notin> set (lk_instance (sv_linkHeap sv ! l))
          \<and> (\<forall>i\<in>set (lk_sessions (sv_linkHeap sv ! l)). i < length (sv_heap sv)))
     \<and> (\<forall>l. l \<in> set (sv_links sv) \<longleftrightarrow> l < length (sv_linkHeap sv) \<and> \<not> lk_done (sv_linkHeap sv ! l))"

definition server_inv :: "server \<Rightarrow> bool" where
  "server_inv sv \<longleftrightarrow> heap_ok sv \<and> b_used (sv_budget sv) = heap_bytes sv \<and> idx_ok sv \<and> link_ok sv"

lemma server_invD:
  assumes "server_inv sv"
  shows "\<And>i. i < length (sv_heap sv) \<Longrightarrow> sess_ok (sess sv i)"
    and "b_used (sv_budget sv) = heap_bytes sv" and "idx_ok sv" and "link_ok sv"
    and "\<And>k i. sv_sessions sv k = Some i \<Longrightarrow> i < length (sv_heap sv) \<and> s_key (sess sv i) = k \<and> live sv i"
    and "\<And>h i. sv_byHandle sv h = Some i \<Longrightarrow> i < length (sv_heap sv) \<and> s_handle (sess sv i) = h \<and> live sv i"
  using assms by (auto simp: server_inv_def heap_ok_def idx_ok_def)

lemma idx_okD:
  assumes "idx_ok sv"
  shows "\<And>i. live sv i \<Longrightarrow> i < length (sv_heap sv)"
    and "\<And>i. live sv i \<Longrightarrow> sv_sessions sv (s_key (sess sv i)) = Some i"
    and "\<And>i. live sv i \<Longrightarrow> sv_byHandle sv (s_handle (sess sv i)) = Some i"
    and "\<And>k i. sv_sessions sv k = Some i \<Longrightarrow> live sv i \<and> s_key (sess sv i) = k"
    and "\<And>h i. sv_byHandle sv h = Some i \<Longrightarrow> live sv i \<and> s_handle (sess sv i) = h"
    and "\<And>i. i < length (sv_heap sv) \<Longrightarrow> \<not> live sv i \<Longrightarrow>
          s_state (sess sv i) = StateClosed \<and> buf_len (s_buf (sess sv i)) = 0"
  using assms unfolding idx_ok_def by blast+

lemma idx_okI:
  assumes "\<And>i. live sv i \<Longrightarrow> i < length (sv_heap sv)"
    and "\<And>i. live sv i \<Longrightarrow> sv_sessions sv (s_key (sess sv i)) = Some i"
    and "\<And>i. live sv i \<Longrightarrow> sv_byHandle sv (s_handle (sess sv i)) = Some i"
    and "\<And>k i. sv_sessions sv k = Some i \<Longrightarrow> live sv i \<and> s_key (sess sv i) = k"
    and "\<And>h i. sv_byHandle sv h = Some i \<Longrightarrow> live sv i \<and> s_handle (sess sv i) = h"
    and "\<And>i. i < length (sv_heap sv) \<Longrightarrow> \<not> live sv i \<Longrightarrow>
          s_state (sess sv i) = StateClosed \<and> buf_len (s_buf (sess sv i)) = 0"
  shows "idx_ok sv"
  using assms unfolding idx_ok_def by blast

lemma link_okD:
  assumes "link_ok sv"
  shows "\<And>i l. i < length (sv_heap sv) \<Longrightarrow> s_link (sess sv i) = Some l \<Longrightarrow> l < length (sv_linkHeap sv)"
    and "\<And>i l. i < length (sv_heap sv) \<Longrightarrow> s_link (sess sv i) = Some l \<Longrightarrow>
          lk_instance (sv_linkHeap sv ! l) = s_instance (sess sv i)"
    and "\<And>i l. i < length (sv_heap sv) \<Longrightarrow> s_link (sess sv i) = Some l \<Longrightarrow> live sv i \<Longrightarrow>
          \<not> lk_done (sv_linkHeap sv ! l) \<Longrightarrow> i \<in> set (lk_sessions (sv_linkHeap sv ! l))"
    and "\<And>l. l < length (sv_linkHeap sv) \<Longrightarrow> CHR 0x00 \<notin> set (lk_instance (sv_linkHeap sv ! l))"
    and "\<And>l i. l < length (sv_linkHeap sv) \<Longrightarrow> i \<in> set (lk_sessions (sv_linkHeap sv ! l)) \<Longrightarrow>
          i < length (sv_heap sv)"
    and "\<And>l. l \<in> set (sv_links sv) \<longleftrightarrow> l < length (sv_linkHeap sv) \<and> \<not> lk_done (sv_linkHeap sv ! l)"
  using assms unfolding link_ok_def by blast+

lemma link_okI:
  assumes "\<And>i l. i < length (sv_heap sv) \<Longrightarrow> s_link (sess sv i) = Some l \<Longrightarrow> l < length (sv_linkHeap sv)"
    and "\<And>i l. i < length (sv_heap sv) \<Longrightarrow> s_link (sess sv i) = Some l \<Longrightarrow>
          lk_instance (sv_linkHeap sv ! l) = s_instance (sess sv i)"
    and "\<And>i l. i < length (sv_heap sv) \<Longrightarrow> s_link (sess sv i) = Some l \<Longrightarrow> live sv i \<Longrightarrow>
          \<not> lk_done (sv_linkHeap sv ! l) \<Longrightarrow> i \<in> set (lk_sessions (sv_linkHeap sv ! l))"
    and "\<And>l. l < length (sv_linkHeap sv) \<Longrightarrow> CHR 0x00 \<notin> set (lk_instance (sv_linkHeap sv ! l))"
    and "\<And>l i. l < length (sv_linkHeap sv) \<Longrightarrow> i \<in> set (lk_sessions (sv_linkHeap sv ! l)) \<Longrightarrow>
          i < length (sv_heap sv)"
    and "\<And>l. l \<in> set (sv_links sv) \<longleftrightarrow> l < length (sv_linkHeap sv) \<and> \<not> lk_done (sv_linkHeap sv ! l)"
  shows "link_ok sv"
  using assms unfolding link_ok_def by blast

section \<open>Primitive updates\<close>

text \<open>How each primitive reads back.\<close>

lemma sess_set_sess [simp]:
  "i < length (sv_heap sv) \<Longrightarrow> sess (set_sess i s sv) j = (if j = i then s else sess sv j)"
  by (simp add: sess_def set_sess_def)

lemma set_sess_fields [simp]:
  "sv_opts (set_sess i s sv) = sv_opts sv" "sv_budget (set_sess i s sv) = sv_budget sv"
  "sv_closed (set_sess i s sv) = sv_closed sv" "length (sv_heap (set_sess i s sv)) = length (sv_heap sv)"
  "sv_linkHeap (set_sess i s sv) = sv_linkHeap sv" "sv_sessions (set_sess i s sv) = sv_sessions sv"
  "sv_byHandle (set_sess i s sv) = sv_byHandle sv" "sv_links (set_sess i s sv) = sv_links sv"
  "live (set_sess i s sv) j = live sv j"
  by (simp_all add: set_sess_def live_def)

lemma charge_fields [simp]:
  "sv_opts (charge n sv) = sv_opts sv" "sv_heap (charge n sv) = sv_heap sv"
  "sv_closed (charge n sv) = sv_closed sv"
  "sv_linkHeap (charge n sv) = sv_linkHeap sv" "sv_sessions (charge n sv) = sv_sessions sv"
  "sv_byHandle (charge n sv) = sv_byHandle sv" "sv_links (charge n sv) = sv_links sv"
  "live (charge n sv) j = live sv j" "sess (charge n sv) j = sess sv j"
  "b_used (sv_budget (charge n sv)) = b_used (sv_budget sv) + n"
  "b_max (sv_budget (charge n sv)) = b_max (sv_budget sv)"
  by (simp_all add: charge_def live_def sess_def)

lemma charge_zero [simp]: "charge 0 sv = sv"
  by (simp add: charge_def)

lemma upd_link_fields [simp]:
  "sv_opts (upd_link l g sv) = sv_opts sv" "sv_heap (upd_link l g sv) = sv_heap sv"
  "sv_budget (upd_link l g sv) = sv_budget sv" "sv_closed (upd_link l g sv) = sv_closed sv"
  "sv_sessions (upd_link l g sv) = sv_sessions sv" "sv_byHandle (upd_link l g sv) = sv_byHandle sv"
  "sv_links (upd_link l g sv) = sv_links sv" "live (upd_link l g sv) j = live sv j"
  "sess (upd_link l g sv) j = sess sv j"
  "length (sv_linkHeap (upd_link l g sv)) = length (sv_linkHeap sv)"
  by (simp_all add: upd_link_def live_def sess_def)

lemma upd_link_nth:
  "sv_linkHeap (upd_link l g sv) ! j =
     (if j = l \<and> l < length (sv_linkHeap sv) then g (sv_linkHeap sv ! l) else sv_linkHeap sv ! j)"
  by (cases "l < length (sv_linkHeap sv)") (auto simp: upd_link_def nth_list_update list_update_beyond)

lemma heap_bytes_upd [simp]: "heap_bytes (upd_link l g sv) = heap_bytes sv"
  "heap_bytes (charge n sv) = heap_bytes sv"
  by (simp_all add: heap_bytes_def)

lemma sum_list_int_update:
  "i < length (xs :: int list) \<Longrightarrow> sum_list (xs[i := v]) = sum_list xs - xs ! i + v"
  by (induction xs arbitrary: i) (auto split: nat.splits)

lemma heap_bytes_set_sess:
  "i < length (sv_heap sv) \<Longrightarrow>
     heap_bytes (set_sess i s sv) = heap_bytes sv - lb_bytes (s_buf (sess sv i)) + lb_bytes (s_buf s)"
  using sum_list_int_update[of i "map (\<lambda>s. lb_bytes (s_buf s)) (sv_heap sv)" "lb_bytes (s_buf s)"]
  by (simp add: heap_bytes_def set_sess_def sess_def map_update)

text \<open>A session moves, and the budget is charged what its backlog changed by.\<close>

lemma inv_move:
  assumes inv: "server_inv sv" and i: "i < length (sv_heap sv)" and mv: "sess_move (sess sv i) s"
    and lk: "s_link s = s_link (sess sv i) \<or> s_link s = None"
    and c: "c = lb_bytes (s_buf s) - lb_bytes (s_buf (sess sv i))"
  shows "server_inv (charge c (set_sess i s sv))"
proof -
  let ?sv = "charge c (set_sess i s sv)"
  have k: "keeps (sess sv i) s" and ok: "sess_ok s"
    using mv server_invD(1)[OF inv i] by (simp_all add: sess_move_def)
  have "heap_ok ?sv" using inv i ok by (simp add: server_inv_def heap_ok_def)
  moreover have "b_used (sv_budget ?sv) = heap_bytes ?sv"
    using inv i c by (simp add: server_inv_def heap_bytes_set_sess)
  moreover have "idx_ok ?sv"
    using server_invD(3)[OF inv] i k unfolding idx_ok_def by (auto simp: keeps_def)
  moreover have "link_ok ?sv"
  proof (rule link_okI)
    note d = link_okD[OF server_invD(4)[OF inv]]
    fix j l'
    assume j: "j < length (sv_heap ?sv)" "s_link (sess ?sv j) = Some l'"
    then have j': "j < length (sv_heap sv)" "s_link (sess sv j) = Some l'"
      using i lk by (auto split: if_splits)
    show "l' < length (sv_linkHeap ?sv)" using d(1)[OF j'] by simp
    show "lk_instance (sv_linkHeap ?sv ! l') = s_instance (sess ?sv j)"
      using d(2)[OF j'] i k by (simp add: keeps_def)
    show "j \<in> set (lk_sessions (sv_linkHeap ?sv ! l'))"
      if "live ?sv j" "\<not> lk_done (sv_linkHeap ?sv ! l')" using d(3)[OF j'] that by simp
  qed (use link_okD(4-6)[OF server_invD(4)[OF inv]] in simp_all)
  ultimately show ?thesis by (simp add: server_inv_def)
qed

lemma inv_move_same:
  assumes "server_inv sv" "i < length (sv_heap sv)" "sess_move (sess sv i) s"
    and "s_link s = s_link (sess sv i) \<or> s_link s = None" "s_buf s = s_buf (sess sv i)"
  shows "server_inv (set_sess i s sv)"
  using inv_move[OF assms(1-4), of 0] assms(5) by simp

text \<open>Updates of a link that keep its instance, its done flag and the sessions it must list.\<close>

lemma inv_upd_link:
  assumes inv: "server_inv sv"
    and "\<And>k. lk_instance (g k) = lk_instance k" "\<And>k. lk_done (g k) = lk_done k"
    and keep: "\<And>i. live sv i \<Longrightarrow> s_link (sess sv i) = Some l \<Longrightarrow>
        i \<in> set (lk_sessions (sv_linkHeap sv ! l)) \<Longrightarrow> i \<in> set (lk_sessions (g (sv_linkHeap sv ! l)))"
    and alloc: "\<And>i. i \<in> set (lk_sessions (g (sv_linkHeap sv ! l))) \<Longrightarrow>
        i \<in> set (lk_sessions (sv_linkHeap sv ! l)) \<or> i < length (sv_heap sv)"
  shows "server_inv (upd_link l g sv)"
proof -
  have "link_ok (upd_link l g sv)"
  proof (rule link_okI)
    note d = link_okD[OF server_invD(4)[OF inv]]
    fix j l'
    assume j: "j < length (sv_heap (upd_link l g sv))" "s_link (sess (upd_link l g sv) j) = Some l'"
    then have j': "j < length (sv_heap sv)" "s_link (sess sv j) = Some l'" by simp_all
    show "l' < length (sv_linkHeap (upd_link l g sv))" using d(1)[OF j'] by simp
    show "lk_instance (sv_linkHeap (upd_link l g sv) ! l') = s_instance (sess (upd_link l g sv) j)"
      using d(2)[OF j'] assms(2) by (auto simp: upd_link_nth)
    show "j \<in> set (lk_sessions (sv_linkHeap (upd_link l g sv) ! l'))"
      if "live (upd_link l g sv) j" "\<not> lk_done (sv_linkHeap (upd_link l g sv) ! l')"
      using d(3)[OF j'] that assms(3) keep[of j] j'(2) by (auto simp: upd_link_nth split: if_splits)
  next
    note d = link_okD[OF server_invD(4)[OF inv]]
    fix l' j
    assume l': "l' < length (sv_linkHeap (upd_link l g sv))"
    show "CHR 0x00 \<notin> set (lk_instance (sv_linkHeap (upd_link l g sv) ! l'))"
      using d(4)[of l'] l' assms(2) by (auto simp: upd_link_nth)
    show "j < length (sv_heap (upd_link l g sv))"
      if "j \<in> set (lk_sessions (sv_linkHeap (upd_link l g sv) ! l'))"
      using d(5)[of l' j] l' alloc[of j] that by (auto simp: upd_link_nth split: if_splits)
  next
    fix l'
    show "l' \<in> set (sv_links (upd_link l g sv)) \<longleftrightarrow>
      l' < length (sv_linkHeap (upd_link l g sv)) \<and> \<not> lk_done (sv_linkHeap (upd_link l g sv) ! l')"
      using link_okD(6)[OF server_invD(4)[OF inv], of l'] assms(3) by (auto simp: upd_link_nth)
  qed
  moreover have "heap_ok (upd_link l g sv)" "idx_ok (upd_link l g sv)"
    using inv by (simp_all add: server_inv_def heap_ok_def idx_ok_def)
  ultimately show ?thesis using inv by (simp add: server_inv_def)
qed

lemma inv_link_send: "server_inv sv \<Longrightarrow> server_inv (link_send l f sv)"
  unfolding link_send_def by (rule inv_upd_link) auto

lemma inv_addSession: "server_inv sv \<Longrightarrow> i < length (sv_heap sv) \<Longrightarrow> server_inv (addSession l i sv)"
  unfolding addSession_def by (rule inv_upd_link) auto

lemma inv_removeSession:
  "server_inv sv \<Longrightarrow> \<not> live sv i \<or> s_link (sess sv i) \<noteq> Some l \<Longrightarrow> server_inv (removeSession l i sv)"
  unfolding removeSession_def by (rule inv_upd_link) auto

lemma link_ops_fields [simp]:
  "sv_heap (link_send l f sv) = sv_heap sv" "sess (link_send l f sv) i = sess sv i"
  "sv_heap (addSession l j sv) = sv_heap sv" "sess (addSession l j sv) i = sess sv i"
  "sv_heap (removeSession l j sv) = sv_heap sv" "sess (removeSession l j sv) i = sess sv i"
  "live (link_send l f sv) i = live sv i" "live (removeSession l j sv) i = live sv i"
  "live (addSession l j sv) i = live sv i"
  "sv_byHandle (link_send l f sv) = sv_byHandle sv" "sv_byHandle (removeSession l j sv) = sv_byHandle sv"
  "sv_sessions (link_send l f sv) = sv_sessions sv" "sv_sessions (removeSession l j sv) = sv_sessions sv"
  "sv_byHandle (addSession l j sv) = sv_byHandle sv" "sv_sessions (addSession l j sv) = sv_sessions sv"
  by (simp_all add: link_send_def addSession_def removeSession_def)

section \<open>Forgetting, taking over, opening\<close>

text \<open>The session after it was forgotten, and the rest of the server.\<close>

lemma forgetLocked_fields:
  assumes "i < length (sv_heap sv)"
  shows "sess (forgetLocked i sv) j
      = (if j = i then (sess sv i)\<lparr>s_buf := snd (clear_buffer (s_buf (sess sv i)))\<rparr> else sess sv j)"
    and "sv_sessions (forgetLocked i sv) = (if sv_sessions sv (s_key (sess sv i)) = Some i
          then (sv_sessions sv)(s_key (sess sv i) := None) else sv_sessions sv)"
    and "sv_byHandle (forgetLocked i sv) h
      = (if h \<in> set (s_handles (sess sv i)) \<and> sv_byHandle sv h = Some i then None else sv_byHandle sv h)"
    and "live (forgetLocked i sv) j \<longleftrightarrow> live sv j \<and> j \<noteq> i"
    and "length (sv_heap (forgetLocked i sv)) = length (sv_heap sv)"
    and "sv_linkHeap (forgetLocked i sv) = sv_linkHeap sv" and "sv_links (forgetLocked i sv) = sv_links sv"
    and "b_used (sv_budget (forgetLocked i sv)) = b_used (sv_budget sv) - lb_bytes (s_buf (sess sv i))"
    and "b_max (sv_budget (forgetLocked i sv)) = b_max (sv_budget sv)"
    and "sv_opts (forgetLocked i sv) = sv_opts sv" "sv_closed (forgetLocked i sv) = sv_closed sv"
    and "heap_bytes (forgetLocked i sv) = heap_bytes sv - lb_bytes (s_buf (sess sv i))"
proof -
  show "heap_bytes (forgetLocked i sv) = heap_bytes sv - lb_bytes (s_buf (sess sv i))"
    using assms heap_bytes_set_sess[OF assms, of "(sess sv i)\<lparr>s_buf := \<lparr>lb_lines = [], lb_bytes = 0\<rparr>\<rparr>"]
    by (simp add: forgetLocked_def Let_def clear_buffer_def heap_bytes_def refund_def charge_def
        unregister_def set_sess_def)
qed (use assms in \<open>auto simp: forgetLocked_def Let_def clear_buffer_def refund_def charge_def
       unregister_def set_sess_def sess_def live_def\<close>)

lemma inv_forget:
  assumes inv: "server_inv sv" and i: "i < length (sv_heap sv)"
    and closed: "s_state (sess sv i) = StateClosed"
  shows "server_inv (forgetLocked i sv)"
proof -
  note f = forgetLocked_fields[OF i]
  have ok: "sess_ok (sess sv i)" by (rule server_invD(1)[OF inv i])
  then have hs: "s_handle (sess sv i) \<in> set (s_handles (sess sv i))"
    by (auto simp: sess_ok_def replay_inv_def dest: last_in_set)
  have "sess_ok ((sess sv i)\<lparr>s_buf := snd (clear_buffer (s_buf (sess sv i)))\<rparr>)"
    using ok move_clear[of "sess sv i"] by (simp add: sess_move_def)
  then have "heap_ok (forgetLocked i sv)"
    using inv by (simp add: server_inv_def heap_ok_def f(1,5))
  moreover have "idx_ok (forgetLocked i sv)"
  proof (rule idx_okI)
    note d = idx_okD[OF server_invD(3)[OF inv]]
    show "j < length (sv_heap (forgetLocked i sv))" if "live (forgetLocked i sv) j" for j
      using that d(1) by (simp add: f(4,5))
    show "sv_sessions (forgetLocked i sv) (s_key (sess (forgetLocked i sv) j)) = Some j"
      if "live (forgetLocked i sv) j" for j
      using that d(2)[of j] by (auto simp: f(1,2,4))
    show "sv_byHandle (forgetLocked i sv) (s_handle (sess (forgetLocked i sv) j)) = Some j"
      if "live (forgetLocked i sv) j" for j
      using that d(3)[of j] by (auto simp: f(1,3,4))
    show "live (forgetLocked i sv) j \<and> s_key (sess (forgetLocked i sv) j) = k"
      if "sv_sessions (forgetLocked i sv) k = Some j" for j k
      using that d(4)[of k j] by (auto simp: f(1,2,4) split: if_splits)
    show "live (forgetLocked i sv) j \<and> s_handle (sess (forgetLocked i sv) j) = h"
      if "sv_byHandle (forgetLocked i sv) h = Some j" for j h
      using that d(5)[of h j] hs by (auto simp: f(1,3,4) split: if_splits)
    show "s_state (sess (forgetLocked i sv) j) = StateClosed
        \<and> buf_len (s_buf (sess (forgetLocked i sv) j)) = 0"
      if "j < length (sv_heap (forgetLocked i sv))" "\<not> live (forgetLocked i sv) j" for j
      using that d(6)[of j] closed by (auto simp: f(1,4,5) clear_buffer_def buf_len_def)
  qed
  moreover have "link_ok (forgetLocked i sv)"
  proof -
    note d = link_okD[OF server_invD(4)[OF inv]]
    have same: "s_link (sess (forgetLocked i sv) j) = s_link (sess sv j)"
      "s_instance (sess (forgetLocked i sv) j) = s_instance (sess sv j)" for j by (simp_all add: f(1))
    show ?thesis by (rule link_okI; unfold same f(5-7)) (use d f(4) in blast)+
  qed
  ultimately show ?thesis using inv f(8,12) by (simp add: server_inv_def)
qed

lemma attachLocked_fields [simp]:
  "s_key (attachLocked now l h s) = s_key s" "s_instance (attachLocked now l h s) = s_instance s"
  "s_id (attachLocked now l h s) = s_id s" "s_handle (attachLocked now l h s) = h"
  "s_link (attachLocked now l h s) = Some l" "s_buf (attachLocked now l h s) = s_buf s"
  "s_state (attachLocked now l h s) = s_state s"
  by (simp_all add: attachLocked_def Let_def)

lemma attachLocked_ok: "sess_ok s \<Longrightarrow> sess_ok (attachLocked now l h s)"
  by (auto simp: sess_ok_def attachLocked_inv attachLocked_replay) (simp add: ctrl_ok_def attachLocked_def Let_def)

lemma inv_tell_detached:
  assumes "server_inv sv" "s_link (sess sv i) = None"
  shows "server_inv (tell_detached holder i h why sv)"
  using assms by (auto simp: tell_detached_def intro!: inv_link_send inv_removeSession split: option.splits)

lemma tell_detached_fields [simp]:
  "sv_heap (tell_detached h i o1 w sv) = sv_heap sv" "sess (tell_detached h i o1 w sv) j = sess sv j"
  "live (tell_detached h i o1 w sv) j = live sv j"
  "sv_byHandle (tell_detached h i o1 w sv) = sv_byHandle sv"
  "sv_sessions (tell_detached h i o1 w sv) = sv_sessions sv"
  "sv_budget (tell_detached h i o1 w sv) = sv_budget sv" "sv_links (tell_detached h i o1 w sv) = sv_links sv"
  "sv_opts (tell_detached h i o1 w sv) = sv_opts sv" "sv_closed (tell_detached h i o1 w sv) = sv_closed sv"
  "length (sv_linkHeap (tell_detached h i o1 w sv)) = length (sv_linkHeap sv)"
  "lk_instance (sv_linkHeap (tell_detached h i o1 w sv) ! l) = lk_instance (sv_linkHeap sv ! l)"
  "lk_done (sv_linkHeap (tell_detached h i o1 w sv) ! l) = lk_done (sv_linkHeap sv ! l)"
  "lk_gen (sv_linkHeap (tell_detached h i o1 w sv) ! l) = lk_gen (sv_linkHeap sv ! l)"
  by (simp_all add: tell_detached_def link_send_def removeSession_def upd_link_nth split: option.splits)

lemma tell_detached_sessions:
  "j \<noteq> i \<Longrightarrow> j \<in> set (lk_sessions (sv_linkHeap (tell_detached h i o1 w sv) ! l))
     \<longleftrightarrow> j \<in> set (lk_sessions (sv_linkHeap sv ! l))"
  by (simp add: tell_detached_def link_send_def removeSession_def upd_link_nth split: option.splits)

text \<open>The session is re-claimed: first out of the old holder's list, then into the new one's.\<close>

lemma inv_take_over:
  assumes inv: "server_inv sv" and i: "i < length (sv_heap sv)" and l: "l < length (sv_linkHeap sv)"
    and li: "live sv i" and inst: "lk_instance (sv_linkHeap sv ! l) = s_instance (sess sv i)"
    and h: "sv_byHandle sv (f_handle f) = None"
  shows "server_inv (take_over now l f i sv)"
proof -
  let ?s = "attachLocked now l (f_handle f) (sess sv i)"
  let ?sv1 = "tell_detached (s_link (sess sv i)) i (s_handle (sess sv i)) ''taken over by a newer connect'' sv"
  let ?sv' = "take_over now l f i sv"
  have sv': "?sv' = addSession l i ((set_sess i ?s ?sv1)\<lparr>sv_byHandle
      := (sv_byHandle sv)(s_handle (sess sv i) := None, f_handle f := Some i)\<rparr>)"
    using server_invD(3)[OF inv] li by (simp add: take_over_def Let_def idx_ok_def)
  have f: "sess ?sv' j = (if j = i then ?s else sess sv j)" "live ?sv' j = live sv j"
    "length (sv_heap ?sv') = length (sv_heap sv)" "sv_sessions ?sv' = sv_sessions sv" for j
    using i unfolding sv' by (simp_all add: sess_def set_sess_def live_def addSession_def)
  have bh: "sv_byHandle ?sv' = (sv_byHandle sv)(s_handle (sess sv i) := None, f_handle f := Some i)"
    unfolding sv' by simp
  have "sess_ok ?s" using attachLocked_ok server_invD(1)[OF inv i] by blast
  then have "heap_ok ?sv'" using inv by (simp add: server_inv_def heap_ok_def f)
  moreover have "b_used (sv_budget ?sv') = heap_bytes ?sv'"
  proof -
    have "heap_bytes ?sv' = heap_bytes (set_sess i ?s sv)" unfolding sv'
      by (simp add: heap_bytes_def set_sess_def)
    then show ?thesis using inv i unfolding sv'
      by (simp add: server_inv_def heap_bytes_set_sess addSession_def)
  qed
  moreover have "idx_ok ?sv'"
  proof (rule idx_okI)
    note d = idx_okD[OF server_invD(3)[OF inv]]
    show "j < length (sv_heap ?sv')" if "live ?sv' j" for j using that d(1)[of j] by (simp add: f)
    show "sv_sessions ?sv' (s_key (sess ?sv' j)) = Some j" if "live ?sv' j" for j
      using that d(2)[of j] by (auto simp: f)
    show "sv_byHandle ?sv' (s_handle (sess ?sv' j)) = Some j" if "live ?sv' j" for j
      using that d(3)[of j] d(3)[OF li] h by (auto simp: f bh)
    show "live ?sv' j \<and> s_key (sess ?sv' j) = k" if "sv_sessions ?sv' k = Some j" for j k
      using that d(4)[of k j] by (auto simp: f)
    show "live ?sv' j \<and> s_handle (sess ?sv' j) = hd" if "sv_byHandle ?sv' hd = Some j" for j hd
      using that d(5)[of hd j] li by (auto simp: f bh split: if_splits)
    show "s_state (sess ?sv' j) = StateClosed \<and> buf_len (s_buf (sess ?sv' j)) = 0"
      if "j < length (sv_heap ?sv')" "\<not> live ?sv' j" for j
      using that d(6)[of j] li by (auto simp: f)
  qed
  moreover have "link_ok ?sv'"
  proof -
    note d = link_okD[OF server_invD(4)[OF inv]]
    have lk: "lk_instance (sv_linkHeap ?sv' ! k) = lk_instance (sv_linkHeap sv ! k)"
      "lk_done (sv_linkHeap ?sv' ! k) = lk_done (sv_linkHeap sv ! k)"
      "length (sv_linkHeap ?sv') = length (sv_linkHeap sv)" "sv_links ?sv' = sv_links sv" for k
      unfolding sv' by (simp_all add: addSession_def upd_link_nth)
    have ls: "j \<noteq> i \<Longrightarrow> j \<in> set (lk_sessions (sv_linkHeap sv ! k)) \<Longrightarrow>
        j \<in> set (lk_sessions (sv_linkHeap ?sv' ! k))" "i \<in> set (lk_sessions (sv_linkHeap ?sv' ! l))" for j k
      using l unfolding sv' by (auto simp: addSession_def upd_link_nth tell_detached_sessions)
    have sub: "j \<in> set (lk_sessions (sv_linkHeap ?sv' ! k)) \<Longrightarrow> j = i \<or> j \<in> set (lk_sessions (sv_linkHeap sv ! k))"
      for j k unfolding sv' using tell_detached_sessions[of j i]
      by (cases "j = i") (auto simp: addSession_def upd_link_nth split: if_splits)
    show ?thesis
    proof (rule link_okI)
      fix j l'
      assume j: "j < length (sv_heap ?sv')" "s_link (sess ?sv' j) = Some l'"
      then show "l' < length (sv_linkHeap ?sv')" using d(1)[of j l'] l by (auto simp: f lk split: if_splits)
      show "lk_instance (sv_linkHeap ?sv' ! l') = s_instance (sess ?sv' j)"
        using j d(2)[of j l'] inst by (auto simp: f lk split: if_splits)
      show "j \<in> set (lk_sessions (sv_linkHeap ?sv' ! l'))"
        if "live ?sv' j" "\<not> lk_done (sv_linkHeap ?sv' ! l')"
        using that j d(3)[of j l'] ls by (auto simp: f lk split: if_splits)
    next
      fix l' j
      assume l': "l' < length (sv_linkHeap ?sv')"
      then show "CHR 0x00 \<notin> set (lk_instance (sv_linkHeap ?sv' ! l'))" using d(4) by (simp add: lk)
      show "j < length (sv_heap ?sv')" if "j \<in> set (lk_sessions (sv_linkHeap ?sv' ! l'))"
        using sub[OF that] d(5)[of l' j] l' i by (auto simp: f lk)
    qed (use d(6) in \<open>simp add: lk\<close>)
  qed
  ultimately show ?thesis by (simp add: server_inv_def)
qed

lemma newSession_fields [simp]:
  "s_key (newSession now l inst f key) = key" "s_instance (newSession now l inst f key) = inst"
  "s_id (newSession now l inst f key) = f_id f" "s_handle (newSession now l inst f key) = f_handle f"
  "s_link (newSession now l inst f key) = Some l" "s_buf (newSession now l inst f key) = empty_buffer"
  "s_ctrl (newSession now l inst f key) = []"
  by (simp_all add: newSession_def)

lemma inv_open_new:
  assumes inv: "server_inv sv" and l: "l < length (sv_linkHeap sv)"
    and key: "key = sess_key (lk_instance (sv_linkHeap sv ! l)) (f_id f)"
    and free: "sv_sessions sv key = None" "sv_byHandle sv (f_handle f) = None"
  shows "server_inv (open_new now l f key sv)"
proof -
  let ?inst = "lk_instance (sv_linkHeap sv ! l)" and ?n = "length (sv_heap sv)"
  let ?s = "newSession now l ?inst f key" and ?sv' = "open_new now l f key sv"
  have inst: "CHR 0x00 \<notin> set ?inst" by (rule link_okD(4)[OF server_invD(4)[OF inv] l])
  have nl: "\<not> live sv ?n" using server_invD(3)[OF inv] by (auto simp: idx_ok_def)
  have f: "\<And>j. j < ?n \<Longrightarrow> sess ?sv' j = sess sv j" "sess ?sv' ?n = ?s"
    "length (sv_heap ?sv') = Suc ?n" "\<And>j. live ?sv' j \<longleftrightarrow> live sv j \<or> j = ?n"
    "sv_sessions ?sv' = (sv_sessions sv)(key := Some ?n)"
    "sv_byHandle ?sv' = (sv_byHandle sv)(f_handle f := Some ?n)"
    by (auto simp: open_new_def Let_def sess_def register_def live_def addSession_def nth_append)
  have "sess_ok ?s" using inst key by (simp add: sess_ok_def ctrl_ok_def)
  then have "heap_ok ?sv'" using inv f(1-3) by (auto simp: server_inv_def heap_ok_def less_Suc_eq)
  moreover have "b_used (sv_budget ?sv') = heap_bytes ?sv'"
    using inv by (simp add: server_inv_def open_new_def Let_def register_def addSession_def heap_bytes_def
        empty_buffer_def upd_link_def)
  moreover have "idx_ok ?sv'"
  proof (rule idx_okI)
    note d = idx_okD[OF server_invD(3)[OF inv]]
    show "j < length (sv_heap ?sv')" if "live ?sv' j" for j using that d(1)[of j] by (auto simp: f(3,4))
    show "sv_sessions ?sv' (s_key (sess ?sv' j)) = Some j" if "live ?sv' j" for j
      using that d(1,2)[of j] free(1) by (auto simp: f)
    show "sv_byHandle ?sv' (s_handle (sess ?sv' j)) = Some j" if "live ?sv' j" for j
      using that d(1,3)[of j] free(2) by (auto simp: f)
    show "live ?sv' j \<and> s_key (sess ?sv' j) = k" if "sv_sessions ?sv' k = Some j" for j k
      using that d(4)[of k j] d(1)[of j] by (auto simp: f split: if_splits)
    show "live ?sv' j \<and> s_handle (sess ?sv' j) = h" if "sv_byHandle ?sv' h = Some j" for j h
      using that d(5)[of h j] d(1)[of j] by (auto simp: f split: if_splits)
    show "s_state (sess ?sv' j) = StateClosed \<and> buf_len (s_buf (sess ?sv' j)) = 0"
      if "j < length (sv_heap ?sv')" "\<not> live ?sv' j" for j
      using that d(6)[of j] by (auto simp: f less_Suc_eq)
  qed
  moreover have "link_ok ?sv'"
  proof -
    have lk: "sv_linkHeap ?sv' ! k = (if k = l then (sv_linkHeap sv ! l)\<lparr>lk_sessions :=
        List.insert ?n (lk_sessions (sv_linkHeap sv ! l))\<rparr> else sv_linkHeap sv ! k)"
      "length (sv_linkHeap ?sv') = length (sv_linkHeap sv)" "sv_links ?sv' = sv_links sv" for k
      using l by (simp_all add: open_new_def Let_def register_def addSession_def upd_link_nth)
    note d = link_okD[OF server_invD(4)[OF inv]]
    show ?thesis
    proof (rule link_okI)
      fix j l'
      assume j: "j < length (sv_heap ?sv')" "s_link (sess ?sv' j) = Some l'"
      show "l' < length (sv_linkHeap ?sv')" using j d(1)[of j l'] l f(1,2) by (auto simp: f(3) lk less_Suc_eq)
      show "lk_instance (sv_linkHeap ?sv' ! l') = s_instance (sess ?sv' j)"
        using j d(2)[of j l'] f(1,2) by (auto simp: f(3) lk less_Suc_eq)
      show "j \<in> set (lk_sessions (sv_linkHeap ?sv' ! l'))"
        if "live ?sv' j" "\<not> lk_done (sv_linkHeap ?sv' ! l')"
        using that j d(3)[of j l'] f(1,2) by (auto simp: f(3,4) lk less_Suc_eq split: if_splits)
    next
      fix l' j
      assume l': "l' < length (sv_linkHeap ?sv')"
      then show "CHR 0x00 \<notin> set (lk_instance (sv_linkHeap ?sv' ! l'))" using d(4)[of l'] by (auto simp: lk)
      show "j < length (sv_heap ?sv')" if "j \<in> set (lk_sessions (sv_linkHeap ?sv' ! l'))"
        using that d(5)[of l' j] l' by (auto simp: f(3) lk split: if_splits)
    qed (use d(6) in \<open>auto simp: lk\<close>)
  qed
  ultimately show ?thesis by (simp add: server_inv_def)
qed

section \<open>Every handler keeps the invariant\<close>

lemma move_closed [simp]: "s_state (snd (shutdown reason s)) = StateClosed"
  by (simp add: shutdown_def)

lemma shutdown_buf [simp]: "s_buf (snd (shutdown reason s)) = s_buf s"
  by (simp add: shutdown_def)

lemma detach_fields [simp]:
  "s_buf (fst (detachLocked now l s)) = s_buf s" "s_state (fst (detachLocked now l s)) = s_state s"
  "snd (detachLocked now l s) \<longleftrightarrow> s_link s = Some l"
  "s_link (fst (detachLocked now l s)) = (if s_link s = Some l then None else s_link s)"
  by (simp_all add: detachLocked_def)

lemma set_tell_detached:
  "set_sess i s (tell_detached holder j h why sv) = tell_detached holder j h why (set_sess i s sv)"
  by (simp add: tell_detached_def set_sess_def link_send_def removeSession_def upd_link_def split: option.splits)

lemma inv_replace_old:
  assumes inv: "server_inv sv" and i: "i < length (sv_heap sv)"
  shows "server_inv (replace_old now i sv)"
proof -
  let ?s = "case s_link (sess sv i) of Some l' \<Rightarrow> fst (detachLocked now l' (sess sv i)) | None \<Rightarrow> sess sv i"
  let ?s' = "snd (shutdown ''replaced by a new connection'' ?s)"
  have mv: "sess_move (sess sv i) ?s'"
    by (rule sess_move_trans[OF _ move_shutdown]) (auto simp: move_detach split: option.splits)
  have lk: "s_link ?s' = None" by (auto split: option.splits)
  have "server_inv (set_sess i ?s' sv)"
    by (rule inv_move_same[OF inv i mv]) (use lk in \<open>auto split: option.splits\<close>)
  then have "server_inv (tell_detached (s_link (sess sv i)) i (s_handle (sess sv i))
      ''replaced by a new connection'' (set_sess i ?s' sv))"
    by (rule inv_tell_detached) (use lk i in simp)
  then have "server_inv (forgetLocked i (tell_detached (s_link (sess sv i)) i (s_handle (sess sv i))
      ''replaced by a new connection'' (set_sess i ?s' sv)))"
    by (rule inv_forget) (use i in simp_all)
  then show ?thesis by (simp add: replace_old_def Let_def set_tell_detached)
qed

lemma inv_release:
  assumes "server_inv sv" "i < length (sv_heap sv)" "s_state (sess sv i) = StateClosed"
  shows "server_inv (release l i sv)"
  using assms by (auto simp: release_def inv_forget split: option.splits)

lemma inv_endSession:
  assumes "server_inv sv" "i < length (sv_heap sv)"
  shows "server_inv (endSession i reason sv)"
proof (cases "s_state (sess sv i) = StateClosed")
  case False
  then have "endSession i reason sv
      = release (s_link (sess sv i)) i (set_sess i (snd (shutdown reason (sess sv i))) sv)"
    by (simp add: endSession_def shutdown_def)
  moreover have "server_inv (set_sess i (snd (shutdown reason (sess sv i))) sv)"
    using assms by (intro inv_move_same move_shutdown) simp_all
  ultimately show ?thesis using assms inv_release by simp
qed (use assms in \<open>simp add: endSession_def shutdown_def\<close>)

lemma enqueueWrite_buf [simp]: "s_buf (fst (enqueueWrite line s)) = s_buf s"
  by (simp add: enqueueWrite_def)

lemma inv_server_write:
  assumes "server_inv sv" "i < length (sv_heap sv)"
  shows "server_inv (server_write i line sv)"
proof -
  have "server_inv (set_sess i (fst (enqueueWrite line (sess sv i))) sv)"
    using assms by (intro inv_move_same move_enqueue) simp_all
  then show ?thesis using assms by (simp add: server_write_def split_beta Let_def inv_endSession)
qed

lemma ack_bytes:
  assumes "sess_ok s"
  shows "- fst (ack h n s) = lb_bytes (s_buf (snd (ack h n s))) - lb_bytes (s_buf s)"
proof (cases "h \<notin> set (s_handles s) \<or> n \<le> s_acked s \<or> s_seq s < n")
  case False
  then show ?thesis by (simp add: ack_def split_beta ackThrough_def Let_def)
qed (simp add: ack_def)

lemma inv_handleAck:
  assumes inv: "server_inv sv"
  shows "server_inv (handleAck l f sv)"
proof (cases "sv_sessions sv (sess_key (lk_instance (sv_linkHeap sv ! l)) (f_id f))")
  case (Some i)
  then have i: "i < length (sv_heap sv)" using server_invD(5)[OF inv] by blast
  have ok: "sess_ok (sess sv i)" by (rule server_invD(1)[OF inv i])
  from inv_move[OF inv i move_ack[OF ok] _ ack_bytes[OF ok], of "f_handle f" "f_seq f"] Some
  show ?thesis by (simp add: handleAck_def split_beta Let_def refund_def)
qed (use inv in \<open>simp add: handleAck_def\<close>)

lemma inv_handleWrite:
  assumes "server_inv sv"
  shows "server_inv (handleWrite l f sv)"
  using assms server_invD(6)[OF assms, of "f_handle f"]
  by (auto simp: handleWrite_def Let_def inv_server_write split: option.splits)

lemma inv_handleDetach:
  assumes inv: "server_inv sv"
  shows "server_inv (handleDetach now l f sv)"
proof (cases "sv_byHandle sv (f_handle f)")
  case (Some i)
  then have i: "i < length (sv_heap sv)" using server_invD(6)[OF inv] by blast
  let ?s = "fst (detachLocked now l (sess sv i))"
  show ?thesis
  proof (cases "s_handle (sess sv i) = f_handle f \<and> s_link (sess sv i) = Some l")
    case True
    have "server_inv (set_sess i ?s sv)"
      using True by (intro inv_move_same[OF inv i] move_detach) simp_all
    then have "server_inv (removeSession l i (set_sess i ?s sv))"
      by (rule inv_removeSession) (use True i in simp)
    then show ?thesis using True Some i inv_forget[of "removeSession l i (set_sess i ?s sv)" i]
      by (simp add: handleDetach_def Let_def)
  qed (use Some inv in \<open>auto simp: handleDetach_def\<close>)
qed (use inv in \<open>simp add: handleDetach_def\<close>)

lemma inv_handleClose:
  assumes inv: "server_inv sv"
  shows "server_inv (handleClose now l f sv)"
proof (cases "sv_sessions sv (sess_key (lk_instance (sv_linkHeap sv ! l)) (f_id f))")
  case (Some i)
  then have i: "i < length (sv_heap sv)" using server_invD(5)[OF inv] by blast
  let ?s = "snd (shutdown ''closed by stugan'' ((fst (detachLocked now l (sess sv i)))\<lparr>s_finished := True\<rparr>))"
  show ?thesis
  proof (cases "s_handle (sess sv i) = f_handle f \<and> (s_link (sess sv i) = None \<or> s_link (sess sv i) = Some l)")
    case True
    have mv: "sess_move (sess sv i) ?s"
      by (rule sess_move_trans[OF sess_move_trans[OF move_detach move_finish] move_shutdown])
    have "server_inv (set_sess i ?s sv)"
      using True by (intro inv_move_same[OF inv i mv]) auto
    then have "server_inv (removeSession l i (set_sess i ?s sv))"
      by (rule inv_removeSession) (use True i in auto)
    then have "server_inv (forgetLocked i (removeSession l i (set_sess i ?s sv)))"
      by (rule inv_forget) (use i in simp_all)
    then show ?thesis using True Some by (simp add: handleClose_def Let_def)
  qed (use Some inv in \<open>auto simp: handleClose_def Let_def\<close>)
qed (use inv in \<open>simp add: handleClose_def\<close>)

lemma replace_old_frees:
  assumes inv: "server_inv sv" and k: "sv_sessions sv key = Some i"
  shows "sv_sessions (replace_old now i sv) key = None"
    and "sv_byHandle sv h = None \<Longrightarrow> sv_byHandle (replace_old now i sv) h = None"
    and "length (sv_linkHeap (replace_old now i sv)) = length (sv_linkHeap sv)"
    and "lk_instance (sv_linkHeap (replace_old now i sv) ! l) = lk_instance (sv_linkHeap sv ! l)"
proof -
  have i: "i < length (sv_heap sv)" and ki: "s_key (sess sv i) = key" using server_invD(5)[OF inv k] by auto
  have [simp]: "s_key (fst (detachLocked now l' s)) = s_key s"
    "s_handles (fst (detachLocked now l' s)) = s_handles s"
    "s_key (snd (shutdown r s)) = s_key s" "s_handles (snd (shutdown r s)) = s_handles s" for l' s r
    by (simp_all add: detachLocked_def shutdown_def)
  show "sv_sessions (replace_old now i sv) key = None"
    using i ki k by (auto simp: replace_old_def Let_def forgetLocked_fields split: option.splits)
  show "sv_byHandle (replace_old now i sv) h = None" if "sv_byHandle sv h = None"
    using i that by (auto simp: replace_old_def Let_def forgetLocked_fields)
  show "length (sv_linkHeap (replace_old now i sv)) = length (sv_linkHeap sv)"
    "lk_instance (sv_linkHeap (replace_old now i sv) ! l) = lk_instance (sv_linkHeap sv ! l)"
    using i by (simp_all add: replace_old_def Let_def forgetLocked_fields)
qed

text \<open>Keys of different instances differ: an instance name holds no NUL byte.\<close>

lemma sess_key_inj:
  assumes "CHR 0x00 \<notin> set a" "CHR 0x00 \<notin> set b" "sess_key a x = sess_key b y"
  shows "a = b \<and> x = y"
proof -
  have cut: "str_cut (sess_key c z) CHR 0x00 = (c, z, True)" if "CHR 0x00 \<notin> set c" for c z
    using str_cut_append[OF that, of z] by (simp add: sess_key_def)
  have "(a, x, True) = (b, y, True)"
    using cut[OF assms(1), of x] cut[OF assms(2), of y] assms(3) by metis
  then show ?thesis by blast
qed

lemma key_instance:
  assumes inv: "server_inv sv" and l: "l < length (sv_linkHeap sv)"
    and k: "sv_sessions sv (sess_key (lk_instance (sv_linkHeap sv ! l)) x) = Some i"
  shows "lk_instance (sv_linkHeap sv ! l) = s_instance (sess sv i)" and "s_id (sess sv i) = x"
proof -
  have i: "i < length (sv_heap sv)"
    "s_key (sess sv i) = sess_key (lk_instance (sv_linkHeap sv ! l)) x" using server_invD(5)[OF inv k] by auto
  have nul: "CHR 0x00 \<notin> set (lk_instance (sv_linkHeap sv ! l))"
    by (rule link_okD(4)[OF server_invD(4)[OF inv] l])
  note ok = sess_okD(4,5)[OF server_invD(1)[OF inv i(1)]]
  have "s_instance (sess sv i) = lk_instance (sv_linkHeap sv ! l) \<and> s_id (sess sv i) = x"
    by (rule sess_key_inj[OF ok(2) nul]) (use ok(1) i(2) in simp)
  then show "lk_instance (sv_linkHeap sv ! l) = s_instance (sess sv i)" "s_id (sess sv i) = x" by simp_all
qed

lemma inv_connect_fail: "server_inv sv \<Longrightarrow> server_inv (connect_fail l f msg sv)"
  by (simp add: connect_fail_def inv_link_send)

text \<open>The outcomes of a connect, one rule per branch of the code.\<close>

lemma handleConnect_cases:
  obtains (refused) msg where "handleConnect now l f sv = connect_fail l f msg sv"
  | (fresh) key where "key = sess_key (lk_instance (sv_linkHeap sv ! l)) (f_id f)"
      "sv_sessions sv key = None" "sv_byHandle sv (f_handle f) = None"
      "handleConnect now l f sv = open_new now l f key sv"
  | (taken) i where
      "sv_sessions sv (sess_key (lk_instance (sv_linkHeap sv ! l)) (f_id f)) = Some i"
      "sv_byHandle sv (f_handle f) = None" "\<not> held_by_newer l i sv"
      "reusable (f_fingerprint f) (sess sv i)" "handleConnect now l f sv = take_over now l f i sv"
  | (replaced) key i where "key = sess_key (lk_instance (sv_linkHeap sv ! l)) (f_id f)"
      "sv_sessions sv key = Some i" "sv_byHandle sv (f_handle f) = None"
      "\<not> held_by_newer l i sv" "\<not> reusable (f_fingerprint f) (sess sv i)"
      "handleConnect now l f sv = open_new now l f key (replace_old now i sv)"
proof -
  let ?k = "sess_key (lk_instance (sv_linkHeap sv ! l)) (f_id f)"
  show thesis
  proof (cases "f_id f = [] \<or> f_handle f = [] \<or> f_addr f = [] \<or> split_host_port_error (f_addr f) \<noteq> None
      \<or> sv_closed sv \<or> sv_byHandle sv (f_handle f) \<noteq> None")
    case True
    then consider "f_id f = [] \<or> f_handle f = [] \<or> f_addr f = []"
      | e where "\<not> (f_id f = [] \<or> f_handle f = [] \<or> f_addr f = [])" "split_host_port_error (f_addr f) = Some e"
      | "\<not> (f_id f = [] \<or> f_handle f = [] \<or> f_addr f = [])" "split_host_port_error (f_addr f) = None"
        "sv_closed sv"
      | "\<not> (f_id f = [] \<or> f_handle f = [] \<or> f_addr f = [])" "split_host_port_error (f_addr f) = None"
        "\<not> sv_closed sv" "sv_byHandle sv (f_handle f) \<noteq> None" by blast
    then show thesis
      by cases (rule refused, simp only: handleConnect_def Let_def if_True if_False option.case simp_thms)+
  next
    case False
    then have hc: "handleConnect now l f sv = (case sv_sessions sv ?k of
          None \<Rightarrow> open_new now l f ?k sv
        | Some i \<Rightarrow> if held_by_newer l i sv
            then connect_fail l f ''connection is held by a newer stugan process'' sv
            else if reusable (f_fingerprint f) (sess sv i) then take_over now l f i sv
            else open_new now l f ?k (replace_old now i sv))"
      by (simp add: handleConnect_def Let_def)
    show thesis
    proof (cases "sv_sessions sv ?k")
      case None
      then show thesis using fresh[OF refl] False hc by simp
    next
      case (Some i)
      then show thesis using refused taken[OF Some] replaced[OF refl Some] False hc by (auto split: if_splits)
    qed
  qed
qed

lemma inv_handleConnect:
  assumes inv: "server_inv sv" and l: "l < length (sv_linkHeap sv)"
  shows "server_inv (handleConnect now l f sv)"
proof (cases rule: handleConnect_cases[of now l f sv])
  case (refused msg)
  then show ?thesis using inv_connect_fail[OF inv] by simp
next
  case (fresh key)
  then show ?thesis using inv_open_new[OF inv l] by simp
next
  case (taken i)
  note k = key_instance[OF inv l taken(1)] and ix = server_invD(5)[OF inv taken(1)]
  from inv_take_over[OF inv _ l _ k(1) taken(2)] ix taken(5) show ?thesis by simp
next
  case (replaced key i)
  have i: "i < length (sv_heap sv)" using server_invD(5)[OF inv replaced(2)] by simp
  note fr = replace_old_frees[OF inv replaced(2)]
  show ?thesis unfolding replaced(6)
    by (rule inv_open_new[OF inv_replace_old[OF inv i]]) (use l fr replaced in simp_all)
qed

lemma inv_handleFrame:
  assumes "server_inv sv" "l < length (sv_linkHeap sv)"
  shows "server_inv (handleFrame now l f sv)"
  using assms by (simp add: handleFrame_def inv_link_send inv_handleConnect inv_handleWrite inv_handleAck
      inv_handleDetach inv_handleClose split: op.splits)

section \<open>The background steps keep the invariant\<close>

lemma inv_server_dial:
  assumes "server_inv sv" "i < length (sv_heap sv)"
  shows "server_inv (server_dial i err sv)"
proof -
  have b: "s_buf (dial_done err (sess sv i)) = s_buf (sess sv i)"
    by (simp add: dial_done_def split: option.splits)
  have "server_inv (set_sess i (dial_done err (sess sv i)) sv)"
    using assms b by (intro inv_move_same move_dial) simp_all
  moreover have "s_state (sess sv i) \<noteq> StateClosed \<Longrightarrow> err = Some e \<Longrightarrow>
      s_state (dial_done err (sess sv i)) = StateClosed" for e
    by (simp add: dial_done_def)
  ultimately show ?thesis using assms
    by (auto simp: server_dial_def Let_def intro!: inv_release split: option.splits)
qed

lemma shedOldest_bytes:
  assumes "sess_ok s" "shedOldest s = Some (freed, s')"
  shows "- freed = lb_bytes (s_buf s') - lb_bytes (s_buf s)"
  using assms by (auto simp: shedOldest_def dropOldestLocked_def dropOldest_def buf_len_def
      split: if_splits list.splits)

lemma inv_reclaim_one: "server_inv sv \<Longrightarrow> reclaim_one sv = Some sv' \<Longrightarrow> server_inv sv'"
  by (auto simp: reclaim_one_def refund_def server_invD(1) split: option.splits if_splits
      intro!: inv_move move_shed shedOldest_bytes dest: shed_link)

lemma inv_reclaim: "server_inv sv \<Longrightarrow> server_inv (reclaim sv)"
proof (induction sv rule: reclaim.induct)
  case (1 sv)
  then show ?case
    by (subst reclaim.simps) (auto simp: inv_reclaim_one split: option.splits)
qed

lemma inv_server_ingest:
  assumes inv: "server_inv sv" and i: "i < length (sv_heap sv)"
  shows "server_inv (server_ingest now i raw sv)"
proof (cases "classify raw")
  case (Accept il)
  show ?thesis
  proof (cases "s_state (sess sv i) = StateOpen")
    case True
    have ok: "sess_ok (sess sv i)" by (rule server_invD(1)[OF inv i])
    let ?r = "accept_line (o_bufferBytes (sv_opts sv)) now il raw (sess sv i)"
    have "fst ?r = lb_bytes (s_buf (snd ?r)) - lb_bytes (s_buf (sess sv i))"
      using accept_line_spec[OF sess_okD(1)[OF ok]] by metis
    then have "server_inv (charge (fst ?r) (set_sess i (snd ?r) sv))"
      by (intro inv_move[OF inv i]) (use True ok accept_line_link move_accept in auto)
    then show ?thesis using Accept True by (simp add: server_ingest_def split_beta Let_def inv_reclaim)
  qed (use Accept inv in \<open>simp add: server_ingest_def\<close>)
qed (use inv i inv_server_write in \<open>simp_all add: server_ingest_def\<close>)

text \<open>The heap never shrinks and links keep their identity in the steps that loop over sessions.\<close>

lemma forget_length [simp]: "length (sv_heap (forgetLocked i sv)) = length (sv_heap sv)"
  by (simp add: forgetLocked_def Let_def clear_buffer_def refund_def charge_def unregister_def)

lemma endSession_length [simp]: "length (sv_heap (endSession i reason sv)) = length (sv_heap sv)"
  by (simp add: endSession_def release_def split_beta Let_def split: option.splits)

lemma release_held_length [simp]: "length (sv_heap (release_held now l i sv)) = length (sv_heap sv)"
  by (simp add: release_held_def split_beta Let_def)

text \<open>A fold of steps that keep the invariant and the heap's length keeps the invariant.\<close>

lemma inv_fold:
  assumes "server_inv sv" "\<forall>x\<in>set xs. at x < length (sv_heap sv)"
    and "\<And>x sv. server_inv sv \<Longrightarrow> at x < length (sv_heap sv) \<Longrightarrow> server_inv (g x sv)"
    and "\<And>x sv. length (sv_heap (g x sv)) = length (sv_heap sv)"
  shows "server_inv (List.fold g xs sv)"
  using assms(1,2) by (induction xs arbitrary: sv) (auto simp: assms(3,4))

lemma held_sessions_less: "i \<in> set (held_sessions sv) \<Longrightarrow> i < length (sv_heap sv)"
  by (simp add: held_sessions_def)

lemma reap_victims_iff:
  "(i, r) \<in> set (reap_victims now sv) \<longleftrightarrow>
     i \<in> set (held_sessions sv) \<and> reap_reason now (sv_opts sv) (sess sv i) = Some r"
  by (auto simp: reap_victims_def map_filter_def image_iff)

lemma inv_reap:
  assumes "server_inv sv"
  shows "server_inv (reap now sv)"
  unfolding reap_def
  by (rule inv_fold[OF assms, where at = fst])
     (auto simp: reap_victims_iff held_sessions_less inv_endSession split: prod.splits)

lemma inv_release_held:
  assumes "server_inv sv" "i < length (sv_heap sv)"
  shows "server_inv (release_held now l i sv)"
proof -
  have "server_inv (set_sess i (fst (detachLocked now l (sess sv i))) sv)"
    using assms by (intro inv_move_same move_detach) simp_all
  then show ?thesis using assms by (simp add: release_held_def split_beta Let_def inv_forget)
qed

lemma link_close_start:
  assumes inv: "server_inv sv" and l: "l < length (sv_linkHeap sv)"
  shows "server_inv ((upd_link l (\<lambda>k. k\<lparr>lk_done := True, lk_sessions := []\<rparr>) sv)
    \<lparr>sv_links := removeAll l (sv_links sv)\<rparr>)" (is "server_inv ?sv'")
proof -
  have f: "sv_linkHeap ?sv' ! k = (if k = l then (sv_linkHeap sv ! l)\<lparr>lk_done := True, lk_sessions := []\<rparr>
      else sv_linkHeap sv ! k)" "sess ?sv' i = sess sv i" "live ?sv' i = live sv i"
    "length (sv_linkHeap ?sv') = length (sv_linkHeap sv)" "sv_heap ?sv' = sv_heap sv"
    "sv_links ?sv' = removeAll l (sv_links sv)" for k i
    using l by (simp_all add: upd_link_nth sess_def live_def)
  note d = link_okD[OF server_invD(4)[OF inv]]
  have "link_ok ?sv'"
  proof (rule link_okI)
    fix j l'
    assume "j < length (sv_heap ?sv')" "s_link (sess ?sv' j) = Some l'"
    then have j: "j < length (sv_heap sv)" "s_link (sess sv j) = Some l'" unfolding f .
    show "l' < length (sv_linkHeap ?sv')" using d(1)[OF j] unfolding f .
    show "lk_instance (sv_linkHeap ?sv' ! l') = s_instance (sess ?sv' j)" using d(2)[OF j] unfolding f by auto
    show "j \<in> set (lk_sessions (sv_linkHeap ?sv' ! l'))" if "live ?sv' j" "\<not> lk_done (sv_linkHeap ?sv' ! l')"
      using d(3)[OF j] that unfolding f by (simp split: if_splits)
  next
    fix l' j
    assume "l' < length (sv_linkHeap ?sv')"
    then have l': "l' < length (sv_linkHeap sv)" unfolding f .
    show "CHR 0x00 \<notin> set (lk_instance (sv_linkHeap ?sv' ! l'))"
      using d(4)[OF l'] unfolding f by auto
    show "j < length (sv_heap ?sv')" if "j \<in> set (lk_sessions (sv_linkHeap ?sv' ! l'))"
      using d(5)[OF l', of j] that unfolding f by (simp split: if_splits)
  next
    fix l'
    show "l' \<in> set (sv_links ?sv') \<longleftrightarrow> l' < length (sv_linkHeap ?sv') \<and> \<not> lk_done (sv_linkHeap ?sv' ! l')"
      using d(6)[of l'] unfolding f by simp
  qed
  moreover have "heap_ok ?sv'" "idx_ok ?sv'" "heap_bytes ?sv' = heap_bytes sv"
    using inv by (simp_all add: server_inv_def heap_ok_def idx_ok_def heap_bytes_def sess_def live_def)
  ultimately show ?thesis using inv by (simp add: server_inv_def)
qed

lemma inv_link_close:
  assumes inv: "server_inv sv" and l: "l < length (sv_linkHeap sv)"
  shows "server_inv (link_close now l sv)"
proof (cases "lk_done (sv_linkHeap sv ! l)")
  case False
  have "\<forall>i\<in>set (lk_sessions (sv_linkHeap sv ! l)). i < length (sv_heap sv)"
    using link_okD(5)[OF server_invD(4)[OF inv] l] by blast
  then show ?thesis using False link_close_start[OF inv l]
    by (auto simp: link_close_def Let_def intro!: inv_fold[where at = id] inv_release_held)
qed (use inv in \<open>simp add: link_close_def\<close>)

lemma release_held_links [simp]: "length (sv_linkHeap (release_held now l i sv)) = length (sv_linkHeap sv)"
  by (simp add: release_held_def split_beta Let_def forgetLocked_def clear_buffer_def refund_def
      charge_def unregister_def)

lemma link_close_length [simp]:
  "length (sv_linkHeap (link_close now l sv)) = length (sv_linkHeap sv)"
  "length (sv_heap (link_close now l sv)) = length (sv_heap sv)"
proof -
  have "length (sv_linkHeap (List.fold (release_held now l) is sv)) = length (sv_linkHeap sv)"
    "length (sv_heap (List.fold (release_held now l) is sv)) = length (sv_heap sv)" for "is" sv
    by (induction "is" arbitrary: sv) simp_all
  then show "length (sv_linkHeap (link_close now l sv)) = length (sv_linkHeap sv)"
    "length (sv_heap (link_close now l sv)) = length (sv_heap sv)"
    by (simp_all add: link_close_def Let_def)
qed

lemma inv_close_links:
  "server_inv sv \<Longrightarrow> \<forall>l\<in>set ls. l < length (sv_linkHeap sv) \<Longrightarrow>
     server_inv (List.fold (link_close now) ls sv)
     \<and> length (sv_heap (List.fold (link_close now) ls sv)) = length (sv_heap sv)"
  by (induction ls arbitrary: sv) (simp_all add: inv_link_close)

lemma server_inv_cong:
  assumes "sv_heap sv' = sv_heap sv" "sv_budget sv' = sv_budget sv" "sv_linkHeap sv' = sv_linkHeap sv"
    "sv_sessions sv' = sv_sessions sv" "sv_byHandle sv' = sv_byHandle sv" "sv_links sv' = sv_links sv"
  shows "server_inv sv' = server_inv sv"
  unfolding server_inv_def heap_ok_def idx_ok_def link_ok_def heap_bytes_def sess_def live_def
  unfolding assms ..

lemma inv_closed_flag: "server_inv sv \<Longrightarrow> server_inv (sv\<lparr>sv_closed := b\<rparr>)"
  using server_inv_cong[of "sv\<lparr>sv_closed := b\<rparr>" sv] by simp

lemma inv_server_shutdown:
  assumes "server_inv sv"
  shows "server_inv (server_shutdown now sv)"
proof -
  have ls: "\<forall>l\<in>set (sv_links sv). l < length (sv_linkHeap sv)"
    using link_okD(6)[OF server_invD(4)[OF assms]] by blast
  have "\<forall>i\<in>set (held_sessions (sv\<lparr>sv_closed := True\<rparr>)). i < length (sv_heap sv)"
    by (auto dest: held_sessions_less)
  moreover have "server_inv (List.fold (link_close now) (sv_links sv) (sv\<lparr>sv_closed := True\<rparr>))"
    and "length (sv_heap (List.fold (link_close now) (sv_links sv) (sv\<lparr>sv_closed := True\<rparr>)))
      = length (sv_heap sv)"
    using inv_close_links[OF inv_closed_flag[OF assms, of True], of "sv_links sv" now] ls by simp_all
  ultimately have "server_inv (List.fold (\<lambda>i. endSession i ''engine shutting down'')
      (held_sessions (sv\<lparr>sv_closed := True\<rparr>))
      (List.fold (link_close now) (sv_links sv) (sv\<lparr>sv_closed := True\<rparr>)))"
    using inv_fold[where at = "\<lambda>i. i" and g = "\<lambda>i. endSession i ''engine shutting down''"]
    by (simp add: inv_endSession)
  then show ?thesis by (simp add: server_shutdown_def Let_def)
qed

lemma inv_serveLink:
  assumes inv: "server_inv sv" and w: "serveLink f sv = Welcome sv' l"
  shows "server_inv sv'"
proof -
  let ?sv = "sv\<lparr>sv_linkHeap := sv_linkHeap sv @ [new_link f], sv_links := sv_links sv @ [length (sv_linkHeap sv)]\<rparr>"
  have nul: "CHR 0x00 \<notin> set (f_instance f)" and sv': "\<exists>g. sv' = link_send l g ?sv"
    using w by (auto simp: serveLink_def reject_def Let_def split: if_splits)
  note d = link_okD[OF server_invD(4)[OF inv]]
  have f: "sess ?sv i = sess sv i" "live ?sv i = live sv i" "sv_heap ?sv = sv_heap sv"
    "length (sv_linkHeap ?sv) = Suc (length (sv_linkHeap sv))"
    "sv_links ?sv = sv_links sv @ [length (sv_linkHeap sv)]"
    "k < length (sv_linkHeap sv) \<Longrightarrow> sv_linkHeap ?sv ! k = sv_linkHeap sv ! k"
    "sv_linkHeap ?sv ! length (sv_linkHeap sv) = new_link f" for i k
    by (simp_all add: sess_def live_def nth_append)
  have "link_ok ?sv"
  proof (rule link_okI)
    fix j l'
    assume "j < length (sv_heap ?sv)" "s_link (sess ?sv j) = Some l'"
    then have j: "j < length (sv_heap sv)" "s_link (sess sv j) = Some l'" by (simp_all add: sess_def)
    note l' = d(1)[OF j]
    show "l' < length (sv_linkHeap ?sv)" using l' by simp
    show "lk_instance (sv_linkHeap ?sv ! l') = s_instance (sess ?sv j)"
      unfolding f(1) f(6)[OF l'] by (rule d(2)[OF j])
    show "j \<in> set (lk_sessions (sv_linkHeap ?sv ! l'))" if "live ?sv j" "\<not> lk_done (sv_linkHeap ?sv ! l')"
      using that d(3)[OF j] unfolding f(2) f(6)[OF l'] by blast
  next
    fix l' j
    assume "l' < length (sv_linkHeap ?sv)"
    then consider "l' < length (sv_linkHeap sv)" | "l' = length (sv_linkHeap sv)" by fastforce
    note cs = this
    show "CHR 0x00 \<notin> set (lk_instance (sv_linkHeap ?sv ! l'))"
      using cs by cases (use d(4)[of l'] nul f(6,7) in \<open>auto simp: new_link_def\<close>)
    show "j < length (sv_heap ?sv)" if "j \<in> set (lk_sessions (sv_linkHeap ?sv ! l'))"
      using cs by cases (use that d(5)[of l' j] f(6,7) in \<open>auto simp: new_link_def\<close>)
  next
    fix l'
    show "l' \<in> set (sv_links ?sv) \<longleftrightarrow> l' < length (sv_linkHeap ?sv) \<and> \<not> lk_done (sv_linkHeap ?sv ! l')"
      using d(6)[of l'] by (cases "l' = length (sv_linkHeap sv)")
        (auto simp: nth_append new_link_def)
  qed
  then have "server_inv ?sv" using inv
    by (simp add: server_inv_def heap_ok_def idx_ok_def heap_bytes_def sess_def live_def)
  then show ?thesis using sv' inv_link_send by blast
qed

end
