(* ===== verification/Server_Properties.thy ===== *)
theory Server_Properties
  imports Server_Invariant
begin

text \<open>
  The engine server as a state machine, and the properties of its reachable states: exact byte
  accounting, isolation of instances, dead handles, the rule that an older process never takes a
  connection from a newer one, and what reclaiming, reaping, closing a link and writing to it do.
\<close>

section \<open>The writer keeps the invariant\<close>

lemma forget_remove: "forgetLocked i (removeSession l j sv) = removeSession l j (forgetLocked i sv)"
  by (cases sv) (simp add: forgetLocked_def removeSession_def upd_link_def Let_def clear_buffer_def
      refund_def charge_def unregister_def set_sess_def sess_def cong: if_cong)

lemma pull_done_closed: "p_done (fst (pull l limit s)) \<Longrightarrow> s_state s = StateClosed"
  by (auto simp: pull_def pull_lines_def Let_def split_beta split: if_splits)

lemma pull_stale: "p_stale (fst (pull l limit s)) \<longleftrightarrow> s_link s \<noteq> Some l"
  by (simp add: pull_def Let_def split_beta)

lemma pull_not_both: "p_stale (fst (pull l limit s)) \<Longrightarrow> \<not> p_done (fst (pull l limit s))"
  by (simp add: pull_def Let_def split_beta split: if_splits)

lemma inv_writer_pull:
  assumes inv: "server_inv sv" and i: "i < length (sv_heap sv)"
  shows "server_inv (snd (writer_pull l i sv))"
proof -
  let ?r = "fst (pull l pullBatch (sess sv i))" and ?sv = "set_sess i (snd (pull l pullBatch (sess sv i))) sv"
  have inv': "server_inv ?sv" by (rule inv_move_same[OF inv i move_pull]) simp_all
  consider "p_done ?r" | "p_stale ?r" "\<not> p_done ?r" | "\<not> p_stale ?r" "\<not> p_done ?r" by blast
  then show ?thesis
  proof cases
    case 1
    have "server_inv (forgetLocked i ?sv)"
      by (rule inv_forget[OF inv']) (use i pull_done_closed[OF 1] in simp_all)
    then have "server_inv (removeSession l i (forgetLocked i ?sv))"
      by (rule inv_removeSession) (use i in \<open>simp add: forgetLocked_fields(4)\<close>)
    then show ?thesis using 1 by (simp add: writer_pull_def split_beta Let_def forget_remove)
  next
    case 2
    have "server_inv (removeSession l i ?sv)"
      by (rule inv_removeSession[OF inv']) (use 2(1) i in \<open>simp add: pull_stale\<close>)
    then show ?thesis using 2 by (simp add: writer_pull_def split_beta Let_def)
  next
    case 3
    then show ?thesis using inv' by (simp add: writer_pull_def split_beta Let_def)
  qed
qed

lemma writer_pull_length [simp]: "length (sv_heap (snd (writer_pull l i sv))) = length (sv_heap sv)"
  by (simp add: writer_pull_def split_beta Let_def)

lemma inv_writer_sessions:
  "server_inv sv \<Longrightarrow> \<forall>i\<in>set is. i < length (sv_heap sv) \<Longrightarrow> server_inv (snd (writer_sessions l is sv))"
  by (induction "is" arbitrary: sv) (simp_all add: split_beta Let_def inv_writer_pull)

lemma inv_writer_pass:
  assumes inv: "server_inv sv" and l: "l < length (sv_linkHeap sv)"
  shows "server_inv (snd (writer_pass l sv))"
proof -
  have "server_inv (upd_link l (\<lambda>k. k\<lparr>lk_ctrl := []\<rparr>) sv)" by (rule inv_upd_link[OF inv]) auto
  then show ?thesis using link_okD(5)[OF server_invD(4)[OF inv] l]
    by (simp add: writer_pass_def split_beta Let_def inv_writer_sessions)
qed

section \<open>The server as a state machine\<close>

text \<open>
  One step per thing a goroutine of the server does: accept a link, handle a frame, close a link,
  finish a dial, read a line, probe an idle socket, write to a socket, lose a socket, write to a link,
  reap, shut down. A frame may still be handled on a link that is closing.
\<close>

inductive server_step :: "server \<Rightarrow> server \<Rightarrow> bool" where
  hello: "serveLink f sv = Welcome sv' l \<Longrightarrow> server_step sv sv'"
| frame: "l < length (sv_linkHeap sv) \<Longrightarrow> server_step sv (handleFrame now l f sv)"
| close: "l < length (sv_linkHeap sv) \<Longrightarrow> server_step sv (link_close now l sv)"
| dial: "i < length (sv_heap sv) \<Longrightarrow> s_state (sess sv i) \<noteq> StateOpen \<Longrightarrow> server_step sv (server_dial i err sv)"
| line: "i < length (sv_heap sv) \<Longrightarrow> server_step sv (server_ingest now i raw sv)"
| probe: "i < length (sv_heap sv) \<Longrightarrow> server_step sv (server_write i (''PING :'' @ probeToken) sv)"
| socket: "i < length (sv_heap sv) \<Longrightarrow> write_one (sess sv i) = Some (bytes, s) \<Longrightarrow>
     server_step sv (set_sess i s sv)"
| lost: "i < length (sv_heap sv) \<Longrightarrow> server_step sv (endSession i reason sv)"
| writer: "l < length (sv_linkHeap sv) \<Longrightarrow> server_step sv (snd (writer_pass l sv))"
| reaper: "server_step sv (reap now sv)"
| stop: "server_step sv (server_shutdown now sv)"

inductive reachable :: "options \<Rightarrow> server \<Rightarrow> bool" for opts where
  start: "New opts = Inr sv \<Longrightarrow> reachable opts sv"
| step: "reachable opts sv \<Longrightarrow> server_step sv sv' \<Longrightarrow> reachable opts sv'"

inductive_cases server_stepE: "server_step sv sv'"

lemma move_socket:
  assumes "write_one s = Some (b, s')"
  shows "sess_move s s'" and "s_link s' = s_link s" and "s_buf s' = s_buf s"
  using assms by (auto simp: write_one_def split: if_splits list.splits intro!: sess_moveI)
    (auto simp: keeps_def sess_ok_def replay_inv_def ctrl_ok_def buf_inv_def low_mark_def)

lemma inv_start:
  assumes "New opts = Inr sv"
  shows "server_inv sv"
  using assms by (auto simp: New_def Let_def newBudget_def server_inv_def heap_ok_def idx_ok_def
      link_ok_def heap_bytes_def live_def split: if_splits)

lemma inv_step: "server_step sv sv' \<Longrightarrow> server_inv sv \<Longrightarrow> server_inv sv'"
proof (induction rule: server_step.induct)
  case (socket i sv bytes s)
  then show ?case using move_socket[OF socket(2)] by (auto intro: inv_move_same)
qed (simp_all add: inv_serveLink inv_handleFrame inv_link_close inv_server_dial inv_server_ingest
    inv_server_write inv_endSession inv_writer_pass inv_reap inv_server_shutdown)

lemma reachable_inv: "reachable opts sv \<Longrightarrow> server_inv sv"
  by (induction rule: reachable.induct) (auto intro: inv_start inv_step)

section \<open>Helper facts about the indexes\<close>

lemma held_live: "server_inv sv \<Longrightarrow> i \<in> set (held_sessions sv) \<longleftrightarrow> live sv i"
proof
  assume inv: "server_inv sv"
  note d = idx_okD[OF server_invD(3)[OF inv]]
  show "i \<in> set (held_sessions sv) \<Longrightarrow> live sv i" using d(4) by (auto simp: held_sessions_def)
  show "live sv i \<Longrightarrow> i \<in> set (held_sessions sv)" using d(1,2) by (simp add: held_sessions_def)
qed

lemma held_distinct: "distinct (held_sessions sv)"
  by (simp add: held_sessions_def)

lemma lb_bytes_empty: "sess_ok s \<Longrightarrow> buf_len (s_buf s) = 0 \<Longrightarrow> lb_bytes (s_buf s) = 0"
  by (auto simp: sess_ok_def buf_inv_def lb_inv_def buf_len_def)

lemma heap_bytes_held:
  assumes inv: "server_inv sv"
  shows "heap_bytes sv = sum_list (map (buf_bytes sv) (held_sessions sv))"
proof -
  let ?n = "length (sv_heap sv)"
  have "heap_bytes sv = sum_list (map (buf_bytes sv) [0..<?n])"
    unfolding heap_bytes_def buf_bytes_def sess_def
    by (rule arg_cong[where f = sum_list], rule nth_equalityI) simp_all
  also have "\<dots> = sum_list (map (buf_bytes sv) (filter (\<lambda>i. live sv i) [0..<?n]))"
  proof (rule sum_list_map_filter[symmetric])
    fix i assume "i \<in> set [0..<?n]" "\<not> live sv i"
    then show "buf_bytes sv i = 0"
      using idx_okD(6)[OF server_invD(3)[OF inv], of i] server_invD(1)[OF inv, of i]
      by (simp add: buf_bytes_def lb_bytes_empty)
  qed
  also have "filter (\<lambda>i. live sv i) [0..<?n] = held_sessions sv"
    unfolding held_sessions_def using held_live[OF inv] by (intro filter_cong) (auto simp: held_sessions_def)
  finally show ?thesis .
qed

section \<open>Frames cannot cross instances\<close>

lemma sess_upd_other [simp]:
  "i \<noteq> j \<Longrightarrow> sess (set_sess j s sv) i = sess sv i"
  "i \<noteq> j \<Longrightarrow> sess (forgetLocked j sv) i = sess sv i"
  by (simp_all add: sess_def set_sess_def forgetLocked_def Let_def clear_buffer_def refund_def charge_def
      unregister_def)

lemma endSession_other: "i \<noteq> j \<Longrightarrow> sess (endSession j r sv) i = sess sv i"
  by (simp add: endSession_def release_def split_beta Let_def split: option.splits)

lemma server_write_other: "i \<noteq> j \<Longrightarrow> sess (server_write j line sv) i = sess sv i"
  by (simp add: server_write_def endSession_other split_beta Let_def)

lemma refund_sess [simp]: "sess (refund n sv) i = sess sv i"
  by (simp add: refund_def)

lemma take_over_other: "i \<noteq> j \<Longrightarrow> sess (take_over now l f j sv) i = sess sv i"
  by (simp add: take_over_def Let_def sess_def set_sess_def)

lemma open_new_other: "i < length (sv_heap sv) \<Longrightarrow> sess (open_new now l f key sv) i = sess sv i"
  by (simp add: open_new_def Let_def sess_def register_def addSession_def nth_append)

lemma replace_old_other:
  "i \<noteq> j \<Longrightarrow> sess (replace_old now j sv) i = sess sv i"
  "length (sv_heap (replace_old now j sv)) = length (sv_heap sv)"
  by (simp_all add: replace_old_def Let_def)

text \<open>The only sessions a frame can change are those its sender's instance owns.\<close>

lemma handleConnect_isolated:
  assumes inv: "server_inv sv" and l: "l < length (sv_linkHeap sv)" and i: "i < length (sv_heap sv)"
    and other: "s_instance (sess sv i) \<noteq> lk_instance (sv_linkHeap sv ! l)"
  shows "sess (handleConnect now l f sv) i = sess sv i"
proof (cases rule: handleConnect_cases[of now l f sv])
  case (refused msg)
  then show ?thesis by (simp add: connect_fail_def)
next
  case (fresh key)
  then show ?thesis using i by (simp add: open_new_other)
next
  case (taken j)
  have "i \<noteq> j" using key_instance(1)[OF inv l taken(1)] other by metis
  then show ?thesis using taken(5) by (simp add: take_over_other)
next
  case (replaced key j)
  have "i \<noteq> j" using key_instance(1)[OF inv l] replaced(1,2) other by metis
  then show ?thesis using replaced(6) i by (simp add: open_new_other replace_old_other)
qed

lemma key_lookup_isolated:
  assumes "server_inv sv" "l < length (sv_linkHeap sv)"
    and "s_instance (sess sv i) \<noteq> lk_instance (sv_linkHeap sv ! l)"
    and "sv_sessions sv (sess_key (lk_instance (sv_linkHeap sv ! l)) x) = Some j"
  shows "i \<noteq> j"
  using key_instance(1)[OF assms(1,2,4)] assms(3) by metis

lemma claim_isolated:
  assumes "server_inv sv" "i < length (sv_heap sv)"
    and "s_instance (sess sv i) \<noteq> lk_instance (sv_linkHeap sv ! l)"
  shows "s_link (sess sv i) \<noteq> Some l"
  using link_okD(2)[OF server_invD(4)[OF assms(1)] assms(2), of l] assms(3) by metis

lemma handleFrame_isolated:
  assumes inv: "server_inv sv" and l: "l < length (sv_linkHeap sv)" and i: "i < length (sv_heap sv)"
    and other: "s_instance (sess sv i) \<noteq> lk_instance (sv_linkHeap sv ! l)"
  shows "sess (handleFrame now l f sv) i = sess sv i"
proof -
  note k = key_lookup_isolated[OF inv l other] and c = claim_isolated[OF inv i other]
  have "sess (handleWrite l f sv) i = sess sv i"
  proof (cases "sv_byHandle sv (f_handle f)")
    case (Some j)
    then show ?thesis using c by (cases "j = i") (simp_all add: handleWrite_def Let_def server_write_other)
  qed (simp add: handleWrite_def Let_def)
  moreover have "sess (handleDetach now l f sv) i = sess sv i"
  proof (cases "sv_byHandle sv (f_handle f)")
    case (Some j)
    then show ?thesis using c by (cases "j = i") (simp_all add: handleDetach_def Let_def)
  qed (simp add: handleDetach_def)
  moreover have "sess (handleClose now l f sv) i = sess sv i"
    using k by (auto simp: handleClose_def Let_def split: option.splits)
  moreover have "sess (handleAck l f sv) i = sess sv i"
    using k by (auto simp: handleAck_def split_beta Let_def split: option.splits)
  ultimately show ?thesis using handleConnect_isolated[OF inv l i other]
    by (simp add: handleFrame_def split: op.splits)
qed

section \<open>Claims are respected\<close>

text \<open>What a claim consists of, and the fact that acknowledging does not touch it.\<close>

definition claim_of :: "session \<Rightarrow> nat option \<times> string \<times> sessionState \<times> string list \<times> frame list" where
  "claim_of s = (s_link s, s_handle s, s_state s, s_writeQ s, s_ctrl s)"

lemma claim_of_ack [simp]: "claim_of (snd (ack h n s)) = claim_of s"
  by (simp add: claim_of_def ack_def split_beta)




text \<open>A handle no live session carries: its writes, detaches and closes do nothing.\<close>

definition dead_handle :: "string \<Rightarrow> server \<Rightarrow> bool" where
  "dead_handle h sv \<longleftrightarrow> sv_byHandle sv h = None"

lemma dead_handle_frame:
  assumes inv: "server_inv sv" and dead: "dead_handle (f_handle f) sv"
    and k: "f_op f \<in> {OpWrite, OpDetach, OpClose}"
  shows "handleFrame now l f sv = sv"
proof -
  have "handleClose now l f sv = sv"
  proof (cases "sv_sessions sv (sess_key (lk_instance (sv_linkHeap sv ! l)) (f_id f))")
    case (Some j)
    then have "sv_byHandle sv (s_handle (sess sv j)) = Some j"
      using idx_okD(3,4)[OF server_invD(3)[OF inv]] by blast
    then have "s_handle (sess sv j) \<noteq> f_handle f" using dead by (auto simp: dead_handle_def)
    with Some show ?thesis by (simp add: handleClose_def Let_def)
  qed (simp add: handleClose_def)
  then show ?thesis using k dead
    by (auto simp: handleFrame_def handleWrite_def handleDetach_def dead_handle_def Let_def)
qed

lemma take_over_dead:
  assumes inv: "server_inv sv" and i: "live sv i" and new: "f_handle f \<noteq> s_handle (sess sv i)"
  shows "dead_handle (s_handle (sess sv i)) (take_over now l f i sv)"
  using idx_okD(3)[OF server_invD(3)[OF inv] i] new
  by (simp add: dead_handle_def take_over_def Let_def)

section \<open>Reclaiming\<close>

lemma largest_of_spec:
  "sz = (case best of Some b \<Rightarrow> buf_bytes sv b | None \<Rightarrow> 0) \<Longrightarrow>
    (case largest_of sv xs best sz of
       None \<Rightarrow> best = None \<and> (\<forall>i\<in>set xs. buf_bytes sv i \<le> 0)
     | Some m \<Rightarrow> (m \<in> set xs \<or> best = Some m) \<and> (\<forall>i\<in>set xs. buf_bytes sv i \<le> buf_bytes sv m)
         \<and> sz \<le> buf_bytes sv m)"
proof (induction xs arbitrary: best sz)
  case Nil
  then show ?case by (auto split: option.splits)
next
  case (Cons i xs)
  show ?case
  proof (cases "sz < buf_bytes sv i")
    case True
    with Cons.IH[of "buf_bytes sv i" "Some i"] show ?thesis by (force split: option.splits)
  next
    case False
    with Cons.IH[OF Cons.prems] Cons.prems show ?thesis by (force split: option.splits)
  qed
qed

lemma largest_spec:
  "case largest sv of
     None \<Rightarrow> \<forall>i. live sv i \<longrightarrow> buf_bytes sv i \<le> 0
   | Some m \<Rightarrow> live sv m \<and> (\<forall>i. live sv i \<longrightarrow> buf_bytes sv i \<le> buf_bytes sv m)"
  using largest_of_spec[of 0 sv None "b_sessions (sv_budget sv)"]
  by (auto simp: largest_def live_def split: option.splits)

text \<open>When a round cannot shed, the largest backlog is a single line.\<close>

lemma reclaim_one_stuck:
  assumes inv: "server_inv sv" and stuck: "reclaim_one sv = None" and over: "0 < b_used (sv_budget sv)"
  shows "\<exists>i. live sv i \<and> buf_len (s_buf (sess sv i)) = 1 \<and> (\<forall>j. live sv j \<longrightarrow> buf_bytes sv j \<le> buf_bytes sv i)"
proof -
  have pos: "0 < sum_list (map (buf_bytes sv) (held_sessions sv))"
    using over heap_bytes_held[OF inv] server_invD(2)[OF inv] by simp
  have "\<exists>j. live sv j \<and> 0 < buf_bytes sv j"
  proof (rule ccontr)
    assume "\<not> ?thesis"
    then have "\<forall>x\<in>set (map (buf_bytes sv) (held_sessions sv)). x \<le> 0"
      using held_live[OF inv] by (auto simp: not_less)
    then have "sum_list (map (buf_bytes sv) (held_sessions sv)) \<le> 0"
      by (metis sum_list_nonpos)
    with pos show False by simp
  qed
  then obtain j where j: "live sv j" "0 < buf_bytes sv j" by blast
  with largest_spec[of sv] obtain m where m: "largest sv = Some m" "live sv m"
    "\<forall>i. live sv i \<longrightarrow> buf_bytes sv i \<le> buf_bytes sv m"
    by (auto split: option.splits)
  have mlen: "m < length (sv_heap sv)" using idx_okD(1)[OF server_invD(3)[OF inv] m(2)] .
  then have "buf_len (s_buf (sess sv m)) \<le> 1"
    using stuck m(1) by (auto simp: reclaim_one_def shedOldest_def split: if_splits prod.splits)
  moreover have "buf_len (s_buf (sess sv m)) \<noteq> 0"
    using lb_bytes_empty[OF server_invD(1)[OF inv mlen]] m(3) j unfolding buf_bytes_def by fastforce
  ultimately show ?thesis using m by (intro exI[of _ m]) auto
qed

lemma reclaim_one_max: "reclaim_one sv = Some sv' \<Longrightarrow> b_max (sv_budget sv') = b_max (sv_budget sv)"
  by (auto simp: reclaim_one_def refund_def split: option.splits if_splits)

lemma reclaim_post:
  assumes "server_inv sv" and "0 \<le> b_max (sv_budget sv)"
  shows "b_used (sv_budget (reclaim sv)) \<le> b_max (sv_budget sv)
    \<or> (\<exists>i. live (reclaim sv) i \<and> buf_len (s_buf (sess (reclaim sv) i)) = 1
        \<and> (\<forall>j. live (reclaim sv) j \<longrightarrow> buf_bytes (reclaim sv) j \<le> buf_bytes (reclaim sv) i))"
  using assms
proof (induction sv rule: reclaim.induct)
  case (1 sv)
  show ?case
  proof (cases "b_max (sv_budget sv) < b_used (sv_budget sv)")
    case True
    show ?thesis
    proof (cases "reclaim_one sv")
      case None
      then have "reclaim sv = sv" by (subst reclaim.simps) simp
      then show ?thesis using reclaim_one_stuck[OF "1.prems"(1) None] True "1.prems"(2) by simp
    next
      case (Some sv')
      then have "reclaim sv = reclaim sv'" using True by (subst reclaim.simps) simp
      then show ?thesis
        using "1.IH"[OF True Some inv_reclaim_one[OF "1.prems"(1) Some]] reclaim_one_max[OF Some] "1.prems"(2)
        by simp
    qed
  next
    case False
    then show ?thesis by (subst reclaim.simps) simp
  qed
qed

section \<open>Reaping\<close>

lemma endSession_live: "live (endSession j r sv) i \<Longrightarrow> live sv i"
  by (auto simp: endSession_def release_def forgetLocked_def live_def refund_def charge_def unregister_def
      set_sess_def Let_def clear_buffer_def split_beta split: option.splits if_splits)

lemma endSession_unclaimed:
  assumes "i < length (sv_heap sv)" "s_link (sess sv i) = None" "s_state (sess sv i) \<noteq> StateClosed"
  shows "s_state (sess (endSession i r sv) i) = StateClosed \<and> \<not> live (endSession i r sv) i"
  using assms by (simp add: endSession_def release_def shutdown_def forgetLocked_fields)

definition end_all :: "(nat \<times> string) list \<Rightarrow> server \<Rightarrow> server" where
  "end_all vs = List.fold (\<lambda>(i, reason). endSession i reason) vs"

lemma end_all_Cons: "end_all ((i, r) # vs) sv = end_all vs (endSession i r sv)"
  by (simp add: end_all_def)

lemma end_all_other: "i \<notin> fst ` set vs \<Longrightarrow> sess (end_all vs sv) i = sess sv i"
  by (induction vs arbitrary: sv) (auto simp: end_all_def endSession_other)

lemma end_all_live: "live (end_all vs sv) i \<Longrightarrow> live sv i"
  by (induction vs arbitrary: sv) (auto simp: end_all_def dest: endSession_live)

lemma end_all_victim:
  assumes "distinct (map fst vs)" "(i, r) \<in> set vs" "i < length (sv_heap sv)"
    "s_link (sess sv i) = None" "s_state (sess sv i) \<noteq> StateClosed"
  shows "s_state (sess (end_all vs sv) i) = StateClosed \<and> \<not> live (end_all vs sv) i"
  using assms
proof (induction vs arbitrary: sv)
  case (Cons v vs)
  obtain j r' where v: "v = (j, r')" by fastforce
  show ?case
  proof (cases "j = i")
    case True
    then have "i \<notin> fst ` set vs" using Cons.prems(1) v by auto
    then show ?thesis using endSession_unclaimed[OF Cons.prems(3-5), of r'] True v
      end_all_other end_all_live by (auto simp: end_all_Cons)
  next
    case False
    then show ?thesis using Cons v by (auto simp: end_all_Cons endSession_other)
  qed
qed simp

lemma reap_end_all: "reap now sv = end_all (reap_victims now sv) sv"
  by (simp add: reap_def end_all_def)

lemma map_fst_map_filter:
  "map fst (List.map_filter (\<lambda>i. map_option (Pair i) (g i)) xs) = filter (\<lambda>i. g i \<noteq> None) xs"
  by (induction xs) (auto simp: map_filter_simps split: option.splits)

lemma reap_victims_distinct: "distinct (map fst (reap_victims now sv))"
  by (simp add: reap_victims_def map_fst_map_filter held_distinct)

section \<open>Closing a link\<close>

lemma release_held_sess:
  assumes "s_link (sess sv i) = Some l \<Longrightarrow> s_state (sess sv i) \<noteq> StateClosed"
    and "i < length (sv_heap sv)"
  shows "sess (release_held now l j sv) i
      = (if i = j then fst (detachLocked now l (sess sv i)) else sess sv i)"
    and "live (release_held now l j sv) i = live sv i"
proof -
  show "sess (release_held now l j sv) i
      = (if i = j then fst (detachLocked now l (sess sv i)) else sess sv i)"
    using assms by (cases "i = j") (auto simp: release_held_def split_beta Let_def)
  show "live (release_held now l j sv) i = live sv i"
    using assms by (cases "i = j")
      (auto simp: release_held_def split_beta Let_def live_def forgetLocked_def clear_buffer_def refund_def
        charge_def unregister_def set_sess_def)
qed

lemma detach_idem:
  "fst (detachLocked now l (fst (detachLocked now l s))) = fst (detachLocked now l s)"
  by (simp add: detachLocked_def)

lemma fold_release_held:
  assumes "s_link (sess sv i) = Some l \<Longrightarrow> s_state (sess sv i) \<noteq> StateClosed" and "i < length (sv_heap sv)"
  shows "sess (List.fold (release_held now l) xs sv) i
      = (if i \<in> set xs then fst (detachLocked now l (sess sv i)) else sess sv i)
    \<and> live (List.fold (release_held now l) xs sv) i = live sv i"
  using assms
proof (induction xs arbitrary: sv)
  case (Cons j xs)
  note rh = release_held_sess[OF Cons.prems, where now = now and j = j]
  have "s_link (sess (release_held now l j sv) i) = Some l \<Longrightarrow>
      s_state (sess (release_held now l j sv) i) \<noteq> StateClosed"
    using Cons.prems(1) by (simp add: rh split: if_splits)
  note ih = Cons.IH[OF this]
  show ?case
  proof (cases "i = j")
    case True
    then show ?thesis using ih rh Cons.prems(2) by (simp add: detach_idem)
  next
    case False
    then show ?thesis using ih rh Cons.prems(2) by simp
  qed
qed simp

section \<open>Writing to a link\<close>



section \<open>A server used by the witnesses\<close>

definition demo_opts :: options where
  "demo_opts = \<lparr>o_secret = ''k'', o_version = ''1'', o_bufferBytes = 0, o_totalBufferBytes = 0,
     o_orphanTimeout = 0, o_dialTimeout = 0, o_idleTimeout = 0, o_probeTimeout = 0,
     o_helloTimeout = 0, o_linkTimeout = 0\<rparr>"

definition demo_hello :: "string \<Rightarrow> int \<Rightarrow> frame" where
  "demo_hello inst gen = (zero_frame OpHello)\<lparr>f_secret := ''k'', f_protocol := 1, f_instance := inst, f_gen := gen\<rparr>"

definition demo_connect :: "string \<Rightarrow> frame" where
  "demo_connect h = (zero_frame OpConnect)\<lparr>f_id := ''n'', f_handle := h, f_addr := ''irc:6667''\<rparr>"

definition welcomed :: "frame \<Rightarrow> server \<Rightarrow> server" where
  "welcomed f sv = (case serveLink f sv of Welcome sv' l \<Rightarrow> sv' | _ \<Rightarrow> sv)"

text \<open>Links 0 and 1 of instance a (generations 2 and 1), link 2 of instance b; 0 holds one socket.\<close>

definition demo_server :: server where
  "demo_server =
     server_ingest 3 0 '':al PRIVMSG bob :one''
      (server_ingest 2 0 '':srv 422 bob :none''
       (server_ingest 1 0 '':srv 001 bob :hi''
        (server_dial 0 None
         (handleFrame 0 0 (demo_connect ''h1'')
          (welcomed (demo_hello ''b'' 1) (welcomed (demo_hello ''a'' 1) (welcomed (demo_hello ''a'' 2)
            (case New demo_opts of Inr sv \<Rightarrow> sv | Inl e \<Rightarrow> undefined))))))))"

lemma reachable_welcomed: "reachable opts sv \<Longrightarrow> reachable opts (welcomed f sv)"
  by (auto simp: welcomed_def split: hello.splits intro: reachable.step server_step.hello)

lemma demo_links:
  "length (sv_linkHeap (welcomed (demo_hello ''b'' 1) (welcomed (demo_hello ''a'' 1)
     (welcomed (demo_hello ''a'' 2) (case New demo_opts of Inr sv \<Rightarrow> sv | Inl e \<Rightarrow> undefined))))) = 3"
  by code_simp

lemma demo_reachable: "reachable demo_opts demo_server"
proof -
  let ?s0 = "case New demo_opts of Inr sv \<Rightarrow> sv | Inl e \<Rightarrow> undefined"
  let ?s1 = "welcomed (demo_hello ''b'' 1) (welcomed (demo_hello ''a'' 1) (welcomed (demo_hello ''a'' 2) ?s0))"
  let ?s2 = "handleFrame 0 0 (demo_connect ''h1'') ?s1"
  let ?s3 = "server_dial 0 None ?s2"
  let ?s4 = "server_ingest 1 0 '':srv 001 bob :hi'' ?s3"
  let ?s5 = "server_ingest 2 0 '':srv 422 bob :none'' ?s4"
  have "reachable demo_opts ?s0"
    by (rule reachable.start) (simp add: New_def demo_opts_def Let_def)
  then have "reachable demo_opts ?s1" by (simp add: reachable_welcomed)
  then have 2: "reachable demo_opts ?s2"
    by (rule reachable.step) (rule server_step.frame, simp add: demo_links)
  have "length (sv_heap ?s2) = 1 \<and> s_state (sess ?s2 0) = StateDialing" by code_simp
  then have 3: "reachable demo_opts ?s3"
    by (intro reachable.step[OF 2] server_step.dial) simp_all
  have "length (sv_heap ?s3) = 1" by code_simp
  then have 4: "reachable demo_opts ?s4" by (intro reachable.step[OF 3] server_step.line) simp
  have "length (sv_heap ?s4) = 1" by code_simp
  then have 5: "reachable demo_opts ?s5" by (intro reachable.step[OF 4] server_step.line) simp
  have "length (sv_heap ?s5) = 1" by code_simp
  then show ?thesis unfolding demo_server_def by (intro reachable.step[OF 5] server_step.line) simp
qed

lemmas demo_inv = reachable_inv[OF demo_reachable]

section \<open>Properties of the server\<close>



text \<open>
  C11. The byte counter the budget is enforced with is exact in every reachable state: it is the sum of
  the backlogs of the sessions the server holds, whatever was received, acknowledged, shed or forgotten.
\<close>

theorem budget_is_exact:
  assumes "reachable opts sv"
  shows "st_bufferedBytes (Stats sv) = sum_list (map (buf_bytes sv) (held_sessions sv))"
  using heap_bytes_held[OF reachable_inv[OF assms]] server_invD(2)[OF reachable_inv[OF assms]]
  by (simp add: Stats_def)

lemma budget_is_exact_witness:
  "st_bufferedBytes (Stats demo_server) = 150
   \<and> sum_list (map (buf_bytes demo_server) (held_sessions demo_server)) = 150"
proof -
  have "st_bufferedBytes (Stats demo_server) = 150" by code_simp
  then show ?thesis using budget_is_exact[OF demo_reachable] by simp
qed

text \<open>
  C12. Instances are isolated: whatever frame a link sends, no session of another instance changes, and
  the writer of a link takes nothing from a session of another instance.
\<close>

theorem instances_are_isolated:
  assumes "reachable opts sv" "l < length (sv_linkHeap sv)" "i < length (sv_heap sv)"
    and "s_instance (sess sv i) \<noteq> lk_instance (sv_linkHeap sv ! l)"
  shows "sess (handleFrame now l f sv) i = sess sv i \<and> fst (writer_pull l i sv) = []"
  using handleFrame_isolated[OF reachable_inv[OF assms(1)] assms(2-4)]
    claim_isolated[OF reachable_inv[OF assms(1)] assms(3,4)]
  by (simp add: writer_pull_def pull_def Let_def)

lemma instances_are_isolated_witness:
  "sess (handleFrame 9 2 (demo_connect ''h9'') demo_server) 0 = sess demo_server 0
   \<and> fst (writer_pull 2 0 demo_server) = []"
proof (rule instances_are_isolated[OF demo_reachable])
  show "2 < length (sv_linkHeap demo_server)" "0 < length (sv_heap demo_server)"
    "s_instance (sess demo_server 0) \<noteq> lk_instance (sv_linkHeap demo_server ! 2)" by code_simp+
qed



text \<open>
  Once a connect takes a session over, the handle it replaced is dead: a write, detach or close
  that still names it, from any link, leaves the whole server as it is.
\<close>

theorem superseded_handle_is_dead:
  assumes "reachable opts sv" "l < length (sv_linkHeap sv)" "live sv i"
    and "s_handle (sess (handleConnect now l f sv) i) \<noteq> s_handle (sess sv i)"
    and "f_handle g = s_handle (sess sv i)" "f_op g \<in> {OpWrite, OpDetach, OpClose}"
  shows "handleFrame now' l' g (handleConnect now l f sv) = handleConnect now l f sv"
proof -
  have inv: "server_inv sv" by (rule reachable_inv[OF assms(1)])
  have i: "i < length (sv_heap sv)" by (rule idx_okD(1)[OF server_invD(3)[OF inv] assms(3)])
  have "dead_handle (s_handle (sess sv i)) (handleConnect now l f sv)"
  proof (cases rule: handleConnect_cases[of now l f sv])
    case (taken j)
    then have "j = i" using assms(4) by (cases "i = j") (simp_all add: take_over_other)
    moreover have "f_handle f \<noteq> s_handle (sess sv i)"
      using taken(2) idx_okD(3)[OF server_invD(3)[OF inv] assms(3)] by auto
    ultimately show ?thesis using taken(5) take_over_dead[OF inv assms(3)] by simp
  next
    case (replaced key j)
    have "s_handle (sess (replace_old now j sv) i) = s_handle (sess sv i)"
      using i by (cases "i = j") (auto simp: replace_old_other replace_old_def Let_def forgetLocked_fields
          shutdown_def detachLocked_def split: option.splits)
    then show ?thesis using assms(4) replaced(6) i by (simp add: open_new_other replace_old_other)
  qed (use assms(4) i in \<open>simp_all add: connect_fail_def open_new_other\<close>)
  then show ?thesis
    using dead_handle_frame[OF inv_handleConnect[OF inv assms(2)]] assms(5,6) by simp
qed

lemma superseded_handle_is_dead_witness:
  "handleFrame 9 0 ((zero_frame OpClose)\<lparr>f_id := ''n'', f_handle := ''h1''\<rparr>)
     (handleConnect 8 0 (demo_connect ''h2'') demo_server) = handleConnect 8 0 (demo_connect ''h2'') demo_server"
proof (rule superseded_handle_is_dead[OF demo_reachable])
  show "0 < length (sv_linkHeap demo_server)" "live demo_server 0"
    "s_handle (sess (handleConnect 8 0 (demo_connect ''h2'') demo_server) 0) \<noteq> s_handle (sess demo_server 0)"
    "f_handle ((zero_frame OpClose)\<lparr>f_id := ''n'', f_handle := ''h1''\<rparr>) = s_handle (sess demo_server 0)"
    "f_op ((zero_frame OpClose)\<lparr>f_id := ''n'', f_handle := ''h1''\<rparr>) \<in> {OpWrite, OpDetach, OpClose}"
    by code_simp+
qed

text \<open>
  C33. Reclaiming ends, and when it ends the total fits the budget, or the largest backlog that is left
  is a single line (the newest line of a connection is never shed).
\<close>

theorem reclaim_fits_or_single_lines:
  assumes "server_inv sv" and "0 \<le> b_max (sv_budget sv)"
  shows "b_used (sv_budget (reclaim sv)) \<le> b_max (sv_budget sv)
    \<or> (\<exists>i. live (reclaim sv) i \<and> buf_len (s_buf (sess (reclaim sv) i)) = 1
        \<and> (\<forall>j. live (reclaim sv) j \<longrightarrow> buf_bytes (reclaim sv) j \<le> buf_bytes (reclaim sv) i))"
  using assms by (rule reclaim_post)

lemma reclaim_fits_or_single_lines_witness:
  "b_used (sv_budget (reclaim demo_server)) \<le> b_max (sv_budget demo_server)
    \<or> (\<exists>i. live (reclaim demo_server) i \<and> buf_len (s_buf (sess (reclaim demo_server) i)) = 1
        \<and> (\<forall>j. live (reclaim demo_server) j \<longrightarrow>
             buf_bytes (reclaim demo_server) j \<le> buf_bytes (reclaim demo_server) i))"
  by (rule reclaim_fits_or_single_lines[OF demo_inv]) code_simp

text \<open>
  The reaper only ends what nobody claims: a claimed session is left exactly as it is, and every
  session with a reason to be reaped is closed and out of the server's tables afterwards.
\<close>

theorem reap_ends_exactly_orphans:
  assumes "reachable opts sv"
  shows "(\<forall>i. s_link (sess sv i) \<noteq> None \<longrightarrow> sess (reap now sv) i = sess sv i)
    \<and> (\<forall>i r. live sv i \<and> reap_reason now (sv_opts sv) (sess sv i) = Some r \<longrightarrow>
         s_state (sess (reap now sv) i) = StateClosed \<and> \<not> live (reap now sv) i)"
proof (intro conjI allI impI)
  have inv: "server_inv sv" by (rule reachable_inv[OF assms])
  have reason: "reap_reason now (sv_opts sv) s = Some r \<Longrightarrow> s_link s = None \<and> s_state s \<noteq> StateClosed" for s r
    by (auto simp: reap_reason_def split: if_splits)
  show "sess (reap now sv) i = sess sv i" if "s_link (sess sv i) \<noteq> None" for i
  proof -
    have "i \<notin> fst ` set (reap_victims now sv)" using that reason by (auto simp: reap_victims_iff)
    then show ?thesis by (simp add: reap_end_all end_all_other)
  qed
  show "s_state (sess (reap now sv) i) = StateClosed" "\<not> live (reap now sv) i"
    if "live sv i \<and> reap_reason now (sv_opts sv) (sess sv i) = Some r" for i r
    using end_all_victim[OF reap_victims_distinct, of i r now sv] that reason held_live[OF inv, of i]
      idx_okD(1)[OF server_invD(3)[OF inv], of i]
    by (auto simp: reap_end_all reap_victims_iff)
qed

lemma reap_ends_exactly_orphans_witness:
  "s_link (sess demo_server 0) \<noteq> None \<and> sess (reap 99999999 demo_server) 0 = sess demo_server 0"
proof -
  have "s_link (sess demo_server 0) \<noteq> None" by code_simp
  then show ?thesis using reap_ends_exactly_orphans[OF demo_reachable] by blast
qed

text \<open>
  When a link closes, the sockets it held stay up: a live session it claimed keeps its state, its
  backlog and its place in the tables, is unclaimed from then on, and the time it was let go is noted.
\<close>

theorem link_close_keeps_sockets:
  assumes "reachable opts sv" "live sv i" "s_link (sess sv i) = Some l"
    and "\<not> lk_done (sv_linkHeap sv ! l)" "s_state (sess sv i) \<noteq> StateClosed"
  shows "sess (link_close now l sv) i = (sess sv i)\<lparr>s_link := None, s_detachedAt := Some now, s_ctrl := []\<rparr>
    \<and> live (link_close now l sv) i"
proof -
  have inv: "server_inv sv" by (rule reachable_inv[OF assms(1)])
  have i: "i < length (sv_heap sv)" by (rule idx_okD(1)[OF server_invD(3)[OF inv] assms(2)])
  have held: "i \<in> set (lk_sessions (sv_linkHeap sv ! l))"
    by (rule link_okD(3)[OF server_invD(4)[OF inv] i assms(3,2,4)])
  let ?sv = "(upd_link l (\<lambda>k. k\<lparr>lk_done := True, lk_sessions := []\<rparr>) sv)\<lparr>sv_links := removeAll l (sv_links sv)\<rparr>"
  have f: "sess ?sv i = sess sv i" "live ?sv i = live sv i" "length (sv_heap ?sv) = length (sv_heap sv)"
    by (simp_all add: sess_def live_def)
  have "sess (List.fold (release_held now l) (lk_sessions (sv_linkHeap sv ! l)) ?sv) i
      = fst (detachLocked now l (sess sv i))
    \<and> live (List.fold (release_held now l) (lk_sessions (sv_linkHeap sv ! l)) ?sv) i"
    using fold_release_held[of ?sv i l now "lk_sessions (sv_linkHeap sv ! l)"] assms(2,5) i held
    unfolding f by simp
  then show ?thesis using assms(3,4) by (simp add: link_close_def Let_def detachLocked_def)
qed

lemma link_close_keeps_sockets_witness:
  "sess (link_close 7 0 demo_server) 0
     = (sess demo_server 0)\<lparr>s_link := None, s_detachedAt := Some 7, s_ctrl := []\<rparr>
   \<and> live (link_close 7 0 demo_server) 0"
proof (rule link_close_keeps_sockets[OF demo_reachable])
  show "live demo_server 0" "s_link (sess demo_server 0) = Some 0"
    "\<not> lk_done (sv_linkHeap demo_server ! 0)" "s_state (sess demo_server 0) \<noteq> StateClosed" by code_simp+
qed



end
