(* ===== verification/Engine_Link.thy ===== *)
theory Engine_Link
  imports Engine_Line Engine_Proto
begin

text \<open>
  Model of \<^verbatim>\<open>internal/enginelink\<close>: stugan's side of the engine link. \<open>TagLine\<close> and \<open>AckProbe\<close> are
  \<^verbatim>\<open>tags.go\<close>; the record \<open>relay\<close> and its operations are the \<^verbatim>\<open>Session\<close> of \<^verbatim>\<open>session.go\<close> (a \<^verbatim>\<open>net.Conn\<close> over
  the link); the record \<open>elink\<close> with \<open>dispatch\<close>, \<open>drop_conn\<close>, \<open>forget_relay\<close> and the ack queue is
  \<^verbatim>\<open>link.go\<close>. A link connection is a number; channels that only wake a goroutine are left out. What
  the IRC client (girc) does with the bytes is not part of the repository.
\<close>

section \<open>Tags\<close>

definition TagPrefix :: string where "TagPrefix = ''stugan/''"
definition TagSeq :: string where "TagSeq = ''stugan/seq''"
definition TagReplay :: string where "TagReplay = ''stugan/replay''"
definition TagAck :: string where "TagAck = ''stugan/ack''"
definition AckProbeCommand :: string where "AckProbeCommand = ''STUGANACK''"

definition crlf :: string where "crlf = [CHR 0x0D, CHR 0x0A]"

definition AckProbe :: "nat \<Rightarrow> string" where
  "AckProbe seq = ''@'' @ TagAck @ ''='' @ format_uint seq @ '' :stugan '' @ AckProbeCommand @ crlf"

text \<open>
  The layout \<^verbatim>\<open>2006-01-02T15:04:05.000Z\<close> of a UTC time given in milliseconds since 1970, as Go's
  \<^verbatim>\<open>time\<close> package prints it: the civil date of a day number, then zero-padded fields.
\<close>

definition pad_uint :: "nat \<Rightarrow> nat \<Rightarrow> string" where
  "pad_uint w n = replicate (w - length (format_uint n)) CHR ''0'' @ format_uint n"

definition civil_from_days :: "nat \<Rightarrow> nat \<times> nat \<times> nat" where
  "civil_from_days days =
     (let z = days + 719468;
          era = z div 146097;
          doe = z mod 146097;
          yoe = (doe - doe div 1460 + doe div 36524 - doe div 146096) div 365;
          doy = doe - (365 * yoe + yoe div 4 - yoe div 100);
          mp = (5 * doy + 2) div 153;
          d = doy - (153 * mp + 2) div 5 + 1;
          m = (if mp < 10 then mp + 3 else mp - 9)
      in (yoe + era * 400 + (if m \<le> 2 then 1 else 0), m, d))"

definition server_time :: "nat \<Rightarrow> string" where
  "server_time ms =
     (let (y, m, d) = civil_from_days (ms div 86400000); t = ms mod 86400000
      in pad_uint 4 y @ ''-'' @ pad_uint 2 m @ ''-'' @ pad_uint 2 d @ ''T'' @
         pad_uint 2 (t div 3600000) @ '':'' @ pad_uint 2 (t div 60000 mod 60) @ '':'' @
         pad_uint 2 (t div 1000 mod 60) @ ''.'' @ pad_uint 3 (t mod 1000) @ ''Z'')"

definition tag_key :: "string \<Rightarrow> string" where
  "tag_key t = fst (str_cut t CHR ''='')"

text \<open>The server's own tags that survive: neither empty nor under stugan's vendor prefix.\<close>

definition kept_tag :: "string \<Rightarrow> bool" where
  "kept_tag t \<longleftrightarrow> t \<noteq> [] \<and> \<not> has_prefix (tag_key t) TagPrefix"

definition own_tags :: "nat \<Rightarrow> int \<Rightarrow> bool \<Rightarrow> bool \<Rightarrow> string list" where
  "own_tags seq at replay hasTime =
     (if 0 < seq then [TagSeq @ ''='' @ format_uint seq] else [])
     @ (if replay then [TagReplay] else [])
     @ (if \<not> hasTime \<and> 0 < at then [''time='' @ server_time (nat at)] else [])"

definition TagLine :: "string \<Rightarrow> nat \<Rightarrow> int \<Rightarrow> bool \<Rightarrow> string" where
  "TagLine line seq at replay =
     (let build = (\<lambda>theirs rest.
            let tags = own_tags seq at replay (\<exists>t\<in>set theirs. tag_key t = ''time'') @ theirs
            in if tags = [] then rest else ''@'' @ join_with tags '';'' @ '' '' @ rest)
      in if has_prefix line ''@'' then
           (case index_byte line CHR '' '' of
              None \<Rightarrow> line
            | Some i \<Rightarrow> build (filter kept_tag (split_on (drop 1 (take i line)) CHR '';''))
                (trim_left (drop (i + 1) line) CHR '' ''))
         else build [] line)"

text \<open>How a reader takes the tags off a line: the section between \<^verbatim>\<open>@\<close> and the first space.\<close>

definition line_tags :: "string \<Rightarrow> string list" where
  "line_tags s =
     (if has_prefix s ''@'' then split_on (drop 1 (fst (str_cut s CHR '' ''))) CHR '';'' else [])"

section \<open>A relayed connection\<close>

datatype lerr = ErrLinkLost | ErrTakenOver string | ErrLinkClosed | NetClosed | DeadlineExceeded
  | UpstreamError string | EngineError string | StoppedReading | ConnectTimedOut

record info =
  in_attached :: bool
  in_unattended :: bool
  in_nick :: string
  in_channels :: "string list"
  in_detachedMs :: int
  in_backlog :: nat
  in_lost :: nat
  in_replay :: nat

definition zero_info :: info where
  "zero_info = \<lparr>in_attached = False, in_unattended = False, in_nick = [], in_channels = [],
     in_detachedMs = 0, in_backlog = 0, in_lost = 0, in_replay = 0\<rparr>"

record relay =
  r_id :: string
  r_handle :: string
  r_conn :: nat
  r_marker :: string
  r_ready :: bool
  r_openErr :: "lerr option"
  r_info :: info
  r_rbuf :: string
  r_rerr :: "lerr option"
  r_closed :: bool
  r_restoring :: bool
  r_wpartial :: string
  r_delivered :: nat
  r_probed :: nat
  r_ackPending :: nat
  r_ackSent :: nat

definition maxPending :: nat where "maxPending = 33554432"

definition new_relay :: "nat \<Rightarrow> string \<Rightarrow> string \<Rightarrow> relay" where
  "new_relay c ident h = \<lparr>r_id = ident, r_handle = h, r_conn = c, r_marker = ''stugan-restore-'' @ h,
     r_ready = False, r_openErr = None, r_info = zero_info, r_rbuf = [], r_rerr = None, r_closed = False,
     r_restoring = False, r_wpartial = [], r_delivered = 0, r_probed = 0, r_ackPending = 0,
     r_ackSent = 0\<rparr>"

definition info_of :: "frame \<Rightarrow> info" where
  "info_of f = \<lparr>in_attached = True, in_unattended = f_unattended f, in_nick = f_nick f,
     in_channels = f_channels f, in_detachedMs = f_detachedMs f, in_backlog = f_backlog f,
     in_lost = f_lost f, in_replay = length (f_replay f)\<rparr>"

definition replay_bytes :: "string list \<Rightarrow> string" where
  "replay_bytes ls = concat (map (\<lambda>line. TagLine line 0 0 True @ crlf) ls)"

text \<open>\<^verbatim>\<open>opened\<close>: None for a fresh socket, the attached frame for a held one. Only the first call counts.\<close>

definition opened :: "frame option \<Rightarrow> relay \<Rightarrow> relay" where
  "opened fo r =
     (if r_ready r then r
      else (case fo of
          None \<Rightarrow> r\<lparr>r_ready := True\<rparr>
        | Some f \<Rightarrow> r\<lparr>r_ready := True, r_info := info_of f, r_restoring := True,
            r_rbuf := r_rbuf r @ replay_bytes (f_replay f) @ ''PING :'' @ r_marker r @ crlf\<rparr>))"

definition remoteClosed :: "lerr \<Rightarrow> relay \<Rightarrow> relay" where
  "remoteClosed e r =
     (let r = r\<lparr>r_rerr := (case r_rerr r of None \<Rightarrow> Some e | Some e' \<Rightarrow> Some e')\<rparr>
      in if r_ready r then r else r\<lparr>r_ready := True, r_openErr := Some e\<rparr>)"

text \<open>\<^verbatim>\<open>detach\<close>: the frame it sends, None when the session was closed or its far side was gone.\<close>

definition detach :: "relay \<Rightarrow> frame option \<times> relay" where
  "detach r =
     (if r_closed r then (None, r)
      else (if r_rerr r = None then Some ((zero_frame OpDetach)\<lparr>f_handle := r_handle r\<rparr>) else None,
            r\<lparr>r_closed := True\<rparr>))"

definition Terminate :: "relay \<Rightarrow> frame \<times> relay" where
  "Terminate r = ((zero_frame OpClose)\<lparr>f_id := r_id r, f_handle := r_handle r\<rparr>, r\<lparr>r_closed := True\<rparr>)"

definition deliver :: "nat \<Rightarrow> int \<Rightarrow> string \<Rightarrow> relay \<Rightarrow> frame option \<times> relay" where
  "deliver seq at line r =
     (if r_closed r \<or> r_rerr r \<noteq> None then (None, r)
      else (let r = r\<lparr>r_rbuf := r_rbuf r @ TagLine line seq at False @ crlf,
                      r_delivered := max (r_delivered r) seq\<rparr>
            in if maxPending < length (r_rbuf r) then detach (remoteClosed StoppedReading r)
               else (None, r)))"

datatype read_result = ReadBytes string | ReadErr lerr | ReadWait

text \<open>One round of \<^verbatim>\<open>Read\<close> with room for n bytes; \<open>late\<close> says that the read deadline has passed.\<close>

definition Read :: "nat \<Rightarrow> bool \<Rightarrow> relay \<Rightarrow> read_result \<times> relay" where
  "Read n late r =
     (let r = (if r_rbuf r = [] \<and> r_probed r < r_delivered r \<and> \<not> r_closed r
               then r\<lparr>r_probed := r_delivered r, r_rbuf := AckProbe (r_delivered r)\<rparr> else r)
      in if r_rbuf r \<noteq> [] then (ReadBytes (take n (r_rbuf r)), r\<lparr>r_rbuf := drop n (r_rbuf r)\<rparr>)
         else if r_closed r then (ReadErr NetClosed, r)
         else (case r_rerr r of
             Some e \<Rightarrow> (ReadErr e, r)
           | None \<Rightarrow> (if late then ReadErr DeadlineExceeded else ReadWait, r)))"

text \<open>\<^verbatim>\<open>strings.LastIndex\<close>.\<close>

fun last_index_from :: "string \<Rightarrow> string \<Rightarrow> nat \<Rightarrow> nat option" where
  "last_index_from [] sub i = (if sub = [] then Some i else None)"
| "last_index_from (c # cs) sub i =
     (case last_index_from cs sub (Suc i) of
        Some j \<Rightarrow> Some j
      | None \<Rightarrow> if has_prefix (c # cs) sub then Some i else None)"

definition last_index :: "string \<Rightarrow> string \<Rightarrow> nat option" where
  "last_index s sub = last_index_from s sub 0"

definition isPong :: "string \<Rightarrow> string \<Rightarrow> bool" where
  "isPong line tok =
     (let (cmd, rest, _) = str_cut line CHR '' '' in
      equal_fold cmd ''PONG'' \<and>
      (case last_index rest '' :'' of
         Some i \<Rightarrow> drop (i + 2) rest
       | None \<Rightarrow> (let rest = trim_prefix rest '':'' in
            (case last_index_byte rest CHR '' '' of Some j \<Rightarrow> drop (j + 1) rest | None \<Rightarrow> rest))) = tok)"

text \<open>The loop of \<^verbatim>\<open>Write\<close> over complete lines: what is relayed, the rest, and whether it still restores.\<close>

function write_lines :: "string \<Rightarrow> bool \<Rightarrow> string \<Rightarrow> string list \<times> string \<times> bool" where
  "write_lines marker restoring buf =
     (case index_byte buf CHR 0x0A of
        None \<Rightarrow> ([], buf, restoring)
      | Some i \<Rightarrow>
          (let line = trim_right (take i buf) [CHR 0x0D]; buf' = drop (i + 1) buf in
           if line = [] then write_lines marker restoring buf'
           else if restoring then write_lines marker (\<not> isPong line marker) buf'
           else (let (out, p, b) = write_lines marker restoring buf' in (line # out, p, b))))"
  by pat_completeness auto
termination
  by (relation "measure (\<lambda>(_, _, buf). length buf)") (auto dest!: index_byte_Some_len)

declare write_lines.simps [simp del]

definition write_frame :: "string \<Rightarrow> string \<Rightarrow> frame" where
  "write_frame h line = SetLine line ((zero_frame OpWrite)\<lparr>f_handle := h\<rparr>)"

text \<open>\<^verbatim>\<open>Write\<close>: \<open>up\<close> says whether the link still takes frames; the frames sent and the error, if any.\<close>

definition Write :: "bool \<Rightarrow> string \<Rightarrow> relay \<Rightarrow> (frame list \<times> lerr option) \<times> relay" where
  "Write up p r =
     (if r_closed r then (([], Some NetClosed), r)
      else (case r_rerr r of
          Some e \<Rightarrow> (([], Some e), r)
        | None \<Rightarrow>
            (let (out, rest, restoring) = write_lines (r_marker r) (r_restoring r) (r_wpartial r @ p);
                 r = r\<lparr>r_wpartial := rest, r_restoring := restoring\<rparr>
             in if out \<noteq> [] \<and> \<not> up then (([], Some ErrLinkLost), r)
                else ((map (write_frame (r_handle r)) out, None), r))))"

definition Ack :: "nat \<Rightarrow> relay \<Rightarrow> relay" where
  "Ack seq r = (if seq \<le> r_ackPending r then r else r\<lparr>r_ackPending := seq\<rparr>)"

text \<open>The body of \<^verbatim>\<open>flushAcks\<close> for one session.\<close>

definition flush_ack :: "relay \<Rightarrow> frame option \<times> relay" where
  "flush_ack r =
     (if r_ackPending r \<le> r_ackSent r then (None, r)
      else (Some ((zero_frame OpAck)\<lparr>f_id := r_id r, f_handle := r_handle r, f_seq := r_ackPending r\<rparr>),
            r\<lparr>r_ackSent := r_ackPending r\<rparr>))"

section \<open>The link\<close>

text \<open>
  The link's table of sessions by handle: \<open>el_relays\<close> holds every session object the process made,
  \<open>el_handles\<close> the handles the table still knows (the IRC client keeps a session after the link forgot
  it). \<open>el_cur\<close> is the dialed connection, if any.
\<close>

record elink =
  el_closed :: bool
  el_cur :: "nat option"
  el_relays :: "string \<Rightarrow> relay option"
  el_handles :: "string list"

definition upd_relay :: "string \<Rightarrow> relay \<Rightarrow> elink \<Rightarrow> elink" where
  "upd_relay h r el = el\<lparr>el_relays := (el_relays el)(h \<mapsto> r)\<rparr>"

definition forget_relay :: "string \<Rightarrow> elink \<Rightarrow> elink" where
  "forget_relay h el = el\<lparr>el_handles := removeAll h (el_handles el)\<rparr>"

text \<open>\<^verbatim>\<open>Open\<close> up to its connect frame; the outcome of the wait is \<open>opened\<close>, \<open>remoteClosed\<close> or a timeout.\<close>

record connect_request =
  cr_id :: string
  cr_addr :: string
  cr_tls :: bool
  cr_insecure :: bool
  cr_certPEM :: string
  cr_fingerprint :: string

definition open_relay :: "nat \<Rightarrow> string \<Rightarrow> connect_request \<Rightarrow> elink \<Rightarrow> lerr + frame \<times> elink" where
  "open_relay c h req el =
     (if el_closed el \<or> el_cur el \<noteq> Some c then Inl ErrLinkLost
      else Inr ((zero_frame OpConnect)\<lparr>f_id := cr_id req, f_handle := h, f_addr := cr_addr req,
                  f_tls := cr_tls req, f_insecure := cr_insecure req, f_certPEM := cr_certPEM req,
                  f_fingerprint := cr_fingerprint req\<rparr>,
                (upd_relay h (new_relay c (cr_id req) h) el)
                  \<lparr>el_handles := List.insert h (el_handles el)\<rparr>))"

text \<open>\<^verbatim>\<open>dispatch\<close>: the frames sent back and the new table. A frame for an unknown handle is dropped.\<close>

definition session_frame :: "frame \<Rightarrow> relay \<Rightarrow> frame list \<times> relay \<times> bool" where
  "session_frame f r =
     (case f_op f of
        OpOpen \<Rightarrow> ([], opened None r, False)
      | OpAttached \<Rightarrow> ([], opened (Some f) r, False)
      | OpLine \<Rightarrow> (let (fo, r') = deliver (f_seq f) (f_at f) (Text f) r
                 in (case fo of None \<Rightarrow> [] | Some g \<Rightarrow> [g], r',
                     r_rerr r' \<noteq> r_rerr r))
      | OpClosed \<Rightarrow> ([], remoteClosed (UpstreamError
            (if f_error f \<noteq> [] then f_error f else ''connection closed by server'')) r, True)
      | OpDetached \<Rightarrow> ([], remoteClosed (ErrTakenOver (f_error f)) r, True)
      | OpError \<Rightarrow> ([], remoteClosed (EngineError (f_error f)) r, True)
      | _ \<Rightarrow> ([], r, False))"

definition dispatch :: "nat \<Rightarrow> frame \<Rightarrow> elink \<Rightarrow> frame list \<times> elink" where
  "dispatch c f el =
     (if f_op f = OpPing then ([zero_frame OpPong], el)
      else if f_op f = OpPong \<or> f_op f = OpHello \<or> f_handle f = [] then ([], el)
      else if f_handle f \<notin> set (el_handles el) then ([], el)
      else (case el_relays el (f_handle f) of
          None \<Rightarrow> ([], el)
        | Some r \<Rightarrow>
            if r_conn r \<noteq> c then ([], el)
            else (let (fs, r', gone) = session_frame f r; el = upd_relay (f_handle f) r' el
                  in (fs, if gone then forget_relay (f_handle f) el else el))))"

text \<open>\<^verbatim>\<open>drop\<close>: every session of the dropped connection fails and leaves the table.\<close>

definition drop_conn :: "nat \<Rightarrow> lerr \<Rightarrow> elink \<Rightarrow> elink" where
  "drop_conn c e el =
     (let victims = filter (\<lambda>h. \<exists>r. el_relays el h = Some r \<and> r_conn r = c) (el_handles el)
      in el\<lparr>el_cur := (if el_cur el = Some c then None else el_cur el),
           el_handles := filter (\<lambda>h. h \<notin> set victims) (el_handles el),
           el_relays := (\<lambda>h. if h \<in> set victims then map_option (remoteClosed e) (el_relays el h)
                             else el_relays el h)\<rparr>)"

section \<open>Instance ids\<close>

definition validInstanceID :: "string \<Rightarrow> bool" where
  "validInstanceID ident \<longleftrightarrow> \<not> (length ident < 8 \<or> 128 < length ident)
     \<and> (\<forall>c\<in>set ident. in_range 0x30 0x39 c \<or> in_range 0x61 0x66 c)"

section \<open>Acknowledgement in the IRC layer\<close>

text \<open>
  \<^verbatim>\<open>relayTag\<close> on the value of the tag (None when absent), and the processed watermark of \<^verbatim>\<open>relay.go\<close>.
\<close>

definition relayTag :: "string option \<Rightarrow> nat option" where
  "relayTag v = (case v of None \<Rightarrow> None
     | Some s \<Rightarrow> (case parse_uint64 s of Some n \<Rightarrow> if 0 < n then Some n else None | None \<Rightarrow> None))"

definition markProcessed :: "nat \<Rightarrow> nat \<Rightarrow> nat" where
  "markProcessed seq cur = (if seq \<le> cur then cur else seq)"

lemmas relay_ops [session_defs] = opened_def remoteClosed_def detach_def Terminate_def deliver_def
  Read_def Write_def Ack_def flush_ack_def dispatch_def drop_conn_def session_frame_def

end
