(* ===== verification/Link_Properties.thy ===== *)
theory Link_Properties
  imports Engine_Link
begin

text \<open>
  Properties of stugan's side of the link: the tags it adds cannot be forged by a server and do not
  change the message, writing in chunks is writing at once, nothing the IRC client sends while its
  session is restored reaches the server, and acknowledgements only rise.
\<close>

section \<open>Bytes of the tags\<close>

definition tag_safe :: "string \<Rightarrow> bool" where
  "tag_safe t \<longleftrightarrow> CHR '' '' \<notin> set t \<and> CHR '';'' \<notin> set t"

lemma tag_safe_simps [simp]: "tag_safe (s @ t) \<longleftrightarrow> tag_safe s \<and> tag_safe t" "tag_safe []"
  "tag_safe (c # t) \<longleftrightarrow> c \<noteq> CHR '' '' \<and> c \<noteq> CHR '';'' \<and> tag_safe t"
  by (auto simp: tag_safe_def)

lemma digit_safe: "\<forall>c\<in>set s. is_digit c \<Longrightarrow> tag_safe s"
  by (auto simp: tag_safe_def is_digit_def)

lemma format_uint_safe [simp]: "tag_safe (format_uint n)"
  by (rule digit_safe) (auto dest: format_uint_digits)

lemma pad_uint_safe [simp]: "tag_safe (pad_uint w n)"
  by (auto simp: pad_uint_def tag_safe_def dest: format_uint_digits) (auto simp: is_digit_def dest!: format_uint_digits)

lemma server_time_safe [simp]: "tag_safe (server_time ms)"
  by (simp add: server_time_def Let_def split_beta)

lemma own_tags_safe: "t \<in> set (own_tags seq at replay h) \<Longrightarrow> tag_safe t \<and> t \<noteq> []"
  by (auto simp: own_tags_def TagSeq_def TagReplay_def split: if_splits)

section \<open>Tagged lines\<close>

text \<open>The server's tags of a line and the message after them, as \<open>TagLine\<close> sees them.\<close>

definition their_tags :: "string \<Rightarrow> string list" where
  "their_tags line = filter kept_tag (line_tags line)"

definition message :: "string \<Rightarrow> string" where
  "message line =
     (if has_prefix line ''@'' then trim_left (fst (snd (str_cut line CHR '' ''))) CHR '' '' else line)"

lemma index_str_cut:
  "index_byte s c = Some i \<Longrightarrow> str_cut s c = (take i s, drop (Suc i) s, True)"
  by (simp add: str_cut_def)

lemma TagLine_form:
  assumes "has_prefix line ''@'' \<longrightarrow> CHR '' '' \<in> set line" and "0 < seq \<or> replay"
  shows "TagLine line seq at replay =
     ''@'' @ join_with (own_tags seq at replay (\<exists>t\<in>set (their_tags line). tag_key t = ''time'')
        @ their_tags line) '';'' @ '' '' @ message line"
proof -
  have ne: "own_tags seq at replay h \<noteq> []" for h using assms(2) by (auto simp: own_tags_def)
  show ?thesis
  proof (cases "has_prefix line ''@''")
    case True
    then obtain i where i: "index_byte line CHR '' '' = Some i"
      using assms(1) index_byte_None[of line "CHR '' ''"] by (cases "index_byte line CHR '' ''") auto
    then show ?thesis using True ne
      by (simp add: TagLine_def Let_def their_tags_def line_tags_def message_def index_str_cut[OF i])
  qed (use ne in \<open>simp add: TagLine_def Let_def their_tags_def line_tags_def message_def\<close>)
qed

lemma line_tags_safe:
  assumes "t \<in> set (line_tags line)"
  shows "tag_safe t"
proof -
  let ?s = "drop 1 (fst (str_cut line CHR '' ''))"
  have t: "t \<in> set (split_on ?s CHR '';'')" using assms by (simp add: line_tags_def split: if_splits)
  have "CHR '' '' \<notin> set ?s"
    by (auto simp: str_cut_takeWhile dest!: in_set_dropD set_takeWhileD)
  moreover have "set t \<subseteq> set ?s" using t
  proof -
    have "set (concat (split_on s c)) \<subseteq> set s" for s c
      by (induction s c rule: split_on.induct) (auto split: list.splits, blast+)
    then show ?thesis using t by fastforce
  qed
  ultimately show ?thesis using split_on_pieces[OF t] by (auto simp: tag_safe_def)
qed

lemma join_safe: "\<forall>t\<in>set ts. tag_safe t \<Longrightarrow> CHR '' '' \<notin> set (join_with ts '';'')"
  by (induction ts "'';''" rule: join_with.induct) (auto simp: tag_safe_def)

lemma TagLine_cut:
  fixes line :: string and seq :: nat and at :: int and replay :: bool
  assumes "has_prefix line ''@'' \<longrightarrow> CHR '' '' \<in> set line" and "0 < seq \<or> replay"
  defines "ts \<equiv> own_tags seq at replay (\<exists>t\<in>set (their_tags line). tag_key t = ''time'') @ their_tags line"
  shows "str_cut (TagLine line seq at replay) CHR '' '' = (CHR ''@'' # join_with ts '';'', message line, True)"
    and "\<forall>t\<in>set ts. tag_safe t" and "ts \<noteq> []"
proof -
  show safe: "\<forall>t\<in>set ts. tag_safe t"
    using own_tags_safe line_tags_safe by (auto simp: ts_def their_tags_def)
  show "ts \<noteq> []" using assms(2) by (auto simp: ts_def own_tags_def)
  have "CHR '' '' \<notin> set (CHR ''@'' # join_with ts '';'')" using join_safe[OF safe] by simp
  from str_cut_append[OF this, of "message line"]
  show "str_cut (TagLine line seq at replay) CHR '' '' = (CHR ''@'' # join_with ts '';'', message line, True)"
    by (simp add: TagLine_form[OF assms(1,2)] ts_def)
qed

lemma TagLine_tags:
  assumes "has_prefix line ''@'' \<longrightarrow> CHR '' '' \<in> set line" and "0 < seq \<or> replay"
  shows "line_tags (TagLine line seq at replay)
    = own_tags seq at replay (\<exists>t\<in>set (their_tags line). tag_key t = ''time'') @ their_tags line"
proof -
  note c = TagLine_cut[OF assms, of at]
  have "has_prefix (TagLine line seq at replay) ''@''" by (simp add: TagLine_form[OF assms] has_prefix_def)
  then show ?thesis using split_join[OF c(3)] c(1,2) by (simp add: line_tags_def tag_safe_def)
qed

lemma own_tags_first:
  assumes "0 < seq \<or> replay"
  obtains t ts where "own_tags seq at replay h = t # ts" "t \<noteq> []"
  using assms that by (cases "0 < seq") (auto simp: own_tags_def TagSeq_def TagReplay_def)

lemma skip_TagLine:
  assumes "has_prefix line ''@'' \<longrightarrow> CHR '' '' \<in> set line" and "0 < seq \<or> replay"
  shows "skip_tags (TagLine line seq at replay) = Some (trim_left (message line) CHR '' '')"
proof -
  let ?ts = "own_tags seq at replay (\<exists>t\<in>set (their_tags line). tag_key t = ''time'') @ their_tags line"
  let ?j = "join_with ?ts '';''"
  note c = TagLine_cut[OF assms, of at]
  have form: "TagLine line seq at replay = (CHR ''@'' # ?j) @ CHR '' '' # message line"
    by (simp add: TagLine_form[OF assms])
  have sp: "CHR '' '' \<notin> set (CHR ''@'' # ?j)" using join_safe[OF c(2)] by simp
  have jne: "?j \<noteq> []"
  proof -
    obtain t ts where "own_tags seq at replay (\<exists>t\<in>set (their_tags line). tag_key t = ''time'') = t # ts" "t \<noteq> []"
      by (rule own_tags_first[OF assms(2)])
    then show ?thesis by (cases "ts @ their_tags line") simp_all
  qed
  have "index_byte (TagLine line seq at replay) CHR '' '' = Some (length (CHR ''@'' # ?j))"
    unfolding form by (rule index_byte_append[OF sp])
  moreover have "has_prefix (TagLine line seq at replay) ''@''" by (simp add: form has_prefix_def)
  moreover have "drop (Suc (length (CHR ''@'' # ?j))) (TagLine line seq at replay) = message line"
    by (simp add: form)
  ultimately show ?thesis using jne by (simp add: skip_tags_def)
qed

text \<open>The message a parser finds behind the tags does not depend on them.\<close>

lemma parse_TagLine:
  assumes "parseLine line \<noteq> None" "hd line \<noteq> CHR '' ''" and "0 < seq \<or> replay"
  shows "parseLine (TagLine line seq at replay) = parseLine line"
proof -
  obtain s where s: "skip_tags line = Some s" using assms(1) by (auto simp: parseLine_def split: option.splits)
  have sp: "has_prefix line ''@'' \<longrightarrow> CHR '' '' \<in> set line"
    using s index_byte_None[of line "CHR '' ''"] by (auto simp: skip_tags_def split: option.splits if_splits)
  have "trim_left (message line) CHR '' '' = s"
  proof (cases "has_prefix line ''@''")
    case True
    then show ?thesis using s
      by (auto simp: skip_tags_def message_def trim_left_def str_cut_def split: option.splits if_splits)
  next
    case False
    then have "s = line" using s by (simp add: skip_tags_def)
    then show ?thesis using False assms(2) by (cases line) (simp_all add: message_def trim_left_def)
  qed
  then show ?thesis using skip_TagLine[OF sp assms(3), of at] s by (simp add: parseLine_def)
qed

section \<open>Writing\<close>

lemma write_lines_none: "CHR 0x0A \<notin> set buf \<Longrightarrow> write_lines m b buf = ([], buf, b)"
  by (subst write_lines.simps) simp

lemma write_lines_line:
  assumes "CHR 0x0A \<notin> set l"
  shows "write_lines m b (l @ CHR 0x0A # buf) =
     (let line = trim_right l [CHR 0x0D] in
      if line = [] then write_lines m b buf
      else if b then write_lines m (\<not> isPong line m) buf
      else (let (out, p, b') = write_lines m b buf in (line # out, p, b')))"
  by (subst write_lines.simps) (simp add: index_byte_append[OF assms])

lemma split_first:
  obtains "CHR 0x0A \<notin> set buf"
  | l rest where "buf = l @ CHR 0x0A # rest" "CHR 0x0A \<notin> set l"
  using split_list_first[of "CHR 0x0A" buf] by blast

text \<open>Feeding the loop a buffer and then more bytes is feeding it both at once.\<close>

lemma write_lines_append:
  "write_lines m b (buf @ q) =
     (let (o1, rest, b1) = write_lines m b buf; (o2, rest2, b2) = write_lines m b1 (rest @ q)
      in (o1 @ o2, rest2, b2))"
proof (induction "length buf" arbitrary: buf b rule: less_induct)
  case less
  show ?case
  proof (cases rule: split_first[of buf])
    case 1
    then show ?thesis by (simp add: write_lines_none)
  next
    case (2 l rest)
    have ih: "write_lines m b' (rest @ q) =
       (let (o1, rest, b1) = write_lines m b' rest; (o2, rest2, b2) = write_lines m b1 (rest @ q)
        in (o1 @ o2, rest2, b2))" for b'
      by (rule less) (simp add: 2)
    have "write_lines m b (buf @ q) = write_lines m b (l @ CHR 0x0A # (rest @ q))" by (simp add: 2)
    then show ?thesis unfolding 2(1) write_lines_line[OF 2(2)]
      by (simp add: ih Let_def split_beta)
  qed
qed

text \<open>The complete, non-empty lines of a buffer, and what is left over.\<close>

definition whole_lines :: "string \<Rightarrow> string list" where
  "whole_lines buf = filter (\<lambda>l. l \<noteq> []) (map (\<lambda>l. trim_right l [CHR 0x0D]) (butlast (split_on buf CHR 0x0A)))"

definition partial_line :: "string \<Rightarrow> string" where
  "partial_line buf = last (split_on buf CHR 0x0A)"

lemma lines_simps:
  "CHR 0x0A \<notin> set buf \<Longrightarrow> whole_lines buf = []" "CHR 0x0A \<notin> set buf \<Longrightarrow> partial_line buf = buf"
  "CHR 0x0A \<notin> set l \<Longrightarrow> whole_lines (l @ CHR 0x0A # buf)
     = (if trim_right l [CHR 0x0D] = [] then whole_lines buf else trim_right l [CHR 0x0D] # whole_lines buf)"
  "CHR 0x0A \<notin> set l \<Longrightarrow> partial_line (l @ CHR 0x0A # buf) = partial_line buf"
  by (simp_all add: whole_lines_def partial_line_def split_on_notin split_on_append)

text \<open>The loop against its reference: while restoring, everything through the marker's answer is dropped.\<close>

lemma write_lines_ref:
  "write_lines m b buf =
     (if b then drop 1 (dropWhile (\<lambda>l. \<not> isPong l m) (whole_lines buf)) else whole_lines buf,
      partial_line buf, b \<and> (\<forall>l\<in>set (whole_lines buf). \<not> isPong l m))"
proof (induction "length buf" arbitrary: buf b rule: less_induct)
  case less
  show ?case
  proof (cases rule: split_first[of buf])
    case 1
    then show ?thesis by (simp add: write_lines_none lines_simps)
  next
    case (2 l rest)
    have ih: "write_lines m b' rest =
       (if b' then drop 1 (dropWhile (\<lambda>l. \<not> isPong l m) (whole_lines rest)) else whole_lines rest,
        partial_line rest, b' \<and> (\<forall>l\<in>set (whole_lines rest). \<not> isPong l m))" for b'
      by (rule less) (simp add: 2)
    show ?thesis unfolding 2(1) write_lines_line[OF 2(2)]
      by (simp add: ih Let_def lines_simps(3,4)[OF 2(2)])
  qed
qed

section \<open>Acknowledgements\<close>

text \<open>What the ack loop and its callers do to one session, with the frames that go out.\<close>

datatype ack_op = DoAck nat | DoFlush

fun ack_step :: "ack_op \<Rightarrow> relay \<Rightarrow> frame list \<times> relay" where
  "ack_step (DoAck n) r = ([], Ack n r)"
| "ack_step DoFlush r = (let (fo, r') = flush_ack r in (case fo of None \<Rightarrow> [] | Some f \<Rightarrow> [f], r'))"

fun ack_run :: "ack_op list \<Rightarrow> relay \<Rightarrow> frame list \<times> relay" where
  "ack_run [] r = ([], r)"
| "ack_run (a # as) r = (let (fs, r') = ack_step a r; (gs, r'') = ack_run as r' in (fs @ gs, r''))"

lemma ack_run_rising:
  "r_ackSent r \<le> r_ackPending r \<Longrightarrow>
     sorted_wrt (<) (map f_seq (fst (ack_run as r)))
     \<and> (\<forall>f\<in>set (fst (ack_run as r)). r_ackSent r < f_seq f
          \<and> (f_seq f = r_ackPending r \<or> DoAck (f_seq f) \<in> set as))"
proof (induction as arbitrary: r)
  case (Cons a as)
  show ?case
  proof (cases a)
    case (DoAck n)
    have "r_ackSent (Ack n r) \<le> r_ackPending (Ack n r)" "r_ackSent (Ack n r) = r_ackSent r"
      "r_ackPending (Ack n r) = r_ackPending r \<or> r_ackPending (Ack n r) = n"
      using Cons.prems by (auto simp: Ack_def)
    with Cons.IH[of "Ack n r"] show ?thesis using DoAck by (fastforce simp: split_beta Let_def)
  next
    case DoFlush
    define r' where "r' = snd (flush_ack r)"
    have r': "r_ackSent r' \<le> r_ackPending r'" "r_ackPending r' = r_ackPending r" "r_ackSent r \<le> r_ackSent r'"
      using Cons.prems by (auto simp: r'_def flush_ack_def)
    note ih = Cons.IH[OF r'(1)]
    show ?thesis
    proof (cases "r_ackPending r \<le> r_ackSent r")
      case True
      then have "ack_run (a # as) r = ack_run as r"
        using DoFlush by (simp add: flush_ack_def split_beta Let_def)
      then show ?thesis using Cons.IH[OF Cons.prems] DoFlush by auto
    next
      case False
      let ?f = "(zero_frame OpAck)\<lparr>f_id := r_id r, f_handle := r_handle r, f_seq := r_ackPending r\<rparr>"
      have "fst (ack_run (a # as) r) = ?f # fst (ack_run as r')"
        using DoFlush False by (simp add: flush_ack_def split_beta Let_def r'_def)
      moreover have "r_ackSent r' = r_ackPending r" using False by (simp add: r'_def flush_ack_def)
      ultimately show ?thesis using ih r'(2) False by fastforce
    qed
  qed
qed simp

section \<open>Properties of the link\<close>

text \<open>
  C4. A server cannot forge stugan's tags: whatever tags the received line carries, the line handed to
  the IRC client has exactly one tag under stugan's vendor prefix, the sequence number, and reading
  that number back gives the number the engine assigned.
\<close>

theorem tags_cannot_be_forged:
  assumes "has_prefix line ''@'' \<longrightarrow> CHR '' '' \<in> set line" and "0 < seq" "seq < 2 ^ 64"
  shows "filter (\<lambda>t. has_prefix (tag_key t) TagPrefix) (line_tags (TagLine line seq at False))
      = [TagSeq @ ''='' @ format_uint seq]
    \<and> relayTag (Some (fst (snd (str_cut (TagSeq @ ''='' @ format_uint seq) CHR ''='')))) = Some seq"
proof -
  have cut: "str_cut (TagSeq @ ''='' @ format_uint seq) CHR ''='' = (TagSeq, format_uint seq, True)"
    using str_cut_append[of "CHR ''=''" TagSeq "format_uint seq"] by (simp add: TagSeq_def)
  have tm: "\<not> has_prefix (tag_key (''time='' @ s)) TagPrefix" for s
    by (simp add: tag_key_def str_cut_takeWhile has_prefix_def TagPrefix_def)
  have "has_prefix (tag_key (TagSeq @ ''='' @ format_uint seq)) TagPrefix"
    unfolding tag_key_def cut by (simp add: TagSeq_def TagPrefix_def has_prefix_def)
  moreover have "filter (\<lambda>t. has_prefix (tag_key t) TagPrefix) (their_tags line) = []"
    by (simp add: their_tags_def kept_tag_def filter_empty_conv)
  ultimately have "filter (\<lambda>t. has_prefix (tag_key t) TagPrefix) (line_tags (TagLine line seq at False))
      = [TagSeq @ ''='' @ format_uint seq]"
    using TagLine_tags[OF assms(1), of seq False at] assms(2) tm by (simp add: own_tags_def)
  then show ?thesis unfolding cut using parse_format_uint[OF assms(3)] assms(2) by (simp add: relayTag_def)
qed

lemma tags_cannot_be_forged_witness:
  "filter (\<lambda>t. has_prefix (tag_key t) TagPrefix)
     (line_tags (TagLine ''@stugan/seq=9;a=b :x PRIVMSG y :hi'' 42 1700000000000 False)) = [''stugan/seq=42'']"
proof -
  have "has_prefix ''@stugan/seq=9;a=b :x PRIVMSG y :hi'' ''@'' \<longrightarrow>
      CHR '' '' \<in> set ''@stugan/seq=9;a=b :x PRIVMSG y :hi''" by simp
  from tags_cannot_be_forged[OF this, of 42 1700000000000]
  have "filter (\<lambda>t. has_prefix (tag_key t) TagPrefix)
     (line_tags (TagLine ''@stugan/seq=9;a=b :x PRIVMSG y :hi'' 42 1700000000000 False))
     = [TagSeq @ ''='' @ format_uint 42]" by simp
  moreover have "TagSeq @ ''='' @ format_uint 42 = ''stugan/seq=42''" by code_simp
  ultimately show ?thesis by simp
qed

text \<open>
  Tagging a line, whatever its own tags, does not change its message: parsed, the tagged line has
  the source, command and parameters of the received one.
\<close>

theorem tagging_keeps_message:
  assumes "parseLine line \<noteq> None" "hd line \<noteq> CHR '' ''" and "0 < seq \<or> replay"
  shows "parseLine (TagLine line seq at replay) = parseLine line"
  using assms by (rule parse_TagLine)

lemma tagging_keeps_message_witness:
  "parseLine (TagLine ''@a=b :x PRIVMSG y :hi'' 3 0 False)
    = Some \<lparr>l_nick = ''x'', l_cmd = ''PRIVMSG'', l_params = [''y'', ''hi'']\<rparr>"
proof -
  have p: "parseLine ''@a=b :x PRIVMSG y :hi''
      = Some \<lparr>l_nick = ''x'', l_cmd = ''PRIVMSG'', l_params = [''y'', ''hi'']\<rparr>" by code_simp
  show ?thesis using tagging_keeps_message[of "''@a=b :x PRIVMSG y :hi''" 3 False 0] p by simp
qed

text \<open>
  C34. How the IRC client cuts its output into writes does not matter: writing p and then q relays the
  same frames and leaves the same session as writing both at once.
\<close>

theorem writes_may_be_split:
  assumes "\<not> r_closed r" "r_rerr r = None"
  shows "let ((f1, e1), r1) = Write True p r; ((f2, e2), r2) = Write True q r1
    in Write True (p @ q) r = ((f1 @ f2, e2), r2)"
  using assms write_lines_append[of "r_marker r" "r_restoring r" "r_wpartial r @ p" q]
  by (simp add: Write_def Let_def split_beta)

lemma writes_may_be_split_witness:
  "fst (Write True ''NICK a\<newline>JO'' (new_relay 0 ''n'' ''h'')) = ([write_frame ''h'' ''NICK a''], None)
   \<and> (let ((f1, e1), r1) = Write True ''NICK a\<newline>JO'' (new_relay 0 ''n'' ''h'');
         ((f2, e2), r2) = Write True ''IN #x\<newline>'' r1
      in Write True (''NICK a\<newline>JO'' @ ''IN #x\<newline>'') (new_relay 0 ''n'' ''h'') = ((f1 @ f2, e2), r2))"
proof
  show "fst (Write True ''NICK a\<newline>JO'' (new_relay 0 ''n'' ''h'')) = ([write_frame ''h'' ''NICK a''], None)"
    by code_simp
  show "let ((f1, e1), r1) = Write True ''NICK a\<newline>JO'' (new_relay 0 ''n'' ''h'');
         ((f2, e2), r2) = Write True ''IN #x\<newline>'' r1
      in Write True (''NICK a\<newline>JO'' @ ''IN #x\<newline>'') (new_relay 0 ''n'' ''h'') = ((f1 @ f2, e2), r2)"
    by (rule writes_may_be_split) (simp_all add: new_relay_def)
qed

text \<open>
  While an attached session is being restored, what the client writes is swallowed through its
  answer to the restore marker; every complete line after that answer is relayed, in order.
\<close>

theorem restore_swallows_registration:
  assumes "\<not> r_closed r" "r_rerr r = None" "r_restoring r"
  shows "map Text (fst (fst (Write True p r)))
      = drop 1 (dropWhile (\<lambda>l. \<not> isPong l (r_marker r)) (whole_lines (r_wpartial r @ p)))
    \<and> r_restoring (snd (Write True p r)) = (\<forall>l\<in>set (whole_lines (r_wpartial r @ p)). \<not> isPong l (r_marker r))"
  using assms by (simp add: Write_def write_lines_ref Let_def write_frame_def comp_def)

lemma restore_swallows_registration_witness:
  "map Text (fst (fst (Write True ''USER a\<newline>PONG :stugan-restore-h\<newline>JOIN #x\<newline>''
     (opened (Some (zero_frame OpAttached)) (new_relay 0 ''n'' ''h''))))) = [''JOIN #x'']"
proof -
  let ?r = "opened (Some (zero_frame OpAttached)) (new_relay 0 ''n'' ''h'')"
  let ?p = "''USER a\<newline>PONG :stugan-restore-h\<newline>JOIN #x\<newline>''"
  have "map Text (fst (fst (Write True ?p ?r)))
      = drop 1 (dropWhile (\<lambda>l. \<not> isPong l (r_marker ?r)) (whole_lines (r_wpartial ?r @ ?p)))"
    using restore_swallows_registration[of ?r ?p] by (simp add: opened_def new_relay_def)
  moreover have "drop 1 (dropWhile (\<lambda>l. \<not> isPong l (r_marker ?r)) (whole_lines (r_wpartial ?r @ ?p)))
      = [''JOIN #x'']" by code_simp
  ultimately show ?thesis by simp
qed

text \<open>
  Acknowledgements only rise: over any interleaving of the IRC layer's acks and the ack loop's
  flushes, the numbers sent to the engine increase strictly, and each was acked by the IRC layer.
\<close>

theorem acks_only_rise:
  assumes "r_ackSent r = 0" "r_ackPending r = 0"
  shows "sorted_wrt (<) (map f_seq (fst (ack_run as r)))
    \<and> (\<forall>f\<in>set (fst (ack_run as r)). DoAck (f_seq f) \<in> set as)"
  using ack_run_rising[of r as] assms by auto

lemma acks_only_rise_witness:
  "map f_seq (fst (ack_run [DoAck 3, DoFlush, DoAck 2, DoFlush, DoAck 5, DoAck 7, DoFlush]
     (new_relay 0 ''n'' ''h''))) = [3, 7]
   \<and> sorted_wrt (<) (map f_seq (fst (ack_run [DoAck 3, DoFlush, DoAck 2, DoFlush, DoAck 5, DoAck 7, DoFlush]
     (new_relay 0 ''n'' ''h''))))"
proof
  show "map f_seq (fst (ack_run [DoAck 3, DoFlush, DoAck 2, DoFlush, DoAck 5, DoAck 7, DoFlush]
     (new_relay 0 ''n'' ''h''))) = [3, 7]" by code_simp
  show "sorted_wrt (<) (map f_seq (fst (ack_run [DoAck 3, DoFlush, DoAck 2, DoFlush, DoAck 5, DoAck 7, DoFlush]
     (new_relay 0 ''n'' ''h''))))"
    by (rule acks_only_rise[THEN conjunct1]) (simp_all add: new_relay_def)
qed

text \<open>
  A read hands out the buffered bytes in order, and an ack probe only once everything delivered
  before was read: the probe is the last delivered number, placed behind an empty buffer.
\<close>

theorem probe_follows_everything:
  assumes "\<not> r_closed r" "r_rerr r = None"
  shows "case fst (Read n False r) of
      ReadBytes b \<Rightarrow> \<exists>probe. b @ r_rbuf (snd (Read n False r)) = r_rbuf r @ probe
        \<and> (probe = [] \<or> r_rbuf r = [] \<and> probe = AckProbe (r_delivered r) \<and> r_probed r < r_delivered r)
    | ReadErr e \<Rightarrow> False
    | ReadWait \<Rightarrow> r_rbuf r = [] \<and> r_delivered r \<le> r_probed r"
  using assms by (auto simp: Read_def Let_def AckProbe_def)

lemma probe_follows_everything_witness:
  "\<exists>probe. take 9 (r_rbuf (snd (deliver 4 0 ''PING :x'' (new_relay 0 ''n'' ''h''))))
      @ r_rbuf (snd (Read 9 False (snd (deliver 4 0 ''PING :x'' (new_relay 0 ''n'' ''h'')))))
      = r_rbuf (snd (deliver 4 0 ''PING :x'' (new_relay 0 ''n'' ''h''))) @ probe"
proof -
  let ?r = "snd (deliver 4 0 ''PING :x'' (new_relay 0 ''n'' ''h''))"
  have ok: "\<not> r_closed ?r" "r_rerr ?r = None" by code_simp+
  have "fst (Read 9 False ?r) = ReadBytes (take 9 (r_rbuf ?r))" by code_simp
  with probe_follows_everything[OF ok, of 9] show ?thesis by auto
qed

end
