(* ===== verification/Resume_Properties.thy ===== *)
theory Resume_Properties
  imports Session_Runs Link_Properties
begin

text \<open>
  The two ends of the engine link together: what the engine's session hands to a link that claims it,
  and what the client's session makes of it. The client's reader dispatches frames one after another.
\<close>

fun dispatch_all :: "nat \<Rightarrow> frame list \<Rightarrow> elink \<Rightarrow> frame list \<times> elink" where
  "dispatch_all c [] el = ([], el)"
| "dispatch_all c (f # fs) el =
     (let (out, el) = dispatch c f el; (outs, el) = dispatch_all c fs el in (out @ outs, el))"

definition relayed_bytes :: "bufferedLine list \<Rightarrow> string" where
  "relayed_bytes ls = concat (map (\<lambda>b. TagLine (bl_line b) (bl_seq b) (bl_at b) False @ crlf) ls)"

lemma relayed_bytes_simps [simp]:
  "relayed_bytes [] = []"
  "relayed_bytes (b # ls) = TagLine (bl_line b) (bl_seq b) (bl_at b) False @ crlf @ relayed_bytes ls"
  by (simp_all add: relayed_bytes_def)

lemma upd_relay_simps [simp]:
  "upd_relay h a (upd_relay h b el) = upd_relay h a el" "el_relays (upd_relay h a el) h = Some a"
  "el_handles (upd_relay h a el) = el_handles el" "k \<noteq> h \<Longrightarrow> el_relays (upd_relay h a el) k = el_relays el k"
  by (simp_all add: upd_relay_def)

lemma upd_relay_same: "el_relays el h = Some r \<Longrightarrow> upd_relay h r el = el"
  by (cases el) (simp add: upd_relay_def map_upd_triv)

text \<open>A live session of the link takes line frames into its read buffer as long as they fit.\<close>

lemma dispatch_lines:
  assumes "h \<noteq> []" "h \<in> set (el_handles el)" "el_relays el h = Some r" "r_conn r = c"
    and "\<not> r_closed r" "r_rerr r = None" "length (r_rbuf r @ relayed_bytes ls) \<le> maxPending"
  shows "dispatch_all c (map (line_frame h) ls) el
    = ([], upd_relay h (r\<lparr>r_rbuf := r_rbuf r @ relayed_bytes ls,
         r_delivered := fold max (map bl_seq ls) (r_delivered r)\<rparr>) el)"
  using assms
proof (induction ls arbitrary: el r)
  case Nil
  then show ?case by (simp add: upd_relay_same)
next
  case (Cons b ls)
  let ?r = "r\<lparr>r_rbuf := r_rbuf r @ TagLine (bl_line b) (bl_seq b) (bl_at b) False @ crlf,
    r_delivered := max (r_delivered r) (bl_seq b)\<rparr>"
  have d: "deliver (bl_seq b) (bl_at b) (bl_line b) r = (None, ?r)"
    using Cons.prems by (simp add: deliver_def Let_def)
  have f: "f_op (line_frame h b) = OpLine" "f_handle (line_frame h b) = h" "f_seq (line_frame h b) = bl_seq b"
    "f_at (line_frame h b) = bl_at b" "Text (line_frame h b) = bl_line b"
    by (simp_all add: line_frame_def zero_frame_def)
  have one: "dispatch c (line_frame h b) el = ([], upd_relay h ?r el)"
    using Cons.prems by (simp add: dispatch_def f session_frame_def d)
  have "dispatch_all c (map (line_frame h) ls) (upd_relay h ?r el)
    = ([], upd_relay h (?r\<lparr>r_rbuf := r_rbuf ?r @ relayed_bytes ls,
         r_delivered := fold max (map bl_seq ls) (r_delivered ?r)\<rparr>) (upd_relay h ?r el))"
    using Cons.prems by (intro Cons.IH) simp_all
  then show ?case by (simp add: one max.commute)
qed

lemma replay_of_claim [simp]:
  "replay_of (s\<lparr>s_link := a, s_handle := b, s_handles := hs, s_detachedAt := d, s_sent := m\<rparr>) = replay_of s"
  by (simp add: replay_of_def split_def)

definition resume_bytes :: "session \<Rightarrow> string \<Rightarrow> string" where
  "resume_bytes s h = replay_bytes (replay_of s) @ ''PING :'' @ ''stugan-restore-'' @ h @ crlf
     @ relayed_bytes (filter (\<lambda>b. max (s_acked s) (s_burstCovered s) < bl_seq b) (lb_lines (s_buf s)))"

text \<open>
  C2. Resuming a held connection. A client that claims a registered session under a fresh handle and
  dispatches the frames the engine's writer pulls for it has, in its read buffer and in this order, the
  recorded registration burst addressed to the current nick, the marker PING, and then every backlog
  line that was neither acknowledged nor part of the burst, once, in order and under its own number and
  arrival time; it knows how many lines were lost and which channels it is in, it swallows its own
  registration until the marker comes back, no other session of the client changes, and nothing is
  written to the engine.\<close>

theorem resume_hands_over_everything:
  fixes now :: int and s :: session and l :: nat and h :: string
  defines "t \<equiv> attachLocked now l h s"
  assumes "buf_inv s" "reusable fp s" "0 < limit" "length (lb_lines (s_buf s)) < n"
    and "h \<noteq> []" "h \<in> set (el_handles el)" "el_relays el h = Some (new_relay c ident h)"
    and "length (resume_bytes s h) \<le> maxPending"
  shows "\<exists>el' r. dispatch_all c (fst (drain l limit n t)) el = ([], el') \<and> el_relays el' h = Some r
    \<and> r_rbuf r = resume_bytes s h \<and> r_ready r \<and> r_restoring r \<and> r_rerr r = None
    \<and> in_lost (r_info r) = s_lost s \<and> in_channels (r_info r) = s_channels s
    \<and> el_handles el' = el_handles el \<and> (\<forall>k. k \<noteq> h \<longrightarrow> el_relays el' k = el_relays el k)"
proof -
  define f where "f = hd (s_ctrl t)"
  define ls where "ls = filter (\<lambda>b. max (s_acked s) (s_burstCovered s) < bl_seq b) (lb_lines (s_buf s))"
  have inv: "buf_inv t" unfolding t_def by (rule attachLocked_inv[OF assms(2)])
  have t: "s_link t = Some l" "s_state t = StateOpen" "s_handle t = h" "s_ctrl t = [f]"
    "s_sent t = max (s_acked s) (s_burstCovered s)" "s_buf t = s_buf s"
    using assms(3) by (simp_all add: t_def f_def attachLocked_def Let_def reusable_def)
  have f: "f_op f = OpAttached" "f_handle f = h" "f_replay f = replay_of s" "f_lost f = s_lost s" "f_channels f = s_channels s"
    by (simp_all add: f_def t_def attachLocked_def Let_def zero_frame_def)
  have ow: "owed t = ls" using owed_filter[OF inv] by (simp add: ls_def t)
  have "length (owed t) < n" using assms(5) by (simp add: ow ls_def) (meson le_less_trans length_filter_le)
  from drain_all[OF inv t(1) _ assms(4) this] have frames: "fst (drain l limit n t) = f # map (line_frame h) ls"
    by (simp add: t ow)
  define r where "r = opened (Some f) (new_relay c ident h)"
  have r: "r_rbuf r = replay_bytes (replay_of s) @ ''PING :'' @ ''stugan-restore-'' @ h @ crlf" "r_conn r = c"
    "\<not> r_closed r" "r_rerr r = None" "r_ready r" "r_restoring r" "r_info r = info_of f"
    by (simp_all add: r_def opened_def new_relay_def f)
  have one: "dispatch c f el = ([], upd_relay h r el)"
    using assms(6-8) by (simp add: dispatch_def f session_frame_def r_def new_relay_def[THEN arg_cong[where f = r_conn]])
  have fit: "length (r_rbuf r @ relayed_bytes ls) \<le> maxPending"
    using assms(9) by (simp add: resume_bytes_def r ls_def)
  have h': "h \<in> set (el_handles (upd_relay h r el))" "el_relays (upd_relay h r el) h = Some r"
    using assms(7) by simp_all
  show ?thesis
    unfolding frames dispatch_all.simps one prod.case Let_def dispatch_lines[OF assms(6) h' r(2-4) fit]
    by (simp add: r resume_bytes_def ls_def info_of_def f)
qed

text \<open>A session that received a welcome, the end of the burst and two messages, claimed again as \<^verbatim>\<open>h2\<close> by a client that opened one session on connection 5.\<close>

definition held_ops :: "sess_op list" where
  "held_ops = [SDial None, SLine 0 '':srv 001 bob :hi'', SLine 0 '':srv 422 bob :no motd'',
     SLine 0 '':al PRIVMSG bob :one'', SPull 0 3, SLine 0 '':al PRIVMSG bob :two'']"

definition held_session :: session where
  "held_session = r_sess (sess_run 4096 held_ops (start_run demo_session))"

definition demo_elink :: elink where
  "demo_elink = \<lparr>el_closed = False, el_cur = Some 5, el_relays = [''h2'' \<mapsto> new_relay 5 ''net'' ''h2''], el_handles = [''h2'']\<rparr>"

theorem resume_hands_over_everything_witness:
  "\<exists>el' r. dispatch_all 5 (fst (drain 1 3 9 (attachLocked 9 1 ''h2'' held_session))) demo_elink = ([], el')
    \<and> el_relays el' ''h2'' = Some r \<and> r_rbuf r = resume_bytes held_session ''h2'' \<and> r_restoring r
    \<and> in_lost (r_info r) = 0"
proof -
  have B: "buf_inv held_session"
    using run_ok_run[OF run_ok_start, of 4096 held_ops 0 0 "''app''" demo_frame "''app/net''"]
    by (simp add: held_session_def demo_session_def run_ok_def)
  have R: "reusable (s_fp held_session) held_session" by code_simp
  have L: "length (lb_lines (s_buf held_session)) < 9" "s_lost held_session = 0" by code_simp+
  have M: "length (resume_bytes held_session ''h2'') \<le> maxPending"
  proof -
    have s: "replay_of held_session = ['':srv 001 bob :hi'']"
      "filter (\<lambda>b. max (s_acked held_session) (s_burstCovered held_session) < bl_seq b) (lb_lines (s_buf held_session))
        = [\<lparr>bl_seq = 3, bl_at = 0, bl_line = '':al PRIVMSG bob :one''\<rparr>, \<lparr>bl_seq = 4, bl_at = 0, bl_line = '':al PRIVMSG bob :two''\<rparr>]"
      by code_simp+
    have "length (TagLine '':al PRIVMSG bob :one'' 3 0 False) \<le> 100" "length (TagLine '':al PRIVMSG bob :two'' 4 0 False) \<le> 100"
      "length (replay_bytes ['':srv 001 bob :hi'']) \<le> 100" by code_simp+
    then show ?thesis unfolding resume_bytes_def s by (simp add: maxPending_def crlf_def)
  qed
  have E: "''h2'' \<in> set (el_handles demo_elink)" "el_relays demo_elink ''h2'' = Some (new_relay 5 ''net'' ''h2'')"
    by (simp_all add: demo_elink_def)
  have N: "0 < (3::nat)" "''h2'' \<noteq> []" by simp_all
  from resume_hands_over_everything[OF B R N(1) L(1) N(2) E M, of 1 9, unfolded L(2)] show ?thesis by blast
qed

end
