(* ===== verification/Core_Names.thy ===== *)
theory Core_Names
  imports Engine_Line "HOL-Library.List_Lexorder"
begin

text \<open>
  Model of the name and mode helpers of \<^verbatim>\<open>internal/core\<close>: \<^verbatim>\<open>FoldIRC\<close>/\<^verbatim>\<open>EqualIRC\<close> (\<^verbatim>\<open>sink.go\<close>), the buffer
  kinds, membership prefixes, channel modes and perform variables of \<^verbatim>\<open>engine.go\<close>. A rune is
  represented by its UTF-8 bytes; Go replaces a byte that starts no rune by U+FFFD when it maps over
  a string. The byte order of encodings is the order of code points, which is what \<^verbatim>\<open>slices.Sort\<close> on
  runes uses.
\<close>

section \<open>Runes and case folding\<close>

definition rune_error :: string where "rune_error = [CHR 0xEF, CHR 0xBF, CHR 0xBD]"

function runes :: "string \<Rightarrow> string list" where
  "runes s =
     (if s = [] then []
      else (case rune_width s of
          None \<Rightarrow> rune_error # runes (tl s)
        | Some n \<Rightarrow> take n s # runes (drop n s)))"
  by pat_completeness auto
termination by (relation "measure length") (auto dest: rune_width_pos)

declare runes.simps [simp del]

text \<open>The mapping of \<^verbatim>\<open>FoldIRC\<close>: the five ranges it names are all single bytes.\<close>

definition fold_rune :: "string \<Rightarrow> string" where
  "fold_rune r =
     (case r of
        [c] \<Rightarrow> (if CHR ''A'' \<le> c \<and> c \<le> CHR ''Z'' then [char_of (of_char c + (32::nat))]
               else if c = CHR ''['' then ''{''
               else if c = CHR '']'' then ''}''
               else if c = CHR 0x5C then ''|''
               else if c = CHR ''~'' then ''^''
               else [c])
      | _ \<Rightarrow> r)"

definition FoldIRC :: "string \<Rightarrow> string" where
  "FoldIRC s = concat (map fold_rune (runes s))"

definition EqualIRC :: "string \<Rightarrow> string \<Rightarrow> bool" where
  "EqualIRC a b \<longleftrightarrow> FoldIRC a = FoldIRC b"

section \<open>Buffer names\<close>

datatype channelKind = KindChannel | KindQuery | KindStatus

definition StatusBuffer :: string where "StatusBuffer = ''*status''"

definition isChannelName :: "string \<Rightarrow> bool" where
  "isChannelName name \<longleftrightarrow> name \<noteq> [] \<and> hd name \<in> {CHR ''#'', CHR ''&'', CHR ''+'', CHR ''!''}"

definition bufferKind :: "string \<Rightarrow> channelKind" where
  "bufferKind name =
     (if name = StatusBuffer then KindStatus
      else if isChannelName name then KindChannel else KindQuery)"

definition IsPluginBuffer :: "string \<Rightarrow> bool" where
  "IsPluginBuffer name \<longleftrightarrow> 1 < length name \<and> name ! 0 = CHR ''*'' \<and> name \<noteq> StatusBuffer"

definition IsQueryBuffer :: "string \<Rightarrow> bool" where
  "IsQueryBuffer name \<longleftrightarrow> name \<noteq> StatusBuffer \<and> \<not> isChannelName name"

section \<open>Membership prefixes\<close>

definition membershipPrefixOrder :: string where "membershipPrefixOrder = ''~&@%+''"

definition prefix_rank :: "char \<Rightarrow> nat" where
  "prefix_rank b = (case index_byte membershipPrefixOrder b of
     Some i \<Rightarrow> i | None \<Rightarrow> length membershipPrefixOrder)"

text \<open>\<^verbatim>\<open>strings.Contains\<close> and \<^verbatim>\<open>strings.ReplaceAll(s, old, "")\<close>.\<close>

fun str_contains :: "string \<Rightarrow> string \<Rightarrow> bool" where
  "str_contains [] sub = (sub = [])"
| "str_contains (c # cs) sub = (has_prefix (c # cs) sub \<or> str_contains cs sub)"

function remove_all :: "string \<Rightarrow> string \<Rightarrow> string" where
  "remove_all s old =
     (if s = [] \<or> old = [] then s
      else if has_prefix s old then remove_all (drop (length old) s) old
      else hd s # remove_all (tl s) old)"
  by pat_completeness auto
termination by (relation "measure (\<lambda>(s, old). length s)") auto

declare remove_all.simps [simp del]

fun insert_prefix :: "nat \<Rightarrow> string \<Rightarrow> string \<Rightarrow> string" where
  "insert_prefix sr sy [] = sy"
| "insert_prefix sr sy (m # ms) =
     (if sr < prefix_rank m then sy @ m # ms else m # insert_prefix sr sy ms)"

definition addPrefix :: "string \<Rightarrow> string \<Rightarrow> string" where
  "addPrefix modes sy =
     (if sy = [] \<or> str_contains modes sy then modes
      else insert_prefix (prefix_rank (hd sy)) sy modes)"

section \<open>Channel modes\<close>

text \<open>The flag loop: a set of runes as a list without repetitions.\<close>

fun mode_loop :: "bool \<Rightarrow> string list \<Rightarrow> string list \<Rightarrow> string list" where
  "mode_loop adding [] ms = ms"
| "mode_loop adding (r # rs) ms =
     (if r = ''+'' then mode_loop True rs ms
      else if r = ''-'' then mode_loop False rs ms
      else mode_loop adding rs (if adding then List.insert r ms else removeAll r ms))"

definition updateChannelMode :: "string \<Rightarrow> string \<Rightarrow> string" where
  "updateChannelMode current change =
     (let (flags, _, _) = str_cut (trim_space change) CHR '' '' in
      if \<not> has_prefix flags ''+'' \<and> \<not> has_prefix flags ''-'' then flags
      else (let start = (if has_prefix current ''+'' then remdups (runes (tl current)) else []);
                ms = mode_loop True (runes flags) start
            in if ms = [] then [] else ''+'' @ concat (sort ms)))"

section \<open>Perform variables\<close>

definition is_word_byte :: "char \<Rightarrow> bool" where
  "is_word_byte c \<longleftrightarrow> is_lower_byte c \<or> is_upper_byte c \<or> is_digit c \<or> c = CHR ''_''"

function expandPerformVariables :: "string \<Rightarrow> (string \<Rightarrow> string option) \<Rightarrow> string" where
  "expandPerformVariables line vars =
     (case line of
        [] \<Rightarrow> []
      | c # cs \<Rightarrow>
          if c \<noteq> CHR ''$'' then c # expandPerformVariables cs vars
          else (case cs of
              [] \<Rightarrow> ''$''
            | d # ds \<Rightarrow>
                if d = CHR ''$'' then CHR ''$'' # expandPerformVariables ds vars
                else if d = CHR ''{'' then
                  (case index_byte ds CHR ''}'' of
                     None \<Rightarrow> CHR ''$'' # expandPerformVariables cs vars
                   | Some off \<Rightarrow>
                       (let name = take off ds in
                        (case vars name of Some v \<Rightarrow> v | None \<Rightarrow> ''${'' @ name @ ''}'')
                        @ expandPerformVariables (drop (off + 1) ds) vars))
                else
                  (let name = takeWhile is_word_byte cs in
                   (case vars name of Some v \<Rightarrow> v | None \<Rightarrow> ''$'' @ name)
                   @ expandPerformVariables (dropWhile is_word_byte cs) vars)))"
  by pat_completeness auto
termination
  by (relation "measure (\<lambda>(line, vars). length line)")
     (auto intro: le_less_trans[OF length_dropWhile_le])

declare expandPerformVariables.simps [simp del]

section \<open>Reconnecting\<close>

definition baseBackoff :: int where "baseBackoff = 1000"
definition maxBackoff :: int where "maxBackoff = 30000"
definition stableFor :: int where "stableFor = 60000"

text \<open>Milliseconds; the delay before the next dial and the one carried on.\<close>

definition reconnectDelay :: "int \<Rightarrow> int \<Rightarrow> int \<times> int" where
  "reconnectDelay backoff lasted =
     (let backoff = (if stableFor \<le> lasted then baseBackoff else backoff)
      in (backoff, min (backoff * 2) maxBackoff))"

section \<open>Facts about folding\<close>

lemma rune_width_take:
  "rune_width s = Some n \<Longrightarrow> rune_width (take n s @ t) = Some n"
  by (cases s) (auto split: list.splits if_splits)

lemma rune_width_one: "rune_width (c # s) = Some (Suc 0) \<longleftrightarrow> of_char c < (128::nat)"
  by (auto split: list.splits if_splits)

lemma runes_Nil [simp]: "runes [] = []"
  by (subst runes.simps) simp

lemma runes_take:
  assumes "rune_width r = Some (length r)"
  shows "runes (r @ t) = r # runes t"
proof -
  have "r \<noteq> []" using rune_width_pos[OF assms] by auto
  moreover have "rune_width (r @ t) = Some (length r)" using rune_width_take[OF assms, of t] by simp
  ultimately show ?thesis by (subst runes.simps) simp
qed

definition is_rune :: "string \<Rightarrow> bool" where
  "is_rune r \<longleftrightarrow> rune_width r = Some (length r)"

lemma is_rune_error [simp]: "is_rune rune_error"
  by (simp add: is_rune_def rune_error_def in_range_def)

lemma runes_are_runes: "r \<in> set (runes s) \<Longrightarrow> is_rune r"
proof (induction s rule: runes.induct)
  case (1 s)
  then show ?case
    using rune_width_take[of s _ "[]"] rune_width_pos[of s]
    by (subst (asm) (3) runes.simps) (auto simp: is_rune_def[of "take _ _"] split: if_splits option.splits)
qed

lemma runes_concat: "\<forall>r\<in>set rs. is_rune r \<Longrightarrow> runes (concat rs) = rs"
  by (induction rs) (auto simp: is_rune_def runes_take)

lemma fold_rune_byte: "fold_rune [c] = [fold_byte c]"
  by (simp add: fold_rune_def fold_byte_def is_upper_byte_def)

lemma fold_rune_wide: "length r \<noteq> Suc 0 \<Longrightarrow> fold_rune r = r"
  by (cases r; cases "tl r") (auto simp: fold_rune_def)

lemma fold_byte_ascii: "of_char c < (128::nat) \<Longrightarrow> of_char (fold_byte c) < (128::nat)"
  using lower_char_range[of c] by (auto simp: fold_byte_def)

lemma fold_rune_is_rune: "is_rune r \<Longrightarrow> is_rune (fold_rune r)"
proof (cases "\<exists>c. r = [c]")
  case True
  then obtain c where r: "r = [c]" by blast
  moreover assume "is_rune r"
  ultimately have "of_char c < (128::nat)" using rune_width_one[of c "[]"] by (simp add: is_rune_def)
  then show ?thesis using fold_byte_ascii[of c] r
    by (simp add: fold_rune_byte is_rune_def)
next
  case False
  assume "is_rune r"
  moreover have "fold_rune r = r" using False by (intro fold_rune_wide) (auto simp: length_Suc_conv)
  ultimately show ?thesis by simp
qed

lemma fold_rune_idem [simp]: "fold_rune (fold_rune r) = fold_rune r"
proof (cases "\<exists>c. r = [c]")
  case True
  then show ?thesis by (auto simp: fold_rune_byte)
next
  case False
  then have "fold_rune r = r" by (intro fold_rune_wide) (auto simp: length_Suc_conv)
  then show ?thesis by simp
qed

lemma runes_FoldIRC: "runes (FoldIRC s) = map fold_rune (runes s)"
  unfolding FoldIRC_def by (rule runes_concat) (auto dest: runes_are_runes fold_rune_is_rune)

lemma FoldIRC_idem [simp]: "FoldIRC (FoldIRC s) = FoldIRC s"
  by (subst FoldIRC_def) (simp add: runes_FoldIRC comp_def, simp add: FoldIRC_def)

lemma EqualIRC_refl [simp]: "EqualIRC a a"
  by (simp add: EqualIRC_def)

text \<open>On valid UTF-8 the folding of the core and the byte folding of the engine are one function.\<close>

lemma high_bytes_fold: "\<not> of_char c < (128::nat) \<Longrightarrow> fold_byte c = c"
  by (auto simp: fold_byte_def is_upper_byte_def less_eq_char_def)

lemma rune_bytes_high:
  "rune_width s = Some n \<Longrightarrow> n \<noteq> Suc 0 \<Longrightarrow> \<forall>c\<in>set (take n s). \<not> of_char c < (128::nat)"
  by (cases s) (auto simp: in_range_def split: list.splits if_splits)

lemma FoldIRC_valid: "valid_string s \<Longrightarrow> FoldIRC s = fold_name s"
proof (induction s rule: valid_string.induct)
  case (1 s)
  show ?case
  proof (cases "s = []")
    case False
    then obtain n where n: "rune_width s = Some n" "valid_string (drop n s)"
      using "1.prems" by (subst (asm) valid_string.simps) (auto split: option.splits)
    have ih: "FoldIRC (drop n s) = fold_name (drop n s)" using "1.IH"[OF False n] .
    have "fold_rune (take n s) = map fold_byte (take n s)"
    proof (cases "n = Suc 0")
      case True
      then show ?thesis using False by (cases s) (simp_all add: fold_rune_byte)
    next
      case nn: False
      have "fold_rune (take n s) = take n s"
        using nn rune_width_pos[OF n(1)] by (intro fold_rune_wide) simp
      moreover have "map fold_byte (take n s) = take n s"
        using rune_bytes_high[OF n(1) nn] by (simp add: high_bytes_fold map_idI)
      ultimately show ?thesis by simp
    qed
    moreover have "FoldIRC s = fold_rune (take n s) @ FoldIRC (drop n s)"
      using False n(1) by (simp add: FoldIRC_def) (subst runes.simps, simp)
    ultimately show ?thesis using ih by (simp add: fold_name_def) (metis append_take_drop_id map_append)
  qed (simp add: FoldIRC_def fold_name_def)
qed

section \<open>Facts about prefixes and modes\<close>

definition ranked :: "string \<Rightarrow> bool" where
  "ranked modes \<longleftrightarrow> sorted_wrt (\<lambda>a b. prefix_rank a \<le> prefix_rank b) modes"

lemma str_contains_char: "str_contains s [c] \<longleftrightarrow> c \<in> set s"
  by (induction s) (auto simp: has_prefix_def)

lemma insert_prefix_set [simp]: "set (insert_prefix n sy ms) = set sy \<union> set ms"
  by (induction ms) auto

lemma insert_prefix_distinct: "c \<notin> set ms \<Longrightarrow> distinct ms \<Longrightarrow> distinct (insert_prefix n [c] ms)"
  by (induction ms) auto

lemma insert_prefix_ranked: "ranked ms \<Longrightarrow> ranked (insert_prefix (prefix_rank c) [c] ms)"
  by (induction ms) (auto simp: ranked_def)

text \<open>The last mention of a flag in a change decides.\<close>

fun final_sign :: "bool \<Rightarrow> string list \<Rightarrow> string \<Rightarrow> bool option" where
  "final_sign adding [] r = None"
| "final_sign adding (x # xs) r =
     (if x = ''+'' then final_sign True xs r
      else if x = ''-'' then final_sign False xs r
      else (case final_sign adding xs r of
          Some b \<Rightarrow> Some b
        | None \<Rightarrow> if x = r then Some adding else None))"

lemma mode_loop_set:
  "r \<in> set (mode_loop adding rs ms) \<longleftrightarrow>
     (case final_sign adding rs r of Some b \<Rightarrow> b | None \<Rightarrow> r \<in> set ms)"
  by (induction adding rs ms rule: mode_loop.induct) (auto split: option.splits)

lemma mode_loop_distinct: "distinct ms \<Longrightarrow> distinct (mode_loop adding rs ms)"
  by (induction adding rs ms rule: mode_loop.induct) (auto simp: distinct_removeAll)

lemma final_sign_mentioned: "final_sign adding rs r = Some b \<Longrightarrow> r \<in> set rs"
  by (induction adding rs r rule: final_sign.induct) (auto split: if_splits option.splits)

lemma mode_loop_subset: "set (mode_loop adding rs ms) \<subseteq> set rs \<union> set ms"
  using final_sign_mentioned by (fastforce simp: mode_loop_set split: option.splits)

lemma mode_loop_runes:
  "\<forall>r\<in>set rs \<union> set ms. is_rune r \<Longrightarrow> \<forall>r\<in>set (mode_loop adding rs ms). is_rune r"
  using mode_loop_subset[of adding rs ms] by blast

section \<open>Facts about perform lines\<close>

text \<open>A perform line as its author means it: literal text, dollars, plain and braced variables.\<close>

datatype ptoken = Lit string | Dollar | Var string | Braced string

fun render_token :: "ptoken \<Rightarrow> string" where
  "render_token (Lit s) = s"
| "render_token Dollar = ''$$''"
| "render_token (Var n) = ''$'' @ n"
| "render_token (Braced n) = ''${'' @ n @ ''}''"

fun token_value :: "(string \<Rightarrow> string option) \<Rightarrow> ptoken \<Rightarrow> string" where
  "token_value vars (Lit s) = s"
| "token_value vars Dollar = ''$''"
| "token_value vars (Var n) = (case vars n of Some v \<Rightarrow> v | None \<Rightarrow> ''$'' @ n)"
| "token_value vars (Braced n) = (case vars n of Some v \<Rightarrow> v | None \<Rightarrow> ''${'' @ n @ ''}'')"

definition render_line :: "ptoken list \<Rightarrow> string" where
  "render_line ts = concat (map render_token ts)"

fun wf_tokens :: "ptoken list \<Rightarrow> bool" where
  "wf_tokens [] = True"
| "wf_tokens (Lit s # ts) = (CHR ''$'' \<notin> set s \<and> wf_tokens ts)"
| "wf_tokens (Dollar # ts) = wf_tokens ts"
| "wf_tokens (Var n # ts) = (n \<noteq> [] \<and> (\<forall>c\<in>set n. is_word_byte c)
     \<and> (render_line ts = [] \<or> \<not> is_word_byte (hd (render_line ts))) \<and> wf_tokens ts)"
| "wf_tokens (Braced n # ts) = (CHR ''}'' \<notin> set n \<and> wf_tokens ts)"

lemma expand_Nil [simp]: "expandPerformVariables [] vars = []"
  by (subst expandPerformVariables.simps) simp

lemma expand_lit: "CHR ''$'' \<notin> set s \<Longrightarrow>
    expandPerformVariables (s @ t) vars = s @ expandPerformVariables t vars"
proof (induction s)
  case (Cons c s)
  have "c \<noteq> CHR ''$''" using Cons.prems by auto
  then show ?case using Cons by (subst append_Cons, subst expandPerformVariables.simps) simp
qed simp

lemma expand_dollar: "expandPerformVariables (''$$'' @ t) vars = ''$'' @ expandPerformVariables t vars"
  by (subst expandPerformVariables.simps) simp

lemma expand_braced:
  assumes "CHR ''}'' \<notin> set n"
  shows "expandPerformVariables (''${'' @ n @ ''}'' @ t) vars
    = (case vars n of Some v \<Rightarrow> v | None \<Rightarrow> ''${'' @ n @ ''}'') @ expandPerformVariables t vars"
  using index_byte_append[OF assms, of t]
  by (subst expandPerformVariables.simps) (simp add: Let_def)

lemma word_not_special: "is_word_byte c \<Longrightarrow> c \<noteq> CHR ''$'' \<and> c \<noteq> CHR ''{''"
  by (auto simp: is_word_byte_def is_lower_byte_def is_upper_byte_def is_digit_def less_eq_char_def)

lemma takeWhile_word:
  assumes "\<forall>c\<in>set n. is_word_byte c" "t = [] \<or> \<not> is_word_byte (hd t)"
  shows "takeWhile is_word_byte (n @ t) = n" "dropWhile is_word_byte (n @ t) = t"
  using assms by (induction n) (cases t; auto)+

lemma expand_var:
  assumes "n \<noteq> []" "\<forall>c\<in>set n. is_word_byte c" "t = [] \<or> \<not> is_word_byte (hd t)"
  shows "expandPerformVariables (''$'' @ n @ t) vars
    = (case vars n of Some v \<Rightarrow> v | None \<Rightarrow> ''$'' @ n) @ expandPerformVariables t vars"
proof -
  obtain d ds where n: "n = d # ds" using assms(1) by (cases n) auto
  have d: "d \<noteq> CHR ''$''" "d \<noteq> CHR ''{''" using word_not_special[of d] assms(2) n by auto
  show ?thesis using takeWhile_word[OF assms(2,3)] d unfolding n
    by (subst expandPerformVariables.simps) (simp add: Let_def)
qed

lemma expand_render:
  "wf_tokens ts \<Longrightarrow> expandPerformVariables (render_line ts) vars = concat (map (token_value vars) ts)"
proof (induction ts rule: wf_tokens.induct)
  case (4 n ts)
  then show ?case using expand_var[of n "render_line ts" vars] by (simp add: render_line_def)
next
  case (5 n ts)
  then show ?case using expand_braced[of n "render_line ts" vars] by (simp add: render_line_def)
next
  case (3 ts)
  then show ?case using expand_dollar[of "render_line ts" vars] by (simp add: render_line_def)
qed (simp_all add: render_line_def expand_lit)

section \<open>Properties\<close>

lemma FoldIRC_ascii_ends: "EqualIRC a b \<Longrightarrow> EqualIRC b c \<Longrightarrow> EqualIRC a c"
  by (simp add: EqualIRC_def)

text \<open>
  The core and the connection engine identify the same names: on valid UTF-8 the rune folding of
  \<^verbatim>\<open>FoldIRC\<close> and the byte folding of the engine agree, so two names are one buffer for the core exactly
  when the engine keeps one membership for them; folding a folded name changes nothing.\<close>

theorem core_and_engine_fold_alike:
  assumes "valid_string a" "valid_string b"
  shows "(EqualIRC a b \<longleftrightarrow> fold_name a = fold_name b) \<and> FoldIRC (FoldIRC a) = FoldIRC a"
  using assms by (simp add: EqualIRC_def FoldIRC_valid) (metis FoldIRC_idem FoldIRC_valid)

theorem core_and_engine_fold_alike_witness:
  "(EqualIRC ''#Chan[1]'' ''#chan{1}'' \<longleftrightarrow> fold_name ''#Chan[1]'' = fold_name ''#chan{1}'')
     \<and> FoldIRC (FoldIRC ''#Chan[1]'') = FoldIRC ''#Chan[1]''"
proof (rule core_and_engine_fold_alike)
  show "valid_string ''#Chan[1]''" by code_simp
  show "valid_string ''#chan{1}''" by code_simp
qed

text \<open>
  Adding a membership prefix keeps the prefix string in rank order (owner, admin, operator, half
  operator, voice), without repetitions, and adds exactly that prefix.\<close>

theorem addPrefix_keeps_rank:
  assumes "ranked modes" "distinct modes"
  shows "ranked (addPrefix modes [c]) \<and> distinct (addPrefix modes [c])
    \<and> set (addPrefix modes [c]) = insert c (set modes)"
  using assms
  by (auto simp: addPrefix_def str_contains_char insert_prefix_ranked insert_prefix_distinct)

theorem addPrefix_keeps_rank_witness:
  "ranked (addPrefix ''~+'' ''@'') \<and> distinct (addPrefix ''~+'' ''@'')
    \<and> set (addPrefix ''~+'' ''@'') = insert CHR ''@'' (set ''~+'')"
  by (rule addPrefix_keeps_rank[of "''~+''" "CHR ''@''"]) code_simp+

text \<open>
  Merging a mode change: when the change starts with a sign, a flag is set afterwards exactly when
  its last mention in the change was under a plus, or it is not mentioned and was set before; the
  flags are sorted and unique.\<close>

theorem last_mode_mention_wins:
  assumes "str_cut (trim_space change) CHR '' '' = (flags, rest, found)"
    and "has_prefix flags ''+'' \<or> has_prefix flags ''-''"
  shows "\<exists>ms. updateChannelMode current change = (if ms = [] then [] else ''+'' @ concat ms)
    \<and> sorted ms \<and> distinct ms
    \<and> runes (concat ms) = ms
    \<and> (\<forall>r. r \<in> set ms \<longleftrightarrow> (case final_sign True (runes flags) r of Some b \<Rightarrow> b
          | None \<Rightarrow> has_prefix current ''+'' \<and> r \<in> set (runes (tl current))))"
proof -
  define start where "start = (if has_prefix current ''+'' then remdups (runes (tl current)) else [])"
  define ms where "ms = mode_loop True (runes flags) start"
  have "sort ms = [] \<longleftrightarrow> ms = []" by (metis set_empty set_sort)
  then have "updateChannelMode current change = (if sort ms = [] then [] else ''+'' @ concat (sort ms))"
    using assms by (auto simp: updateChannelMode_def ms_def start_def Let_def)
  moreover have "distinct ms" unfolding ms_def start_def by (rule mode_loop_distinct) simp
  moreover have "runes (concat (sort ms)) = sort ms"
  proof (rule runes_concat)
    have "\<forall>r\<in>set (runes flags) \<union> set start. is_rune r"
      using runes_are_runes by (auto simp: start_def split: if_splits)
    from mode_loop_runes[OF this, of True] show "\<forall>r\<in>set (sort ms). is_rune r" by (simp add: ms_def)
  qed
  moreover have "r \<in> set (sort ms) \<longleftrightarrow> (case final_sign True (runes flags) r of Some b \<Rightarrow> b
      | None \<Rightarrow> has_prefix current ''+'' \<and> r \<in> set (runes (tl current)))" for r
    by (simp add: ms_def start_def mode_loop_set split: option.splits)
  ultimately show ?thesis by (intro exI[of _ "sort ms"]) simp
qed

theorem last_mode_mention_wins_witness:
  "\<exists>ms. updateChannelMode ''+nt'' ''-n+k-t+t key'' = (if ms = [] then [] else ''+'' @ concat ms)
    \<and> sorted ms \<and> distinct ms
    \<and> runes (concat ms) = ms
    \<and> (\<forall>r. r \<in> set ms \<longleftrightarrow> (case final_sign True (runes ''-n+k-t+t'') r of Some b \<Rightarrow> b
          | None \<Rightarrow> has_prefix ''+nt'' ''+'' \<and> r \<in> set (runes (tl ''+nt''))))"
  by (rule last_mode_mention_wins[of _ _ "''key''" True]) code_simp+

text \<open>
  Expanding a perform line replaces every \<^verbatim>\<open>$name\<close> and \<^verbatim>\<open>${name}\<close> of a known variable by its value, keeps
  unknown ones as written, turns \<^verbatim>\<open>$$\<close> into one dollar and copies everything else; substituted values
  are not expanded again.\<close>

theorem perform_variables_expand:
  assumes "wf_tokens ts"
  shows "expandPerformVariables (render_line ts) vars = concat (map (token_value vars) ts)"
  by (rule expand_render[OF assms])

theorem perform_variables_expand_witness:
  "expandPerformVariables (render_line [Lit ''MODE '', Var ''nick'', Lit '' +x '', Dollar, Braced ''net'', Braced ''q''])
      [''nick'' \<mapsto> ''bob$net'', ''net'' \<mapsto> ''libera'']
    = concat (map (token_value [''nick'' \<mapsto> ''bob$net'', ''net'' \<mapsto> ''libera''])
        [Lit ''MODE '', Var ''nick'', Lit '' +x '', Dollar, Braced ''net'', Braced ''q''])"
  by (rule perform_variables_expand) code_simp

text \<open>The delays used over a sequence of connections that lasted so long each.\<close>

fun delays :: "int \<Rightarrow> int list \<Rightarrow> int list" where
  "delays backoff [] = []"
| "delays backoff (l # ls) = fst (reconnectDelay backoff l) # delays (snd (reconnectDelay backoff l)) ls"

lemma delays_bounds:
  "baseBackoff \<le> b \<Longrightarrow> b \<le> maxBackoff \<Longrightarrow> d \<in> set (delays b ls) \<Longrightarrow> baseBackoff \<le> d \<and> d \<le> maxBackoff"
proof (induction ls arbitrary: b)
  case (Cons l ls)
  have "baseBackoff \<le> snd (reconnectDelay b l) \<and> snd (reconnectDelay b l) \<le> maxBackoff"
    using Cons.prems by (auto simp: reconnectDelay_def baseBackoff_def maxBackoff_def)
  moreover have "baseBackoff \<le> fst (reconnectDelay b l) \<and> fst (reconnectDelay b l) \<le> maxBackoff"
    using Cons.prems by (auto simp: reconnectDelay_def baseBackoff_def maxBackoff_def)
  ultimately show ?case using Cons by auto
qed simp

lemma delays_short:
  "\<forall>l\<in>set ls. l < stableFor \<Longrightarrow> k < length ls \<Longrightarrow> baseBackoff \<le> b \<Longrightarrow> b \<le> maxBackoff \<Longrightarrow>
    delays b ls ! k = min (b * 2 ^ k) maxBackoff"
proof (induction ls arbitrary: b k)
  case (Cons l ls)
  have l: "reconnectDelay b l = (b, min (b * 2) maxBackoff)" using Cons.prems by (simp add: reconnectDelay_def)
  show ?case
  proof (cases k)
    case (Suc j)
    have "delays (min (b * 2) maxBackoff) ls ! j = min (min (b * 2) maxBackoff * 2 ^ j) maxBackoff"
      using Cons.prems Suc by (intro Cons.IH) (auto simp: baseBackoff_def maxBackoff_def)
    moreover have "min (min (b * 2) maxBackoff * 2 ^ j) maxBackoff = min (b * 2 * 2 ^ j) maxBackoff"
    proof (cases "b * 2 \<le> maxBackoff")
      case False
      then have "maxBackoff * 1 \<le> (b * 2) * 2 ^ j" "maxBackoff * 1 \<le> maxBackoff * 2 ^ j"
        by (intro mult_mono; simp add: maxBackoff_def)+
      then show ?thesis using False by (simp add: min_def)
    qed (simp add: min_def)
    ultimately show ?thesis using Suc l by (simp add: mult.assoc)
  qed (use l Cons.prems in simp)
qed simp

text \<open>
  Reconnecting backs off: every delay lies between one and thirty seconds, and after a row of
  connections that each dropped before they were stable the next delay has doubled each time up to the
  cap.\<close>

theorem reconnect_backs_off:
  assumes "\<forall>l\<in>set short. l < stableFor" "k < length short"
  shows "set (delays baseBackoff ls) \<subseteq> {baseBackoff..maxBackoff}
    \<and> delays baseBackoff short ! k = min (baseBackoff * 2 ^ k) maxBackoff"
  using delays_bounds[of baseBackoff _ ls] delays_short[OF assms, of baseBackoff]
  by (auto simp: baseBackoff_def maxBackoff_def)

theorem reconnect_backs_off_witness:
  "set (delays baseBackoff [70000, 5, 5]) \<subseteq> {baseBackoff..maxBackoff}
    \<and> delays baseBackoff [1, 2, 3, 4, 5, 6] ! 5 = min (baseBackoff * 2 ^ 5) maxBackoff"
  by (rule reconnect_backs_off) (simp_all add: stableFor_def)

end
