(* ===== verification/Core_Network.thy ===== *)
theory Core_Network
  imports Core_Names
begin

text \<open>
  Model of the domain state of \<^verbatim>\<open>internal/core/types.go\<close> and \<^verbatim>\<open>network.go\<close>: members, channels, networks and
  their parameters, with the operations of \<^verbatim>\<open>Network\<close>. A network holds its buffers twice: in display
  order (\<^verbatim>\<open>Channels\<close>) and through the lookaside map \<^verbatim>\<open>byFold\<close> by folded name. Both hold pointers to the same
  objects, so the model keeps a store of channels and both structures hold addresses into it; a
  channel is allocated at the end of the store and never moved. \<^verbatim>\<open>byFold\<close> starts nil and is built on
  first use. Go maps over keys that are only looked up are HOL maps; \<^verbatim>\<open>ChannelKeys\<close>, which the code ranges
  over, is an association list in iteration order.
\<close>

section \<open>Data\<close>

datatype connState = StateDisconnected | StateConnecting | StateRegistered

datatype msgKind = MsgPrivmsg | MsgNotice | MsgAction | MsgJoin | MsgPart | MsgQuit | MsgNick
  | MsgChghost | MsgSetname | MsgTopic | MsgSystem

record member =
  m_Nick :: string
  m_Account :: string
  m_Modes :: string
  m_Away :: bool

text \<open>Times are nanoseconds; 0 is the zero time.\<close>

record channel =
  ch_Name :: string
  ch_Kind :: channelKind
  ch_Topic :: string
  ch_TopicSetter :: string
  ch_TopicTime :: int
  ch_Mode :: string
  ch_Members :: "string \<rightharpoonup> member"
  ch_Unread :: int
  ch_Highlight :: int
  ch_State :: "(string \<times> string) list"

record bouncerNetwork =
  b_ID :: string
  b_Name :: string
  b_Host :: string
  b_Port :: int
  b_TLS :: bool
  b_Nick :: string
  b_State :: string
  b_Error :: string

record networkParams =
  p_ID :: string
  p_Name :: string
  p_Addr :: string
  p_Fallbacks :: "string list"
  p_TLS :: bool
  p_Insecure :: bool
  p_Nick :: string
  p_User :: string
  p_Realname :: string
  p_SASLUser :: string
  p_SASLPass :: string
  p_Channels :: "string list"
  p_Monitor :: "string list"
  p_ChannelKeys :: "(string \<times> string) list"
  p_ServerPass :: string
  p_Perform :: "string list"
  p_SASLExternal :: bool
  p_SASLScram :: bool
  p_CertPEM :: string
  p_Pos :: int
  p_BufferOrder :: "string list"
  p_JoinHoldTimeout :: int

record network =
  n_ID :: string
  n_Name :: string
  n_Nick :: string
  n_State :: connState
  n_Channels :: "nat list"
  n_byFold :: "(string \<rightharpoonup> nat) option"
  n_Caps :: "string list"
  n_Params :: networkParams
  n_MonitorOnline :: "string \<rightharpoonup> bool"
  n_Bouncer :: "bouncerNetwork list"
  n_store :: "channel list"

text \<open>The message of \<^verbatim>\<open>types.go\<close>; its sequence number is assigned by the history store.\<close>

record message =
  msg_ID :: string
  msg_Seq :: int
  msg_Network :: string
  msg_Buffer :: string
  msg_Time :: int
  msg_From :: string
  msg_Account :: string
  msg_Kind :: msgKind
  msg_Text :: string
  msg_Tags :: "(string \<times> string) list"
  msg_Self :: bool
  msg_Highlight :: bool

definition new_channel :: "string \<Rightarrow> channelKind \<Rightarrow> channel" where
  "new_channel name kind = \<lparr>ch_Name = name, ch_Kind = kind, ch_Topic = [], ch_TopicSetter = [],
     ch_TopicTime = 0, ch_Mode = [], ch_Members = Map.empty, ch_Unread = 0, ch_Highlight = 0, ch_State = []\<rparr>"

lemma new_channel_sel [simp]:
  "ch_Name (new_channel name kind) = name" "ch_Kind (new_channel name kind) = kind"
  "ch_Members (new_channel name kind) = Map.empty" "ch_State (new_channel name kind) = []"
  by (simp_all add: new_channel_def)

text \<open>The network \<^verbatim>\<open>AddNetwork\<close> and \<^verbatim>\<open>AddNetworkLive\<close> append.\<close>

definition new_network :: "networkParams \<Rightarrow> network" where
  "new_network p = \<lparr>n_ID = p_ID p, n_Name = p_Name p, n_Nick = p_Nick p, n_State = StateDisconnected,
     n_Channels = [], n_byFold = None, n_Caps = [], n_Params = p, n_MonitorOnline = Map.empty,
     n_Bouncer = [], n_store = []\<rparr>"

section \<open>Buffers of a network\<close>

definition chan_at :: "network \<Rightarrow> nat \<Rightarrow> channel" where
  "chan_at n a = n_store n ! a"

text \<open>Writing through a channel pointer.\<close>

definition upd_chan :: "(channel \<Rightarrow> channel) \<Rightarrow> nat \<Rightarrow> network \<Rightarrow> network" where
  "upd_chan f a n = n\<lparr>n_store := (n_store n)[a := f (chan_at n a)]\<rparr>"

fun index_channels :: "channel list \<Rightarrow> nat list \<Rightarrow> (string \<rightharpoonup> nat) \<Rightarrow> (string \<rightharpoonup> nat)" where
  "index_channels st [] m = m"
| "index_channels st (a # as) m = index_channels st as (m(FoldIRC (ch_Name (st ! a)) \<mapsto> a))"

definition initByFold :: "network \<Rightarrow> network" where
  "initByFold n = (case n_byFold n of
     None \<Rightarrow> n\<lparr>n_byFold := Some (index_channels (n_store n) (n_Channels n) Map.empty)\<rparr>
   | Some _ \<Rightarrow> n)"

definition Channel :: "network \<Rightarrow> string \<Rightarrow> network \<times> nat option" where
  "Channel n name = (let n = initByFold n in (n, the (n_byFold n) (FoldIRC name)))"

definition getOrCreate :: "network \<Rightarrow> string \<Rightarrow> channelKind \<Rightarrow> network \<times> nat \<times> bool" where
  "getOrCreate n name kind =
     (let (n, c) = Channel n name in
      case c of
        Some a \<Rightarrow> (n, a, False)
      | None \<Rightarrow>
          (let a = length (n_store n);
               n = n\<lparr>n_store := n_store n @ [new_channel name kind], n_Channels := n_Channels n @ [a]\<rparr>;
               n = initByFold n
           in (n\<lparr>n_byFold := Some ((the (n_byFold n))(FoldIRC name \<mapsto> a))\<rparr>, a, True)))"

fun remove_first :: "('a \<Rightarrow> bool) \<Rightarrow> 'a list \<Rightarrow> 'a list" where
  "remove_first P [] = []"
| "remove_first P (x # xs) = (if P x then xs else x # remove_first P xs)"

definition remove_buffer :: "network \<Rightarrow> string \<Rightarrow> network" where
  "remove_buffer n name =
     (let n = initByFold n;
          n = n\<lparr>n_byFold := Some ((the (n_byFold n))(FoldIRC name := None))\<rparr>
      in n\<lparr>n_Channels := remove_first (\<lambda>a. EqualIRC (ch_Name (chan_at n a)) name) (n_Channels n)\<rparr>)"

section \<open>The auto-join list and the join keys\<close>

definition lookupChannelKey :: "networkParams \<Rightarrow> string \<Rightarrow> string option" where
  "lookupChannelKey p name = map_option snd (find (\<lambda>(k, v). EqualIRC k name) (p_ChannelKeys p))"

definition deleteChannelKey :: "networkParams \<Rightarrow> string \<Rightarrow> networkParams" where
  "deleteChannelKey p name = p\<lparr>p_ChannelKeys := filter (\<lambda>(k, v). \<not> EqualIRC k name) (p_ChannelKeys p)\<rparr>"

definition setChannelKey :: "networkParams \<Rightarrow> string \<Rightarrow> string \<Rightarrow> networkParams \<times> bool" where
  "setChannelKey p name key =
     (let had = lookupChannelKey p name in
      if key = [] then (if had = None then (p, False) else (deleteChannelKey p name, True))
      else if had = Some key then (p, False)
      else (let p = deleteChannelKey p name
            in (p\<lparr>p_ChannelKeys := p_ChannelKeys p @ [(name, key)]\<rparr>, True)))"

definition addAutojoin :: "networkParams \<Rightarrow> string \<Rightarrow> string \<Rightarrow> bool \<Rightarrow> networkParams \<times> bool" where
  "addAutojoin p name key hasKey =
     (if \<not> isChannelName name then (p, False)
      else
        (let (changed, name) = (case find (\<lambda>c. EqualIRC c name) (p_Channels p) of
                                  Some c \<Rightarrow> (False, c) | None \<Rightarrow> (True, name));
             p = (if changed then p\<lparr>p_Channels := p_Channels p @ [name]\<rparr> else p)
         in if hasKey then (let (p, k) = setChannelKey p name key in (p, changed \<or> k))
            else (p, changed)))"

definition removeAutojoin :: "networkParams \<Rightarrow> string \<Rightarrow> networkParams \<times> bool" where
  "removeAutojoin p name =
     (let changed = (\<exists>c\<in>set (p_Channels p). EqualIRC c name);
          p = p\<lparr>p_Channels := remove_first (\<lambda>c. EqualIRC c name) (p_Channels p)\<rparr>
      in if lookupChannelKey p name \<noteq> None then (deleteChannelKey p name, True) else (p, changed))"

lemmas [core_defs] = chan_at_def upd_chan_def Channel_def getOrCreate_def remove_buffer_def
  lookupChannelKey_def deleteChannelKey_def setChannelKey_def addAutojoin_def removeAutojoin_def

section \<open>The buffer table and its contract\<close>

text \<open>
  What the rest of the core relies on: a table of values with unique keys, listed in order of
  insertion. Networks of a user, keyed by id, and buffers of a network, keyed by folded name, are
  both such tables.
\<close>

locale keyed_table =
  fixes inv :: "'s \<Rightarrow> bool"
    and view :: "'s \<Rightarrow> 'v list"
    and key :: "'v \<Rightarrow> 'k"
    and fold_key :: "'n \<Rightarrow> 'k"
    and lookup :: "'s \<Rightarrow> 'n \<Rightarrow> 'v option"
    and add :: "'s \<Rightarrow> 'n \<Rightarrow> 'a \<Rightarrow> 's"
    and make :: "'n \<Rightarrow> 'a \<Rightarrow> 'v"
    and del :: "'s \<Rightarrow> 'n \<Rightarrow> 's"
  assumes keys_distinct: "inv s \<Longrightarrow> distinct (map key (view s))"
    and key_make: "key (make m a) = fold_key m"
    and lookup_view: "inv s \<Longrightarrow> lookup s m = find (\<lambda>v. key v = fold_key m) (view s)"
    and view_add: "inv s \<Longrightarrow> lookup s m = None \<Longrightarrow> view (add s m a) = view s @ [make m a]"
    and inv_add: "inv s \<Longrightarrow> lookup s m = None \<Longrightarrow> inv (add s m a)"
    and view_del: "inv s \<Longrightarrow> view (del s m) = filter (\<lambda>v. key v \<noteq> fold_key m) (view s)"
    and inv_del: "inv s \<Longrightarrow> inv (del s m)"
begin

lemma lookup_key: "inv s \<Longrightarrow> lookup s m = Some v \<Longrightarrow> key v = fold_key m \<and> v \<in> set (view s)"
  using lookup_view[of s m] find_SomeD[of "\<lambda>v. key v = fold_key m" "view s" v] by simp

lemma lookup_in_view:
  assumes "inv s" "v \<in> set (view s)" "key v = fold_key m"
  shows "lookup s m = Some v"
  using lookup_view[OF assms(1), of m] find_unique_key[OF keys_distinct[OF assms(1)] assms(2)] assms(3) by simp

lemma lookup_None: "inv s \<Longrightarrow> lookup s m = None \<longleftrightarrow> (\<forall>v\<in>set (view s). key v \<noteq> fold_key m)"
  using lookup_view[of s m] by (auto simp: find_None_iff)

lemma lookup_add_same:
  "inv s \<Longrightarrow> lookup s m = None \<Longrightarrow> fold_key m' = fold_key m \<Longrightarrow> lookup (add s m a) m' = Some (make m a)"
  using lookup_in_view[OF inv_add, of s m "make m a" a m'] view_add[of s m a] key_make[of m a] by simp

lemma lookup_add_other:
  assumes "inv s" "lookup s m = None" "fold_key m' \<noteq> fold_key m"
  shows "lookup (add s m a) m' = lookup s m'"
  using assms lookup_view[OF inv_add[OF assms(1,2)], of a m'] lookup_view[OF assms(1), of m']
    view_add[OF assms(1,2), of a] key_make[of m a]
  by (simp add: find_append_case split: option.splits)

lemma lookup_del_same: "inv s \<Longrightarrow> fold_key m' = fold_key m \<Longrightarrow> lookup (del s m) m' = None"
  using lookup_None[OF inv_del, of s m m'] view_del[of s m] by simp

lemma lookup_del_other:
  assumes "inv s" "fold_key m' \<noteq> fold_key m"
  shows "lookup (del s m) m' = lookup s m'"
proof (cases "lookup s m'")
  case None
  then show ?thesis
    using lookup_None[OF assms(1), of m'] lookup_None[OF inv_del[OF assms(1)], of m m'] view_del[OF assms(1), of m]
    by simp
next
  case (Some v)
  then have "key v = fold_key m'" "v \<in> set (view (del s m))"
    using lookup_key[OF assms(1), of m' v] view_del[OF assms(1), of m] assms(2) by auto
  then show ?thesis using Some lookup_in_view[OF inv_del[OF assms(1)], of v m m'] by simp
qed

lemma add_del: "inv s \<Longrightarrow> lookup s m = None \<Longrightarrow> view (del (add s m a) m) = view s"
  using view_del[OF inv_add, of s m a m] view_add[of s m a] lookup_None[of s m] key_make[of m a]
  by (auto simp: filter_id_conv)

end

section \<open>Coherence of a network's buffers\<close>

definition fold_at :: "network \<Rightarrow> nat \<Rightarrow> string" where
  "fold_at n a = FoldIRC (ch_Name (chan_at n a))"

definition table_ok :: "network \<Rightarrow> bool" where
  "table_ok n \<longleftrightarrow> distinct (n_Channels n) \<and> (\<forall>a\<in>set (n_Channels n). a < length (n_store n))
     \<and> distinct (map (fold_at n) (n_Channels n))
     \<and> (case n_byFold n of None \<Rightarrow> True
        | Some m \<Rightarrow> \<forall>f. m f = find (\<lambda>a. fold_at n a = f) (n_Channels n))"

text \<open>The buffers as a client sees them, and the lookup of one.\<close>

definition buffers :: "network \<Rightarrow> channel list" where
  "buffers n = map (chan_at n) (n_Channels n)"

definition buffer_of :: "network \<Rightarrow> string \<Rightarrow> channel option" where
  "buffer_of n name = map_option (chan_at n) (snd (Channel n name))"

lemma table_okD:
  assumes "table_ok n"
  shows "distinct (n_Channels n)" "\<And>a. a \<in> set (n_Channels n) \<Longrightarrow> a < length (n_store n)"
    "distinct (map (fold_at n) (n_Channels n))"
    "\<And>m f. n_byFold n = Some m \<Longrightarrow> m f = find (\<lambda>a. fold_at n a = f) (n_Channels n)"
  using assms by (auto simp: table_ok_def)

lemma table_okI:
  assumes "distinct (n_Channels n)" "\<And>a. a \<in> set (n_Channels n) \<Longrightarrow> a < length (n_store n)"
    "distinct (map (fold_at n) (n_Channels n))"
    "\<And>m f. n_byFold n = Some m \<Longrightarrow> m f = find (\<lambda>a. fold_at n a = f) (n_Channels n)"
  shows "table_ok n"
  using assms by (auto simp: table_ok_def split: option.splits)

lemma index_channels_spec:
  assumes "distinct (map (\<lambda>a. FoldIRC (ch_Name (st ! a))) as)"
  shows "index_channels st as m f =
    (case find (\<lambda>a. FoldIRC (ch_Name (st ! a)) = f) as of Some a \<Rightarrow> Some a | None \<Rightarrow> m f)"
  using assms
proof (induction as arbitrary: m)
  case (Cons a as)
  show ?case
  proof (cases "FoldIRC (ch_Name (st ! a)) = f")
    case True
    then have "find (\<lambda>a. FoldIRC (ch_Name (st ! a)) = f) as = None"
      using Cons.prems by (auto simp: find_None_iff image_iff)
    then show ?thesis using Cons True by simp
  next
    case False
    have "index_channels st as (m(FoldIRC (ch_Name (st ! a)) \<mapsto> a)) f =
      (case find (\<lambda>a. FoldIRC (ch_Name (st ! a)) = f) as of Some b \<Rightarrow> Some b
       | None \<Rightarrow> (m(FoldIRC (ch_Name (st ! a)) \<mapsto> a)) f)"
      using Cons.prems by (intro Cons.IH) simp
    then show ?thesis using False by (simp split: option.splits)
  qed
qed simp

lemma initByFold_fields [simp]:
  "n_Channels (initByFold n) = n_Channels n" "n_store (initByFold n) = n_store n"
  "n_ID (initByFold n) = n_ID n" "n_Name (initByFold n) = n_Name n" "n_Nick (initByFold n) = n_Nick n"
  "n_State (initByFold n) = n_State n" "n_Params (initByFold n) = n_Params n"
  "n_MonitorOnline (initByFold n) = n_MonitorOnline n" "n_Bouncer (initByFold n) = n_Bouncer n"
  "chan_at (initByFold n) = chan_at n" "fold_at (initByFold n) = fold_at n"
  "n_byFold (initByFold n) \<noteq> None" "buffers (initByFold n) = buffers n"
  by (auto simp: initByFold_def chan_at_def fold_at_def buffers_def fun_eq_iff split: option.splits)

lemma initByFold_idem [simp]: "initByFold (initByFold n) = initByFold n"
  by (auto simp: initByFold_def split: option.splits)

lemma initByFold_lookup:
  assumes "table_ok n"
  shows "the (n_byFold (initByFold n)) f = find (\<lambda>a. fold_at n a = f) (n_Channels n)"
proof (cases "n_byFold n")
  case None
  have "distinct (map (\<lambda>a. FoldIRC (ch_Name (n_store n ! a))) (n_Channels n))"
    using table_okD(3)[OF assms] by (simp add: fold_at_def[abs_def] chan_at_def)
  then show ?thesis using None
    by (simp add: initByFold_def index_channels_spec fold_at_def chan_at_def split: option.splits)
next
  case (Some m)
  then show ?thesis using table_okD(4)[OF assms Some] by (simp add: initByFold_def)
qed

lemma initByFold_ok [simp]: "table_ok n \<Longrightarrow> table_ok (initByFold n)"
  by (rule table_okI) (auto dest: table_okD(1-3), metis initByFold_lookup option.sel)

lemma Channel_spec:
  "table_ok n \<Longrightarrow> Channel n name = (initByFold n, find (\<lambda>a. fold_at n a = FoldIRC name) (n_Channels n))"
  by (simp add: Channel_def Let_def initByFold_lookup)

lemma buffer_of_spec:
  "table_ok n \<Longrightarrow> buffer_of n name = find (\<lambda>c. FoldIRC (ch_Name c) = FoldIRC name) (buffers n)"
  by (simp add: buffer_of_def Channel_spec buffers_def find_map fold_at_def)

text \<open>Creating a buffer.\<close>

lemma getOrCreate_found:
  "table_ok n \<Longrightarrow> find (\<lambda>a. fold_at n a = FoldIRC name) (n_Channels n) = Some a \<Longrightarrow>
    getOrCreate n name kind = (initByFold n, a, False)"
  by (simp add: getOrCreate_def Channel_spec)

lemma getOrCreate_new:
  assumes "table_ok n" "find (\<lambda>a. fold_at n a = FoldIRC name) (n_Channels n) = None"
  shows "getOrCreate n name kind =
    ((initByFold n)\<lparr>n_store := n_store n @ [new_channel name kind],
       n_Channels := n_Channels n @ [length (n_store n)],
       n_byFold := Some ((the (n_byFold (initByFold n)))(FoldIRC name \<mapsto> length (n_store n)))\<rparr>,
     length (n_store n), True)"
proof -
  obtain m where m: "n_byFold (initByFold n) = Some m" using initByFold_fields(12)[of n] by blast
  have "initByFold (k\<lparr>n_store := s, n_Channels := c\<rparr>) = k\<lparr>n_store := s, n_Channels := c\<rparr>"
    if "n_byFold k = Some m" for k s c using that by (simp add: initByFold_def)
  from this[OF m] show ?thesis using assms m by (simp add: getOrCreate_def Channel_spec Let_def)
qed

lemma chan_at_append:
  "a < length (n_store n) \<Longrightarrow> n_store n' = n_store n @ [c] \<Longrightarrow> chan_at n' a = chan_at n a"
  "n_store n' = n_store n @ [c] \<Longrightarrow> chan_at n' (length (n_store n)) = c"
  by (simp_all add: chan_at_def nth_append)

lemma append_buffer_ok:
  assumes ok: "table_ok n" and free: "find (\<lambda>a. fold_at n a = FoldIRC name) (n_Channels n) = None"
    and st: "n_store n' = n_store n @ [c]" and ch: "n_Channels n' = n_Channels n @ [length (n_store n)]"
    and nm: "ch_Name c = name"
    and bf: "n_byFold n' = Some (m(FoldIRC name \<mapsto> length (n_store n)))"
    and m: "\<And>f. m f = find (\<lambda>a. fold_at n a = f) (n_Channels n)"
  shows "table_ok n' \<and> buffers n' = buffers n @ [c]"
proof -
  note D = table_okD[OF ok]
  have old: "chan_at n' a = chan_at n a" "fold_at n' a = fold_at n a" if "a \<in> set (n_Channels n)" for a
    using chan_at_append(1)[OF D(2)[OF that] st] by (simp_all add: fold_at_def)
  have new: "chan_at n' (length (n_store n)) = c" "fold_at n' (length (n_store n)) = FoldIRC name"
    using chan_at_append(2)[OF st] nm by (simp_all add: fold_at_def)
  have fr: "\<And>a. a \<in> set (n_Channels n) \<Longrightarrow> fold_at n a \<noteq> FoldIRC name" using free by (auto simp: find_None_iff)
  have maps: "map (fold_at n') (n_Channels n) = map (fold_at n) (n_Channels n)"
    "find (\<lambda>a. fold_at n' a = f) (n_Channels n) = find (\<lambda>a. fold_at n a = f) (n_Channels n)" for f
    using old by (auto intro!: find_cong)
  have "table_ok n'"
  proof (rule table_okI)
    show "distinct (n_Channels n')" using D(1,2) ch by auto
    show "a < length (n_store n')" if "a \<in> set (n_Channels n')" for a using that D(2)[of a] ch st by auto
    have "FoldIRC name \<notin> fold_at n ` set (n_Channels n)" using fr by (metis imageE)
    then show "distinct (map (fold_at n') (n_Channels n'))"
      using D(3) by (simp only: ch map_append maps(1)) (simp add: new)
    show "k f = find (\<lambda>a. fold_at n' a = f) (n_Channels n')" if "n_byFold n' = Some k" for k f
      using that bf m[of f] ch new maps(2)[of f] fr free
      by (auto simp: find_append_case split: option.splits)
  qed
  moreover have "buffers n' = buffers n @ [c]" using ch new old by (simp add: buffers_def)
  ultimately show ?thesis ..
qed

lemma getOrCreate_new_ok:
  assumes "table_ok n" "find (\<lambda>a. fold_at n a = FoldIRC name) (n_Channels n) = None"
    "getOrCreate n name kind = (n', a, created)"
  shows "table_ok n' \<and> buffers n' = buffers n @ [new_channel name kind] \<and> created
    \<and> a = length (n_store n) \<and> chan_at n' a = new_channel name kind"
proof -
  have n': "n' = (initByFold n)\<lparr>n_store := n_store n @ [new_channel name kind],
       n_Channels := n_Channels n @ [length (n_store n)],
       n_byFold := Some ((the (n_byFold (initByFold n)))(FoldIRC name \<mapsto> length (n_store n)))\<rparr>"
    and r: "a = length (n_store n)" "created"
    using assms getOrCreate_new[OF assms(1,2), of kind] by auto
  have "table_ok n' \<and> buffers n' = buffers n @ [new_channel name kind]"
    by (rule append_buffer_ok[OF assms(1,2), where m = "the (n_byFold (initByFold n))"])
       (simp_all add: n' initByFold_lookup[OF assms(1)])
  moreover have "chan_at n' a = new_channel name kind" using n' r by (simp add: chan_at_def)
  ultimately show ?thesis using r by simp
qed

text \<open>Removing one.\<close>

lemma find_filter_other: "(\<And>x. P x \<Longrightarrow> Q x) \<Longrightarrow> find P (filter Q xs) = find P xs"
  by (induction xs) auto

lemma remove_first_filter: "distinct (map f xs) \<Longrightarrow> remove_first (\<lambda>x. f x = k) xs = filter (\<lambda>x. f x \<noteq> k) xs"
proof (induction xs)
  case (Cons x xs)
  then have "f x = k \<Longrightarrow> filter (\<lambda>x. f x \<noteq> k) xs = xs"
    by (simp add: filter_id_conv) (metis imageI)
  then show ?case using Cons by simp
qed simp

lemma remove_buffer_spec:
  assumes "table_ok n"
  shows "remove_buffer n name = (initByFold n)\<lparr>n_byFold := Some ((the (n_byFold (initByFold n)))(FoldIRC name := None)),
     n_Channels := filter (\<lambda>a. fold_at n a \<noteq> FoldIRC name) (n_Channels n)\<rparr>"
  using remove_first_filter[OF table_okD(3)[OF assms], of "FoldIRC name"]
  by (simp add: remove_buffer_def Let_def EqualIRC_def fold_at_def chan_at_def)

lemma remove_buffer_ok:
  assumes ok: "table_ok n"
  shows "table_ok (remove_buffer n name)
    \<and> buffers (remove_buffer n name) = filter (\<lambda>c. FoldIRC (ch_Name c) \<noteq> FoldIRC name) (buffers n)"
proof -
  note D = table_okD[OF ok] and S = remove_buffer_spec[OF ok, of name]
  have at: "chan_at (remove_buffer n name) = chan_at n" "fold_at (remove_buffer n name) = fold_at n"
    by (simp_all add: S chan_at_def fold_at_def fun_eq_iff)
  have "table_ok (remove_buffer n name)"
  proof (rule table_okI)
    show "distinct (map (fold_at (remove_buffer n name)) (n_Channels (remove_buffer n name)))"
      using D(3) by (simp add: at) (simp add: S distinct_map inj_on_def)
    show "k f = find (\<lambda>a. fold_at (remove_buffer n name) a = f) (n_Channels (remove_buffer n name))"
      if "n_byFold (remove_buffer n name) = Some k" for k f
    proof (cases "f = FoldIRC name")
      case True
      then show ?thesis using that by (auto simp: at) (auto simp: S eq_commute[of None] find_None_iff)
    next
      case False
      have "find (\<lambda>a. fold_at n a = f) (filter (\<lambda>a. fold_at n a \<noteq> FoldIRC name) (n_Channels n))
        = find (\<lambda>a. fold_at n a = f) (n_Channels n)"
        using False by (intro find_filter_other) auto
      then show ?thesis using that False initByFold_lookup[OF ok, of f] by (auto simp: at) (auto simp: S)
    qed
  qed (use D(1,2) in \<open>auto simp: S\<close>)
  moreover have "buffers (remove_buffer n name) = filter (\<lambda>c. FoldIRC (ch_Name c) \<noteq> FoldIRC name) (buffers n)"
    by (simp add: buffers_def at) (simp add: S filter_map comp_def fold_at_def)
  ultimately show ?thesis ..
qed

definition add_buffer :: "network \<Rightarrow> string \<Rightarrow> channelKind \<Rightarrow> network" where
  "add_buffer n name kind = fst (getOrCreate n name kind)"

lemma buffer_of_None:
  "table_ok n \<Longrightarrow> buffer_of n name = None \<longleftrightarrow> find (\<lambda>a. fold_at n a = FoldIRC name) (n_Channels n) = None"
  by (simp add: buffer_of_def Channel_spec)

interpretation bt: keyed_table table_ok buffers "\<lambda>c. FoldIRC (ch_Name c)" FoldIRC buffer_of add_buffer
  new_channel remove_buffer
proof
  fix s m a
  assume ok: "table_ok s"
  show "distinct (map (\<lambda>c. FoldIRC (ch_Name c)) (buffers s))"
    using table_okD(3)[OF ok] by (simp add: buffers_def fold_at_def[abs_def] comp_def)
  show "buffer_of s m = find (\<lambda>v. FoldIRC (ch_Name v) = FoldIRC m) (buffers s)" by (rule buffer_of_spec[OF ok])
  show "buffers (remove_buffer s m) = filter (\<lambda>v. FoldIRC (ch_Name v) \<noteq> FoldIRC m) (buffers s)"
    "table_ok (remove_buffer s m)" using remove_buffer_ok[OF ok] by auto
  assume "buffer_of s m = None"
  then have free: "find (\<lambda>a. fold_at s a = FoldIRC m) (n_Channels s) = None" by (simp add: buffer_of_None[OF ok])
  obtain n' b c where g: "getOrCreate s m a = (n', b, c)" by (metis prod_cases3)
  from getOrCreate_new_ok[OF ok free g] g
  show "buffers (add_buffer s m a) = buffers s @ [new_channel m a]" "table_ok (add_buffer s m a)"
    by (auto simp: add_buffer_def)
qed simp

section \<open>Writing through channel pointers\<close>

lemma upd_chan_fields [simp]:
  "n_Channels (upd_chan f a n) = n_Channels n" "n_byFold (upd_chan f a n) = n_byFold n"
  "n_ID (upd_chan f a n) = n_ID n" "n_Name (upd_chan f a n) = n_Name n" "n_Nick (upd_chan f a n) = n_Nick n"
  "n_State (upd_chan f a n) = n_State n" "n_Params (upd_chan f a n) = n_Params n"
  "n_MonitorOnline (upd_chan f a n) = n_MonitorOnline n" "n_Bouncer (upd_chan f a n) = n_Bouncer n"
  "length (n_store (upd_chan f a n)) = length (n_store n)"
  by (simp_all add: upd_chan_def)

lemma chan_at_upd:
  "a < length (n_store n) \<Longrightarrow> chan_at (upd_chan f a n) b = (if b = a then f (chan_at n a) else chan_at n b)"
  by (simp add: upd_chan_def chan_at_def nth_list_update)

lemma fold_at_upd:
  "a < length (n_store n) \<Longrightarrow> ch_Name (f (chan_at n a)) = ch_Name (chan_at n a) \<Longrightarrow>
    fold_at (upd_chan f a n) = fold_at n"
  by (auto simp: fold_at_def chan_at_upd fun_eq_iff)

lemma upd_chan_ok:
  assumes "table_ok n" "a < length (n_store n)" "ch_Name (f (chan_at n a)) = ch_Name (chan_at n a)"
  shows "table_ok (upd_chan f a n)"
  using assms(1) fold_at_upd[of a n f, OF assms(2,3)] by (simp add: table_ok_def cong: option.case_cong)

text \<open>Member maps are keyed by the folded nick, and the coherence of a whole network.\<close>

definition members_ok :: "channel \<Rightarrow> bool" where
  "members_ok c \<longleftrightarrow> (\<forall>k m. ch_Members c k = Some m \<longrightarrow> k = FoldIRC (m_Nick m))"

definition net_ok :: "network \<Rightarrow> bool" where
  "net_ok n \<longleftrightarrow> table_ok n \<and> (\<forall>a\<in>set (n_Channels n). members_ok (chan_at n a))"

lemma net_okD: "net_ok n \<Longrightarrow> table_ok n" "net_ok n \<Longrightarrow> a \<in> set (n_Channels n) \<Longrightarrow> members_ok (chan_at n a)"
  by (auto simp: net_ok_def)

lemma upd_chan_net_ok:
  assumes "net_ok n" "a \<in> set (n_Channels n)" "ch_Name (f (chan_at n a)) = ch_Name (chan_at n a)"
    "members_ok (chan_at n a) \<Longrightarrow> members_ok (f (chan_at n a))"
  shows "net_ok (upd_chan f a n)"
proof -
  have lt: "a < length (n_store n)" using net_okD(1)[OF assms(1)] assms(2) by (rule table_okD(2))
  show ?thesis using upd_chan_ok[of n a f, OF net_okD(1)[OF assms(1)] lt assms(3)] assms lt
    by (auto simp: net_ok_def chan_at_upd)
qed

lemma new_network_ok [simp]: "net_ok (new_network p)"
  by (simp add: net_ok_def table_ok_def new_network_def)

lemma members_ok_empty [simp]: "ch_Members c = Map.empty \<Longrightarrow> members_ok c"
  by (simp add: members_ok_def)

lemma initByFold_net_ok [simp]: "net_ok n \<Longrightarrow> net_ok (initByFold n)"
  by (simp add: net_ok_def)

lemma getOrCreate_net_ok:
  assumes ok: "net_ok n" and g: "getOrCreate n name kind = (n', a, created)"
  shows "net_ok n'" "a \<in> set (n_Channels n')" "fold_at n' a = FoldIRC name"
    "created \<longleftrightarrow> buffer_of n name = None"
    "created \<Longrightarrow> chan_at n' a = new_channel name kind \<and> buffers n' = buffers n @ [new_channel name kind]"
    "\<not> created \<Longrightarrow> n' = initByFold n \<and> Some (chan_at n a) = buffer_of n name"
proof -
  note t = net_okD(1)[OF ok]
  consider (old) b where "find (\<lambda>a. fold_at n a = FoldIRC name) (n_Channels n) = Some b"
    | (new) "find (\<lambda>a. fold_at n a = FoldIRC name) (n_Channels n) = None" by fastforce
  then have "net_ok n' \<and> a \<in> set (n_Channels n') \<and> fold_at n' a = FoldIRC name
    \<and> (created \<longleftrightarrow> buffer_of n name = None)
    \<and> (created \<longrightarrow> chan_at n' a = new_channel name kind \<and> buffers n' = buffers n @ [new_channel name kind])
    \<and> (\<not> created \<longrightarrow> n' = initByFold n \<and> Some (chan_at n a) = buffer_of n name)"
  proof cases
    case old
    then have r: "n' = initByFold n" "a = b" "\<not> created" using getOrCreate_found[OF t old, of kind] g by auto
    then show ?thesis using ok find_SomeD[OF old] old by (simp add: buffer_of_def Channel_spec[OF t])
  next
    case new
    note N = getOrCreate_new_ok[OF t new g]
    have bo: "buffer_of n name = None" using new by (simp add: buffer_of_None[OF t])
    have st: "n_store n' = n_store n @ [new_channel name kind]" "n_Channels n' = n_Channels n @ [length (n_store n)]"
      using getOrCreate_new[OF t new, of kind] g by auto
    have "members_ok (chan_at n' b)" if "b \<in> set (n_Channels n')" for b
    proof (cases "b = length (n_store n)")
      case False
      then have "b \<in> set (n_Channels n)" using that st(2) by simp
      then show ?thesis using chan_at_append(1)[OF table_okD(2)[OF t] st(1)] net_okD(2)[OF ok] by simp
    next
      case True
      then have "ch_Members (chan_at n' b) = Map.empty" using N by auto
      then show ?thesis by simp
    qed
    moreover obtain "table_ok n'" "buffers n' = buffers n @ [new_channel name kind]" "created"
        "a = length (n_store n)" "chan_at n' a = new_channel name kind" using N by blast
    ultimately show ?thesis using bo st by (auto simp: net_ok_def fold_at_def)
  qed
  then show "net_ok n'" "a \<in> set (n_Channels n')" "fold_at n' a = FoldIRC name"
    "created \<longleftrightarrow> buffer_of n name = None"
    "created \<Longrightarrow> chan_at n' a = new_channel name kind \<and> buffers n' = buffers n @ [new_channel name kind]"
    "\<not> created \<Longrightarrow> n' = initByFold n \<and> Some (chan_at n a) = buffer_of n name" by auto
qed

lemma remove_buffer_net_ok: "net_ok n \<Longrightarrow> net_ok (remove_buffer n name)"
  using remove_buffer_ok[OF net_okD(1), of n name] remove_buffer_spec[OF net_okD(1), of n name]
  by (auto simp: net_ok_def chan_at_def)

section \<open>The auto-join list\<close>

text \<open>
  Unique channels, one key per channel, and every key stored under the list's own spelling of its
  channel, which is what the exact lookup at join time needs.
\<close>

definition autojoin_ok :: "networkParams \<Rightarrow> bool" where
  "autojoin_ok p \<longleftrightarrow> distinct (map FoldIRC (p_Channels p)) \<and> distinct (map (\<lambda>(k, v). FoldIRC k) (p_ChannelKeys p))
     \<and> fst ` set (p_ChannelKeys p) \<subseteq> set (p_Channels p)"

lemma lookupChannelKey_find:
  "lookupChannelKey p name = map_option snd (find (\<lambda>e. FoldIRC (fst e) = FoldIRC name) (p_ChannelKeys p))"
  by (simp add: lookupChannelKey_def EqualIRC_def case_prod_unfold)

lemma lookup_delete:
  "lookupChannelKey (deleteChannelKey p name) other =
     (if EqualIRC other name then None else lookupChannelKey p other)"
proof (cases "EqualIRC other name")
  case False
  then show ?thesis
    by (simp add: lookupChannelKey_find deleteChannelKey_def EqualIRC_def case_prod_unfold)
       (subst find_filter_other, auto)
qed (auto simp: lookupChannelKey_find deleteChannelKey_def EqualIRC_def case_prod_unfold find_None_iff)

lemma lookup_append:
  "lookupChannelKey p name = None \<Longrightarrow>
    lookupChannelKey (p\<lparr>p_ChannelKeys := p_ChannelKeys p @ [(name, key)]\<rparr>) other =
     (if EqualIRC other name then Some key else lookupChannelKey p other)"
  by (auto simp: lookupChannelKey_find find_append_case EqualIRC_def split: option.splits)

lemma lookup_set:
  assumes "setChannelKey p name key = (p', ch)"
  shows "lookupChannelKey p' other =
      (if EqualIRC other name then (if key = [] then None else Some key) else lookupChannelKey p other)"
    and "ch \<longleftrightarrow> p' \<noteq> p"
    and "p_Channels p' = p_Channels p"
proof -
  have same: "lookupChannelKey p other = lookupChannelKey p name" if "EqualIRC other name"
    using that by (simp add: lookupChannelKey_find EqualIRC_def)
  have del: "lookupChannelKey (deleteChannelKey p name) name = None" by (simp add: lookup_delete)
  show look: "lookupChannelKey p' other =
      (if EqualIRC other name then (if key = [] then None else Some key) else lookupChannelKey p other)" for other
    using assms lookup_append[OF del, of key other] lookup_delete[of p name other]
    by (auto simp: setChannelKey_def Let_def lookupChannelKey_find EqualIRC_def split: if_splits)
  show "ch \<longleftrightarrow> p' \<noteq> p"
    using assms look[of name] by (auto simp: setChannelKey_def Let_def split: if_splits)
  show "p_Channels p' = p_Channels p"
    using assms by (auto simp: setChannelKey_def deleteChannelKey_def Let_def split: if_splits)
qed

lemma delete_ok: "autojoin_ok p \<Longrightarrow> autojoin_ok (deleteChannelKey p name)"
  by (auto simp: autojoin_ok_def deleteChannelKey_def distinct_map_filter)

lemma set_ok:
  assumes "autojoin_ok p" "name \<in> set (p_Channels p)" "setChannelKey p name key = (p', ch)"
  shows "autojoin_ok p'"
proof -
  have free: "FoldIRC name \<notin> (\<lambda>(k, v). FoldIRC k) ` set (p_ChannelKeys (deleteChannelKey p name))"
    by (auto simp: deleteChannelKey_def EqualIRC_def)
  have "p_Channels (deleteChannelKey p name) = p_Channels p" by (simp add: deleteChannelKey_def)
  then have "autojoin_ok ((deleteChannelKey p name)\<lparr>p_ChannelKeys := p_ChannelKeys (deleteChannelKey p name) @ [(name, key)]\<rparr>)"
    using delete_ok[OF assms(1), of name] free assms(2) by (simp add: autojoin_ok_def)
  then show ?thesis using assms delete_ok[OF assms(1), of name]
    by (auto simp: setChannelKey_def Let_def split: if_splits)
qed

lemma addAutojoin_cases:
  assumes "isChannelName name"
  obtains c where "c \<in> set (p_Channels p)" "EqualIRC c name"
      "addAutojoin p name key hasKey = (if hasKey then setChannelKey p c key else (p, False))"
  | q where "\<forall>c\<in>set (p_Channels p). \<not> EqualIRC c name" "q = p\<lparr>p_Channels := p_Channels p @ [name]\<rparr>"
      "addAutojoin p name key hasKey = ((if hasKey then fst (setChannelKey q name key) else q), True)"
proof (cases "find (\<lambda>c. EqualIRC c name) (p_Channels p)")
  case None
  have "addAutojoin p name key hasKey
    = ((if hasKey then fst (setChannelKey (p\<lparr>p_Channels := p_Channels p @ [name]\<rparr>) name key)
        else p\<lparr>p_Channels := p_Channels p @ [name]\<rparr>), True)"
    using assms by (simp add: addAutojoin_def Let_def None case_prod_unfold)
  moreover have "\<forall>c\<in>set (p_Channels p). \<not> EqualIRC c name" using None by (simp add: find_None_iff)
  ultimately show ?thesis using that(2) by blast
next
  case (Some c)
  have "addAutojoin p name key hasKey = (if hasKey then setChannelKey p c key else (p, False))"
    using assms by (simp add: addAutojoin_def Let_def Some case_prod_unfold)
  then show ?thesis using that(1)[of c] find_SomeD[OF Some] by blast
qed

lemma addAutojoin_ok:
  assumes ok: "autojoin_ok p" and nm: "isChannelName name" and r: "addAutojoin p name key hasKey = (p', ch)"
  shows "autojoin_ok p' \<and> (\<exists>c\<in>set (p_Channels p'). EqualIRC c name)
    \<and> (\<forall>other. lookupChannelKey p' other =
         (if EqualIRC other name \<and> hasKey then (if key = [] then None else Some key) else lookupChannelKey p other))
    \<and> (ch \<longleftrightarrow> p' \<noteq> p)"
  using nm
proof (cases rule: addAutojoin_cases[of name p key hasKey])
  case (1 c)
  have eq: "EqualIRC other c \<longleftrightarrow> EqualIRC other name" for other using 1(2) by (auto simp: EqualIRC_def)
  show ?thesis
  proof (cases hasKey)
    case True
    then have s: "setChannelKey p c key = (p', ch)" using 1 r by simp
    show ?thesis using lookup_set[OF s] set_ok[OF ok 1(1) s] True 1(1,2) eq by auto
  qed (use 1 r ok in auto)
next
  case (2 q)
  have q: "autojoin_ok q" "name \<in> set (p_Channels q)"
    using ok 2(1,2) by (auto simp: autojoin_ok_def EqualIRC_def)
  have lq: "lookupChannelKey q other = lookupChannelKey p other" for other
    using 2(2) by (simp add: lookupChannelKey_def)
  have len: "length (p_Channels p') = Suc (length (p_Channels p))" if "p_Channels p' = p_Channels q"
    using that 2(2) by simp
  show ?thesis
  proof (cases hasKey)
    case True
    obtain b where s: "setChannelKey q name key = (p', b)" using 2 r True by (metis Pair_inject prod.collapse)
    show ?thesis using lookup_set[OF s] set_ok[OF q s] True q(2) 2 r len lq by (auto intro: EqualIRC_refl)
  next
    case False
    then show ?thesis using 2 r q lq len by (auto intro: EqualIRC_refl)
  qed
qed

lemma removeAutojoin_ok:
  assumes ok: "autojoin_ok p" and r: "removeAutojoin p name = (p', ch)"
  shows "autojoin_ok p' \<and> p_Channels p' = filter (\<lambda>c. \<not> EqualIRC c name) (p_Channels p)
    \<and> (\<forall>other. lookupChannelKey p' other = (if EqualIRC other name then None else lookupChannelKey p other))
    \<and> (ch \<longleftrightarrow> p' \<noteq> p)"
proof -
  define q where "q = p\<lparr>p_Channels := filter (\<lambda>c. \<not> EqualIRC c name) (p_Channels p)\<rparr>"
  have rf: "remove_first (\<lambda>c. EqualIRC c name) (p_Channels p) = filter (\<lambda>c. \<not> EqualIRC c name) (p_Channels p)"
    using remove_first_filter[of FoldIRC "p_Channels p" "FoldIRC name"] ok by (simp add: autojoin_ok_def EqualIRC_def)
  have lq: "lookupChannelKey q other = lookupChannelKey p other" for other by (simp add: q_def lookupChannelKey_def)
  have r': "(p', ch) = (if lookupChannelKey p name \<noteq> None then (deleteChannelKey q name, True)
      else (q, \<exists>c\<in>set (p_Channels p). EqualIRC c name))"
    using r[symmetric] by (simp only: removeAutojoin_def Let_def rf q_def[symmetric] lq)
  have same: "lookupChannelKey p other = lookupChannelKey p name" if "EqualIRC other name" for other
    using that by (simp add: lookupChannelKey_find EqualIRC_def)
  have look: "lookupChannelKey p' other = (if EqualIRC other name then None else lookupChannelKey p other)" for other
    using r' lookup_delete[of q name other] lq same[of other] by (auto split: if_splits)
  have chans: "p_Channels p' = filter (\<lambda>c. \<not> EqualIRC c name) (p_Channels p)"
    using r' by (auto simp: q_def deleteChannelKey_def split: if_splits)
  have keys: "p_ChannelKeys p' = filter (\<lambda>(k, v). \<not> EqualIRC k name) (p_ChannelKeys p)"
  proof (cases "lookupChannelKey p name = None")
    case True
    then have "filter (\<lambda>(k, v). \<not> EqualIRC k name) (p_ChannelKeys p) = p_ChannelKeys p"
      by (auto simp: filter_id_conv lookupChannelKey_def find_None_iff)
    then show ?thesis using r' True by (simp add: q_def)
  qed (use r' in \<open>simp add: q_def deleteChannelKey_def\<close>)
  have "autojoin_ok p'" using ok chans keys by (auto simp: autojoin_ok_def distinct_map_filter)
  moreover have "ch \<longleftrightarrow> p' \<noteq> p"
  proof (cases "lookupChannelKey p name = None")
    case True
    have "(q = p) \<longleftrightarrow> \<not> (\<exists>c\<in>set (p_Channels p). EqualIRC c name)"
      by (auto simp: q_def filter_id_conv dest!: arg_cong[where f = p_Channels])
    then show ?thesis using r' True by auto
  next
    case False
    then show ?thesis using r' look[of name] by auto
  qed
  ultimately show ?thesis using look chans by blast
qed

section \<open>Properties\<close>

definition sample_params :: networkParams where
  "sample_params = \<lparr>p_ID = ''libera'', p_Name = ''Libera'', p_Addr = ''irc.libera.chat:6697'', p_Fallbacks = [],
     p_TLS = True, p_Insecure = False, p_Nick = ''bob'', p_User = ''bob'', p_Realname = ''Bob'',
     p_SASLUser = [], p_SASLPass = [], p_Channels = [''#Isabelle'', ''#go''], p_Monitor = [],
     p_ChannelKeys = [(''#go'', ''k1'')], p_ServerPass = [], p_Perform = [], p_SASLExternal = False,
     p_SASLScram = False, p_CertPEM = [], p_Pos = 0, p_BufferOrder = [], p_JoinHoldTimeout = 0\<rparr>"

text \<open>
  C24. The buffer table: creating a buffer that is not there appends it; afterwards it is found under
  every spelling of its name that folds alike and every other lookup answers as before; removing it
  again restores the list; and the lookaside map and the display list stay coherent.\<close>

theorem buffer_table_contract:
  assumes "table_ok n" "buffer_of n name = None"
  shows "table_ok (fst (getOrCreate n name kind))
    \<and> buffers (fst (getOrCreate n name kind)) = buffers n @ [new_channel name kind]
    \<and> (\<forall>other. buffer_of (fst (getOrCreate n name kind)) other
         = (if EqualIRC other name then Some (new_channel name kind) else buffer_of n other))
    \<and> buffers (remove_buffer (fst (getOrCreate n name kind)) name) = buffers n"
  using bt.inv_add[OF assms, of kind] bt.view_add[OF assms, of kind] bt.lookup_add_same[OF assms, of _ kind]
    bt.lookup_add_other[OF assms, of _ kind] bt.add_del[OF assms, of kind]
  by (auto simp: add_buffer_def EqualIRC_def)

theorem buffer_table_contract_witness:
  "table_ok (fst (getOrCreate (new_network sample_params) ''#Go'' KindChannel))
    \<and> buffers (fst (getOrCreate (new_network sample_params) ''#Go'' KindChannel))
        = buffers (new_network sample_params) @ [new_channel ''#Go'' KindChannel]
    \<and> (\<forall>other. buffer_of (fst (getOrCreate (new_network sample_params) ''#Go'' KindChannel)) other
         = (if EqualIRC other ''#Go'' then Some (new_channel ''#Go'' KindChannel)
            else buffer_of (new_network sample_params) other))
    \<and> buffers (remove_buffer (fst (getOrCreate (new_network sample_params) ''#Go'' KindChannel)) ''#Go'')
        = buffers (new_network sample_params)"
  by (rule buffer_table_contract)
     (simp_all add: table_ok_def new_network_def buffer_of_def Channel_def initByFold_def Let_def)

text \<open>
  Remembering a channel for the next connect: its entry is in the list once, the join key is the
  one given (an empty key clears it, no key leaves it), every other channel keeps its key, keys stay
  under the list's spelling, and the result says exactly whether the parameters changed and have to
  be persisted.\<close>

theorem autojoin_remembers:
  assumes "autojoin_ok p" "isChannelName name" "addAutojoin p name key hasKey = (p', ch)"
  shows "autojoin_ok p' \<and> (\<exists>c\<in>set (p_Channels p'). EqualIRC c name)
    \<and> (\<forall>other. lookupChannelKey p' other =
         (if EqualIRC other name \<and> hasKey then (if key = [] then None else Some key) else lookupChannelKey p other))
    \<and> (ch \<longleftrightarrow> p' \<noteq> p)"
  by (rule addAutojoin_ok[OF assms])

theorem autojoin_remembers_witness:
  "autojoin_ok (sample_params\<lparr>p_ChannelKeys := [(''#go'', ''k2'')]\<rparr>)
    \<and> (\<exists>c\<in>set (p_Channels (sample_params\<lparr>p_ChannelKeys := [(''#go'', ''k2'')]\<rparr>)). EqualIRC c ''#GO'')
    \<and> (\<forall>other. lookupChannelKey (sample_params\<lparr>p_ChannelKeys := [(''#go'', ''k2'')]\<rparr>) other =
         (if EqualIRC other ''#GO'' \<and> True then (if ''k2'' = [] then None else Some ''k2'')
          else lookupChannelKey sample_params other))
    \<and> (True \<longleftrightarrow> sample_params\<lparr>p_ChannelKeys := [(''#go'', ''k2'')]\<rparr> \<noteq> sample_params)"
  by (rule autojoin_remembers) code_simp+

text \<open>
  Forgetting a channel on a part: every spelling of it leaves the list together with its key, every
  other channel keeps its place and its key, and the result says exactly whether anything changed.\<close>

theorem autojoin_forgets:
  assumes "autojoin_ok p" "removeAutojoin p name = (p', ch)"
  shows "autojoin_ok p' \<and> p_Channels p' = filter (\<lambda>c. \<not> EqualIRC c name) (p_Channels p)
    \<and> (\<forall>other. lookupChannelKey p' other = (if EqualIRC other name then None else lookupChannelKey p other))
    \<and> (ch \<longleftrightarrow> p' \<noteq> p)"
  by (rule removeAutojoin_ok[OF assms])

theorem autojoin_forgets_witness:
  "autojoin_ok (sample_params\<lparr>p_Channels := [''#Isabelle''], p_ChannelKeys := []\<rparr>)
    \<and> p_Channels (sample_params\<lparr>p_Channels := [''#Isabelle''], p_ChannelKeys := []\<rparr>)
        = filter (\<lambda>c. \<not> EqualIRC c ''#Go'') (p_Channels sample_params)
    \<and> (\<forall>other. lookupChannelKey (sample_params\<lparr>p_Channels := [''#Isabelle''], p_ChannelKeys := []\<rparr>) other
        = (if EqualIRC other ''#Go'' then None else lookupChannelKey sample_params other))
    \<and> (True \<longleftrightarrow> sample_params\<lparr>p_Channels := [''#Isabelle''], p_ChannelKeys := []\<rparr> \<noteq> sample_params)"
  by (rule autojoin_forgets) code_simp+

end
