(* ===== verification/Core_Events.thy ===== *)
theory Core_Events
  imports Core_Network
begin

text \<open>
  Model of the events of \<^verbatim>\<open>internal/core/event.go\<close> and of what one of them does to a network
  (\<^verbatim>\<open>applyLocked\<close> in \<^verbatim>\<open>engine.go\<close>, one definition per case of its switch). Each case returns the network, the
  lines to emit, whether the structure changed and whether the parameters have to be persisted. A
  loop over the channels of a network that looks one member up in each is \<open>member_loop\<close>. The environment
  carries what the code takes from outside: the clock, regular expressions (None when a pattern does
  not compile), \<^verbatim>\<open>%q\<close> quoting, Unicode lower- and upper-casing, time layouts, the errors of a connection
  (named by a number; some can be detached instead of closed) and of the connector, the plugin host, and the newest stored line of a buffer
  (None when the store cannot say).
\<close>

section \<open>Events\<close>

datatype eventType = EvMessageIn | EvMessageOut | EvJoin | EvPart | EvKick | EvQuit | EvNick | EvTopic
  | EvConnect | EvDisconnect | EvCommand | EvNames | EvAway | EvAccount | EvChgHost | EvSetName
  | EvHistoryTarget | EvHistoryBatch | EvBouncerNetwork | EvInvite | EvMode | EvListItem | EvListEnd
  | EvTyping | EvReact | EvRedact | EvNumeric | EvMonitor | EvSetState | EvSync

record memberMode =
  mm_Nick :: string
  mm_Symbol :: string
  mm_Add :: bool

text \<open>\<^verbatim>\<open>Args\<close> is None when the slice is nil, which one case of the code tests for.\<close>

record event =
  ev_Type :: eventType
  ev_Network :: string
  ev_Time :: int
  ev_Message :: "message option"
  ev_Nick :: string
  ev_NewNick :: string
  ev_Buffer :: string
  ev_Account :: string
  ev_Text :: string
  ev_State :: connState
  ev_TopicMeta :: bool
  ev_Target :: string
  ev_Kicker :: string
  ev_Command :: string
  ev_Args :: "string list option"
  ev_Members :: "member list"
  ev_MemberModes :: "memberMode list"
  ev_ChanModes :: string
  ev_Bouncer :: "bouncerNetwork option"
  ev_Away :: bool
  ev_Online :: bool
  ev_Count :: int
  ev_Resumed :: bool

definition zero_event :: "eventType \<Rightarrow> string \<Rightarrow> event" where
  "zero_event t net = \<lparr>ev_Type = t, ev_Network = net, ev_Time = 0, ev_Message = None, ev_Nick = [],
     ev_NewNick = [], ev_Buffer = [], ev_Account = [], ev_Text = [], ev_State = StateDisconnected,
     ev_TopicMeta = False, ev_Target = [], ev_Kicker = [], ev_Command = [], ev_Args = None,
     ev_Members = [], ev_MemberModes = [], ev_ChanModes = [], ev_Bouncer = None, ev_Away = False,
     ev_Online = False, ev_Count = 0, ev_Resumed = False\<rparr>"

definition event_args :: "event \<Rightarrow> string list" where
  "event_args ev = (case ev_Args ev of None \<Rightarrow> [] | Some as \<Rightarrow> as)"

record env =
  env_now :: int
  env_regexp :: "string \<Rightarrow> (string \<Rightarrow> bool) option"
  env_quote :: "string \<Rightarrow> string"
  env_lower :: "string \<Rightarrow> string"
  env_upper :: "string \<Rightarrow> string"
  env_parse_time :: "string \<Rightarrow> int option"
  env_format_time :: "int \<Rightarrow> string"
  env_caps :: "nat \<Rightarrow> string list"
  env_send :: "nat \<Rightarrow> string \<Rightarrow> string option"
  env_message :: "nat \<Rightarrow> string \<Rightarrow> string \<Rightarrow> string option"
  env_detaches :: "nat \<Rightarrow> bool"
  env_dial :: "networkParams \<Rightarrow> string + nat"
  env_unload :: "string \<Rightarrow> string option"
  env_reload :: "string \<Rightarrow> string option"
  env_dispatch :: "event \<Rightarrow> event \<times> bool"
  env_last_chat :: "(string \<Rightarrow> string \<Rightarrow> int option) option"

section \<open>Highlighting\<close>

record highlighter =
  h_patterns :: "string list"
  h_exceptions :: "string list"

text \<open>\<^verbatim>\<open>regexp.QuoteMeta\<close>.\<close>

definition quote_meta :: "string \<Rightarrow> string" where
  "quote_meta s = concat (map (\<lambda>c. if c \<in> set ''.+*?()|[]{}^$'' \<or> c = CHR 0x5C then [CHR 0x5C, c] else [c]) s)"

definition re_match :: "env \<Rightarrow> string \<Rightarrow> string \<Rightarrow> bool" where
  "re_match env re text = (case env_regexp env re of None \<Rightarrow> False | Some m \<Rightarrow> m text)"

definition mentionsNick :: "env \<Rightarrow> string \<Rightarrow> string \<Rightarrow> bool" where
  "mentionsNick env text nick =
     re_match env (''(?i)'' @ [CHR 0x5C, CHR ''b''] @ quote_meta nick @ [CHR 0x5C, CHR ''b'']) text"

text \<open>\<^verbatim>\<open>NewHighlighter\<close> fails when a non-empty pattern does not compile; only the sources are kept here.\<close>

definition NewHighlighter :: "env \<Rightarrow> string list \<Rightarrow> string list \<Rightarrow> highlighter option" where
  "NewHighlighter env patterns exceptions =
     (let ps = filter (\<lambda>p. p \<noteq> []) patterns; xs = filter (\<lambda>p. p \<noteq> []) exceptions;
          ok = (\<lambda>p. env_regexp env (''(?i)'' @ p) \<noteq> None)
      in if list_all ok ps \<and> list_all ok xs then Some \<lparr>h_patterns = ps, h_exceptions = xs\<rparr> else None)"

definition Match :: "env \<Rightarrow> highlighter \<Rightarrow> string \<Rightarrow> string \<Rightarrow> bool" where
  "Match env h text nick =
     (if list_ex (\<lambda>p. re_match env (''(?i)'' @ p) text) (h_exceptions h) then False
      else if nick \<noteq> [] \<and> mentionsNick env text nick then True
      else list_ex (\<lambda>p. re_match env (''(?i)'' @ p) text) (h_patterns h))"

section \<open>Bouncer networks\<close>

fun MergeBouncerAttrs :: "bouncerNetwork \<Rightarrow> bouncerNetwork \<Rightarrow> string list \<Rightarrow> bouncerNetwork" where
  "MergeBouncerAttrs old patch [] = old"
| "MergeBouncerAttrs old patch (k # ks) =
     MergeBouncerAttrs
       (if k = ''name'' then old\<lparr>b_Name := b_Name patch\<rparr>
        else if k = ''host'' then old\<lparr>b_Host := b_Host patch\<rparr>
        else if k = ''port'' then old\<lparr>b_Port := b_Port patch\<rparr>
        else if k = ''tls'' then old\<lparr>b_TLS := b_TLS patch\<rparr>
        else if k = ''nickname'' then old\<lparr>b_Nick := b_Nick patch\<rparr>
        else if k = ''state'' then old\<lparr>b_State := b_State patch\<rparr>
        else if k = ''error'' then old\<lparr>b_Error := b_Error patch\<rparr>
        else old) patch ks"

text \<open>Rewrites the first network with the id.\<close>

fun upsert_bouncer :: "bouncerNetwork \<Rightarrow> string list option \<Rightarrow> bouncerNetwork list \<Rightarrow> bouncerNetwork list" where
  "upsert_bouncer b as [] = [b]"
| "upsert_bouncer b as (x # xs) =
     (if b_ID x = b_ID b then (case as of None \<Rightarrow> b | Some ks \<Rightarrow> MergeBouncerAttrs x b ks) # xs
      else x # upsert_bouncer b as xs)"

section \<open>Lines\<close>

definition blank_message :: message where
  "blank_message = \<lparr>msg_ID = [], msg_Seq = 0, msg_Network = [], msg_Buffer = [], msg_Time = 0, msg_From = [],
     msg_Account = [], msg_Kind = MsgSystem, msg_Text = [], msg_Tags = [], msg_Self = False, msg_Highlight = False\<rparr>"

definition line_msg :: "env \<Rightarrow> string \<Rightarrow> msgKind \<Rightarrow> string \<Rightarrow> string \<Rightarrow> string \<Rightarrow> message" where
  "line_msg env net kind buffer from text = blank_message\<lparr>msg_Network := net, msg_Buffer := buffer,
     msg_Time := env_now env, msg_From := from, msg_Kind := kind, msg_Text := text\<rparr>"

definition sys_msg :: "env \<Rightarrow> string \<Rightarrow> string \<Rightarrow> string \<Rightarrow> message" where
  "sys_msg env net buffer text = line_msg env net MsgSystem buffer [] text"

definition with_reason :: "string \<Rightarrow> string \<Rightarrow> string" where
  "with_reason text reason = (if reason \<noteq> [] then text @ '' ('' @ reason @ '')'' else text)"

type_synonym applied = "network \<times> message list \<times> bool \<times> bool"

section \<open>Connection events\<close>

definition apply_set_state :: "event \<Rightarrow> network \<Rightarrow> applied" where
  "apply_set_state ev n = (n\<lparr>n_State := ev_State ev\<rparr>, [], True, False)"

text \<open>
  \<open>pending\<close> is what a plugin set for the buffers of this network, by folded name; a fresh buffer takes it.
\<close>

definition applyPendingState :: "(string \<Rightarrow> (string \<times> string) list) \<Rightarrow> nat \<Rightarrow> network \<Rightarrow> network" where
  "applyPendingState pending a n =
     (let st = pending (FoldIRC (ch_Name (chan_at n a)))
      in if st = [] then n else upd_chan (\<lambda>c. c\<lparr>ch_State := st\<rparr>) a n)"

definition open_buffer ::
    "(string \<Rightarrow> (string \<times> string) list) \<Rightarrow> string \<Rightarrow> channelKind \<Rightarrow> network \<Rightarrow> network \<times> nat \<times> bool" where
  "open_buffer pending name kind n =
     (let (n, a, created) = getOrCreate n name kind
      in (if created then applyPendingState pending a n else n, a, created))"

definition resume_channel :: "(string \<Rightarrow> (string \<times> string) list) \<Rightarrow> string \<Rightarrow> network \<Rightarrow> network" where
  "resume_channel pending ch n = (if ch = [] then n else fst (open_buffer pending ch KindChannel n))"

definition apply_connect ::
    "env \<Rightarrow> (string \<Rightarrow> (string \<times> string) list) \<Rightarrow> event \<Rightarrow> network \<Rightarrow> applied" where
  "apply_connect env pending ev n =
     (let n = n\<lparr>n_State := StateRegistered\<rparr>;
          n = (if ev_Nick ev \<noteq> [] then n\<lparr>n_Nick := ev_Nick ev\<rparr> else n);
          n = (if ev_Resumed ev then fold (resume_channel pending) (event_args ev) n else n);
          verb = (if ev_Resumed ev then ''resumed '' else ''connected to '')
      in (n, [sys_msg env (n_ID n) StatusBuffer (verb @ n_Name n @ '' as '' @ n_Nick n)], True, False))"

text \<open>The part of a disconnect that is about the network; the gate and the lookups are the engine's.\<close>

definition clear_members :: "channel \<Rightarrow> channel" where
  "clear_members c = c\<lparr>ch_Members := Map.empty\<rparr>"

definition apply_disconnect :: "env \<Rightarrow> event \<Rightarrow> network \<Rightarrow> applied" where
  "apply_disconnect env ev n =
     (let n = n\<lparr>n_State := StateDisconnected\<rparr>;
          text = ''disconnected'' @ (if ev_Text ev \<noteq> [] then '': '' @ ev_Text ev else []);
          out = [sys_msg env (n_ID n) StatusBuffer text];
          n = n\<lparr>n_MonitorOnline := Map.empty, n_Bouncer := []\<rparr>;
          n = fold (upd_chan clear_members) (n_Channels n) n
      in (n, out, True, False))"

section \<open>Messages and buffers\<close>

definition apply_message_in ::
    "env \<Rightarrow> highlighter \<Rightarrow> (string \<Rightarrow> (string \<times> string) list) \<Rightarrow> event \<Rightarrow> network \<Rightarrow> applied" where
  "apply_message_in env h pending ev n =
     (case ev_Message ev of
        None \<Rightarrow> (n, [], False, False)
      | Some m \<Rightarrow>
          (let m = (if \<not> msg_Self m \<and> msg_Kind m \<in> {MsgPrivmsg, MsgNotice, MsgAction}
                    then m\<lparr>msg_Highlight := Match env h (msg_Text m) (n_Nick n)\<rparr> else m);
               (n, _, created) = open_buffer pending (msg_Buffer m) (bufferKind (msg_Buffer m)) n
           in (n, [m], created, False)))"

definition apply_bouncer :: "event \<Rightarrow> network \<Rightarrow> applied" where
  "apply_bouncer ev n =
     (let bs = (case ev_Bouncer ev of
           Some b \<Rightarrow> upsert_bouncer b (ev_Args ev) (n_Bouncer n)
         | None \<Rightarrow> if ev_Target ev \<noteq> [] then filter (\<lambda>b. b_ID b \<noteq> ev_Target ev) (n_Bouncer n) else [])
      in (n\<lparr>n_Bouncer := bs\<rparr>, [], True, False))"

definition apply_history_target :: "event \<Rightarrow> network \<Rightarrow> applied" where
  "apply_history_target ev n =
     (let (n, _, created) = getOrCreate n (ev_Buffer ev) KindQuery in (n, [], created, False))"

section \<open>Members\<close>

definition put_member :: "member \<Rightarrow> channel \<Rightarrow> channel" where
  "put_member m c = c\<lparr>ch_Members := (ch_Members c)(FoldIRC (m_Nick m) \<mapsto> m)\<rparr>"

definition drop_member :: "string \<Rightarrow> channel \<Rightarrow> channel" where
  "drop_member nick c = c\<lparr>ch_Members := (ch_Members c)(FoldIRC nick := None)\<rparr>"

definition apply_names :: "event \<Rightarrow> network \<Rightarrow> applied" where
  "apply_names ev n =
     (let (n, a, _) = getOrCreate n (ev_Buffer ev) KindChannel
      in (upd_chan (fold put_member (ev_Members ev)) a n, [], True, False))"

text \<open>
  For every channel, in order, that has the nick as a member: write the channel \<open>upd\<close> gives and append
  the lines \<open>out\<close> gives. The flag says whether any channel had it.
\<close>

definition member_step ::
    "string \<Rightarrow> (member \<Rightarrow> channel \<Rightarrow> channel) \<Rightarrow> (member \<Rightarrow> channel \<Rightarrow> message list) \<Rightarrow> nat
      \<Rightarrow> network \<times> message list \<times> bool \<Rightarrow> network \<times> message list \<times> bool" where
  "member_step nick upd out a st =
     (case st of (n, emit, hit) \<Rightarrow>
        (case ch_Members (chan_at n a) (FoldIRC nick) of
           None \<Rightarrow> (n, emit, hit)
         | Some m \<Rightarrow> (upd_chan (upd m) a n, emit @ out m (chan_at n a), True)))"

definition member_loop ::
    "string \<Rightarrow> (member \<Rightarrow> channel \<Rightarrow> channel) \<Rightarrow> (member \<Rightarrow> channel \<Rightarrow> message list) \<Rightarrow> network
      \<Rightarrow> network \<times> message list \<times> bool" where
  "member_loop nick upd out n = fold (member_step nick upd out) (n_Channels n) (n, [], False)"

definition apply_away :: "event \<Rightarrow> network \<Rightarrow> applied" where
  "apply_away ev n =
     (let (n, out, hit) = member_loop (ev_Nick ev)
        (\<lambda>m c. c\<lparr>ch_Members := (ch_Members c)(FoldIRC (ev_Nick ev) \<mapsto> m\<lparr>m_Away := ev_Away ev\<rparr>)\<rparr>) (\<lambda>m c. []) n
      in (n, out, hit, False))"

definition apply_account :: "event \<Rightarrow> network \<Rightarrow> applied" where
  "apply_account ev n =
     (let (n, out, hit) = member_loop (ev_Nick ev)
        (\<lambda>m c. c\<lparr>ch_Members := (ch_Members c)(FoldIRC (ev_Nick ev) \<mapsto> m\<lparr>m_Account := ev_Account ev\<rparr>)\<rparr>) (\<lambda>m c. []) n
      in (n, out, hit, False))"

definition apply_chghost :: "env \<Rightarrow> event \<Rightarrow> network \<Rightarrow> applied" where
  "apply_chghost env ev n =
     (let (n, out, _) = member_loop (ev_Nick ev) (\<lambda>m c. c)
        (\<lambda>m c. [if ev_Type ev = EvSetName
                then line_msg env (n_ID n) MsgSetname (ch_Name c) (m_Nick m)
                       (m_Nick m @ '' changed their name to '' @ env_quote env (ev_Text ev))
                else line_msg env (n_ID n) MsgChghost (ch_Name c) (m_Nick m)
                       (m_Nick m @ '' changed host to '' @ ev_Text ev)]) n
      in (n, out, False, False))"

definition em_dash :: string where "em_dash = [CHR 0xE2, CHR 0x80, CHR 0x94]"

definition apply_invite :: "env \<Rightarrow> event \<Rightarrow> network \<Rightarrow> applied" where
  "apply_invite env ev n =
     (if EqualIRC (ev_NewNick ev) (n_Nick n)
      then (n, [sys_msg env (n_ID n) StatusBuffer (ev_Nick ev @ '' invited you to '' @ ev_Buffer ev
              @ '' '' @ em_dash @ '' /join '' @ ev_Buffer ev @ '' to accept'')], False, False)
      else (let (n, c) = Channel n (ev_Buffer ev) in
            if c \<noteq> None
            then (n, [sys_msg env (n_ID n) (ev_Buffer ev)
                    (ev_Nick ev @ '' invited '' @ ev_NewNick ev @ '' to '' @ ev_Buffer ev)], False, False)
            else (n, [], False, False)))"

definition monitor_step :: "event \<Rightarrow> string \<Rightarrow> network \<times> bool \<Rightarrow> network \<times> bool" where
  "monitor_step ev nk st =
     (case st of (n, hit) \<Rightarrow>
        if FoldIRC nk \<in> FoldIRC ` set (p_Monitor (n_Params n))
        then (n\<lparr>n_MonitorOnline := (n_MonitorOnline n)(FoldIRC nk \<mapsto> ev_Online ev)\<rparr>, True)
        else (n, hit))"

definition apply_monitor :: "event \<Rightarrow> network \<Rightarrow> applied" where
  "apply_monitor ev n = (let (n, hit) = fold (monitor_step ev) (event_args ev) (n, False) in (n, [], hit, False))"

text \<open>A join; \<open>key\<close> is the pending join key the engine took for a self-join.\<close>

definition apply_join ::
    "env \<Rightarrow> (string \<Rightarrow> (string \<times> string) list) \<Rightarrow> string option \<Rightarrow> event \<Rightarrow> network \<Rightarrow> applied" where
  "apply_join env pending key ev n =
     (let (n, a, _) = open_buffer pending (ev_Buffer ev) KindChannel n;
          n = upd_chan (put_member \<lparr>m_Nick = ev_Nick ev, m_Account = ev_Account ev, m_Modes = [], m_Away = False\<rparr>) a n;
          out = [line_msg env (n_ID n) MsgJoin (ev_Buffer ev) (ev_Nick ev)
                   (ev_Nick ev @ '' has joined '' @ ev_Buffer ev)]
      in if EqualIRC (ev_Nick ev) (n_Nick n)
         then (let (p, changed) = addAutojoin (n_Params n) (ev_Buffer ev)
                     (case key of Some k \<Rightarrow> k | None \<Rightarrow> []) (key \<noteq> None)
               in (n\<lparr>n_Params := p\<rparr>, out, True, changed))
         else (n, out, True, False))"

text \<open>Applies \<open>f\<close> to the named channel when there is one.\<close>

definition with_channel :: "string \<Rightarrow> (channel \<Rightarrow> channel) \<Rightarrow> network \<Rightarrow> network" where
  "with_channel name f n = (let (n, c) = Channel n name in case c of None \<Rightarrow> n | Some a \<Rightarrow> upd_chan f a n)"

definition apply_part :: "env \<Rightarrow> event \<Rightarrow> network \<Rightarrow> applied" where
  "apply_part env ev n =
     (let (n, persist) =
            (if EqualIRC (ev_Nick ev) (n_Nick n)
             then (let n = remove_buffer n (ev_Buffer ev); (p, ch) = removeAutojoin (n_Params n) (ev_Buffer ev)
                   in (n\<lparr>n_Params := p\<rparr>, ch))
             else (with_channel (ev_Buffer ev) (drop_member (ev_Nick ev)) n, False))
      in (n, [line_msg env (n_ID n) MsgPart (ev_Buffer ev) (ev_Nick ev)
                (with_reason (ev_Nick ev @ '' has left '' @ ev_Buffer ev) (ev_Text ev))], True, persist))"

definition apply_kick :: "env \<Rightarrow> event \<Rightarrow> network \<Rightarrow> applied" where
  "apply_kick env ev n =
     (let self = EqualIRC (ev_Nick ev) (n_Nick n);
          text = (if self then ''you were kicked from '' @ ev_Buffer ev @ '' by '' @ ev_Kicker ev
                  else ev_Nick ev @ '' was kicked from '' @ ev_Buffer ev @ '' by '' @ ev_Kicker ev);
          n = with_channel (ev_Buffer ev) (if self then clear_members else drop_member (ev_Nick ev)) n
      in (n, [line_msg env (n_ID n) MsgPart (ev_Buffer ev) (ev_Nick ev) (with_reason text (ev_Text ev))], True, False))"

definition apply_quit :: "env \<Rightarrow> event \<Rightarrow> network \<Rightarrow> applied" where
  "apply_quit env ev n =
     (let (n, out, hit) = member_loop (ev_Nick ev) (\<lambda>m. drop_member (ev_Nick ev))
        (\<lambda>m c. [line_msg env (n_ID n) MsgQuit (ch_Name c) (ev_Nick ev)
                  (with_reason (ev_Nick ev @ '' has quit'') (ev_Text ev))]) n
      in (n, out, hit, False))"

definition rename_member :: "string \<Rightarrow> string \<Rightarrow> member \<Rightarrow> channel \<Rightarrow> channel" where
  "rename_member old new m c = put_member (m\<lparr>m_Nick := new\<rparr>) (drop_member old c)"

definition apply_nick :: "env \<Rightarrow> event \<Rightarrow> network \<Rightarrow> applied" where
  "apply_nick env ev n =
     (let self = EqualIRC (n_Nick n) (ev_Nick ev);
          n = (if self then n\<lparr>n_Nick := ev_NewNick ev\<rparr> else n);
          (n, out, hit) = member_loop (ev_Nick ev) (rename_member (ev_Nick ev) (ev_NewNick ev))
            (\<lambda>m c. [line_msg env (n_ID n) MsgNick (ch_Name c) (ev_Nick ev)
                      (ev_Nick ev @ '' is now known as '' @ ev_NewNick ev)]) n
      in (n, out, self \<or> hit, False))"

section \<open>Modes and topics\<close>

definition member_mode_step :: "memberMode \<Rightarrow> channel \<times> bool \<Rightarrow> channel \<times> bool" where
  "member_mode_step mm st =
     (case st of (c, hit) \<Rightarrow>
        (case ch_Members c (FoldIRC (mm_Nick mm)) of
           None \<Rightarrow> (c, hit)
         | Some m \<Rightarrow>
             (let modes = (if mm_Add mm then addPrefix (m_Modes m) (mm_Symbol mm)
                           else remove_all (m_Modes m) (mm_Symbol mm))
              in (c\<lparr>ch_Members := (ch_Members c)(FoldIRC (mm_Nick mm) \<mapsto> m\<lparr>m_Modes := modes\<rparr>)\<rparr>, True))))"

definition apply_mode :: "env \<Rightarrow> event \<Rightarrow> network \<Rightarrow> applied" where
  "apply_mode env ev n =
     (let (n, found) = Channel n (ev_Buffer ev) in
      case found of
        None \<Rightarrow> (n, [], False, False)
      | Some a \<Rightarrow>
          (let (c, hit) = fold member_mode_step (ev_MemberModes ev) (chan_at n a, False);
               change = (if ev_ChanModes ev = [] then ev_Text ev else ev_ChanModes ev)
           in if ev_Nick ev = [] then (upd_chan (\<lambda>_. c\<lparr>ch_Mode := ev_Text ev\<rparr>) a n, [], True, False)
              else if ev_Text ev \<noteq> []
              then (upd_chan (\<lambda>_. c\<lparr>ch_Mode := updateChannelMode (ch_Mode c) change\<rparr>) a n,
                    [sys_msg env (n_ID n) (ev_Buffer ev) (ev_Nick ev @ '' sets mode '' @ ev_Text ev)], True, False)
              else (upd_chan (\<lambda>_. c) a n, [], hit, False)))"

definition apply_topic :: "env \<Rightarrow> event \<Rightarrow> network \<Rightarrow> applied" where
  "apply_topic env ev n =
     (let (n, a, _) = getOrCreate n (ev_Buffer ev) KindChannel;
          n = (if ev_TopicMeta ev then n else upd_chan (\<lambda>c. c\<lparr>ch_Topic := ev_Text ev\<rparr>) a n)
      in if ev_Nick ev = [] then (n, [], True, False)
         else (let n = upd_chan (\<lambda>c. c\<lparr>ch_TopicSetter := ev_Nick ev,
                        ch_TopicTime := (if ev_Time ev \<noteq> 0 then ev_Time ev else ch_TopicTime c)\<rparr>) a n;
                   out = (if ev_TopicMeta ev then []
                          else [sys_msg env (n_ID n) (ev_Buffer ev)
                            (if ev_Text ev \<noteq> [] then ev_Nick ev @ '' set topic: '' @ ev_Text ev
                             else ev_Nick ev @ '' cleared the topic'')])
               in (n, out, True, False)))"

section \<open>The switch\<close>

text \<open>\<^verbatim>\<open>applyLocked\<close> on the network an event names; events with another handler change nothing here.\<close>

definition apply_net ::
    "env \<Rightarrow> highlighter \<Rightarrow> (string \<Rightarrow> (string \<times> string) list) \<Rightarrow> string option \<Rightarrow> event \<Rightarrow> network \<Rightarrow> applied" where
  "apply_net env h pending key ev n =
     (case ev_Type ev of
        EvSetState \<Rightarrow> apply_set_state ev n
      | EvConnect \<Rightarrow> apply_connect env pending ev n
      | EvDisconnect \<Rightarrow> apply_disconnect env ev n
      | EvMessageIn \<Rightarrow> apply_message_in env h pending ev n
      | EvBouncerNetwork \<Rightarrow> apply_bouncer ev n
      | EvHistoryTarget \<Rightarrow> apply_history_target ev n
      | EvNames \<Rightarrow> apply_names ev n
      | EvAway \<Rightarrow> apply_away ev n
      | EvAccount \<Rightarrow> apply_account ev n
      | EvChgHost \<Rightarrow> apply_chghost env ev n
      | EvSetName \<Rightarrow> apply_chghost env ev n
      | EvInvite \<Rightarrow> apply_invite env ev n
      | EvMonitor \<Rightarrow> apply_monitor ev n
      | EvJoin \<Rightarrow> apply_join env pending key ev n
      | EvPart \<Rightarrow> apply_part env ev n
      | EvKick \<Rightarrow> apply_kick env ev n
      | EvQuit \<Rightarrow> apply_quit env ev n
      | EvNick \<Rightarrow> apply_nick env ev n
      | EvMode \<Rightarrow> apply_mode env ev n
      | EvTopic \<Rightarrow> apply_topic env ev n
      | _ \<Rightarrow> (n, [], False, False))"

end
