(* ===== verification/Event_Facts.thy ===== *)
theory Event_Facts
  imports Core_Events
begin

text \<open>
  What the event cases do to a network, as facts the properties use: writes through all channel
  pointers, the member loop as one pointwise change of the channels, and one preservation lemma for
  the coherence of a network per event.
\<close>

section \<open>Writing through every channel\<close>

lemma fold_upd_chan_fields [simp]:
  "n_Channels (fold (upd_chan f) as n) = n_Channels n" "n_byFold (fold (upd_chan f) as n) = n_byFold n"
  "n_ID (fold (upd_chan f) as n) = n_ID n" "n_Name (fold (upd_chan f) as n) = n_Name n"
  "n_Nick (fold (upd_chan f) as n) = n_Nick n" "n_State (fold (upd_chan f) as n) = n_State n"
  "n_Params (fold (upd_chan f) as n) = n_Params n" "n_Bouncer (fold (upd_chan f) as n) = n_Bouncer n"
  "n_MonitorOnline (fold (upd_chan f) as n) = n_MonitorOnline n"
  "length (n_store (fold (upd_chan f) as n)) = length (n_store n)"
  by (induction as arbitrary: n) simp_all

lemma fold_upd_chan_at:
  assumes "distinct as" "\<forall>a\<in>set as. a < length (n_store n)"
  shows "chan_at (fold (upd_chan f) as n) b = (if b \<in> set as then f (chan_at n b) else chan_at n b)"
  using assms by (induction as arbitrary: n) (auto simp: chan_at_upd)

lemma fold_upd_buffers:
  "table_ok n \<Longrightarrow> buffers (fold (upd_chan f) (n_Channels n) n) = map f (buffers n)"
  by (simp add: buffers_def fold_upd_chan_at table_okD(1,2))

lemma fold_upd_net_ok:
  assumes ok: "net_ok n" and nm: "\<And>c. ch_Name (f c) = ch_Name c" and mem: "\<And>c. members_ok c \<Longrightarrow> members_ok (f c)"
  shows "net_ok (fold (upd_chan f) (n_Channels n) n)"
proof -
  note t = net_okD(1)[OF ok]
  have at: "chan_at (fold (upd_chan f) (n_Channels n) n) b
      = (if b \<in> set (n_Channels n) then f (chan_at n b) else chan_at n b)" for b
    using table_okD(1,2)[OF t] by (intro fold_upd_chan_at) auto
  have fa: "fold_at (fold (upd_chan f) (n_Channels n) n) = fold_at n"
    by (auto simp: fun_eq_iff fold_at_def at nm)
  have "table_ok (fold (upd_chan f) (n_Channels n) n)"
    using t fa by (simp add: table_ok_def cong: option.case_cong)
  then show ?thesis using ok mem by (simp add: net_ok_def at)
qed

section \<open>The member loop\<close>

definition touch :: "string \<Rightarrow> (member \<Rightarrow> channel \<Rightarrow> channel) \<Rightarrow> channel \<Rightarrow> channel" where
  "touch nick upd c = (case ch_Members c (FoldIRC nick) of None \<Rightarrow> c | Some m \<Rightarrow> upd m c)"

definition has_member :: "string \<Rightarrow> channel \<Rightarrow> bool" where
  "has_member nick c \<longleftrightarrow> ch_Members c (FoldIRC nick) \<noteq> None"

definition touch_lines :: "string \<Rightarrow> (member \<Rightarrow> channel \<Rightarrow> message list) \<Rightarrow> channel \<Rightarrow> message list" where
  "touch_lines nick out c = (case ch_Members c (FoldIRC nick) of None \<Rightarrow> [] | Some m \<Rightarrow> out m c)"

lemma upd_chan_id: "upd_chan (\<lambda>c. c) a n = n"
  by (simp add: upd_chan_def chan_at_def)

lemma upd_chan_cong: "f (chan_at n a) = g (chan_at n a) \<Longrightarrow> upd_chan f a n = upd_chan g a n"
  by (simp add: upd_chan_def)

lemma member_step_touch:
  "member_step nick upd out a (n, emit, hit)
    = (upd_chan (touch nick upd) a n, emit @ touch_lines nick out (chan_at n a), hit \<or> has_member nick (chan_at n a))"
proof (cases "ch_Members (chan_at n a) (FoldIRC nick)")
  case None
  then have "upd_chan (touch nick upd) a n = upd_chan (\<lambda>c. c) a n" by (intro upd_chan_cong) (simp add: touch_def)
  then show ?thesis using None by (simp add: member_step_def touch_lines_def has_member_def upd_chan_id)
next
  case (Some m)
  then have "upd_chan (touch nick upd) a n = upd_chan (upd m) a n" by (intro upd_chan_cong) (simp add: touch_def)
  then show ?thesis using Some by (simp add: member_step_def touch_lines_def has_member_def)
qed

lemma member_steps:
  assumes "distinct as" "\<forall>a\<in>set as. a < length (n_store n)"
  shows "fold (member_step nick upd out) as (n, emit, hit)
    = (fold (upd_chan (touch nick upd)) as n, emit @ concat (map (touch_lines nick out) (map (chan_at n) as)),
       hit \<or> list_ex (has_member nick) (map (chan_at n) as))"
  using assms
proof (induction as arbitrary: n emit hit)
  case (Cons a as)
  have at: "map (chan_at (upd_chan (touch nick upd) a n)) as = map (chan_at n) as"
    using Cons.prems by (auto simp: chan_at_upd)
  show ?case using Cons.IH[of "upd_chan (touch nick upd) a n"] Cons.prems
    by (simp add: member_step_touch at del: map_map)
qed simp

lemma member_loop_spec:
  assumes "table_ok n"
  shows "member_loop nick upd out n
    = (fold (upd_chan (touch nick upd)) (n_Channels n) n, concat (map (touch_lines nick out) (buffers n)),
       list_ex (has_member nick) (buffers n))"
  using member_steps[OF table_okD(1)[OF assms], of n] table_okD(2)[OF assms]
  by (simp add: member_loop_def buffers_def)

lemma member_loop_net_ok:
  assumes "net_ok n" "\<And>m c. ch_Name (upd m c) = ch_Name c"
    "\<And>m c. members_ok c \<Longrightarrow> ch_Members c (FoldIRC nick) = Some m \<Longrightarrow> members_ok (upd m c)"
  shows "net_ok (fst (member_loop nick upd out n))"
  unfolding member_loop_spec[OF net_okD(1)[OF assms(1)]] fst_conv
  using assms by (intro fold_upd_net_ok) (auto simp: touch_def split: option.splits)

section \<open>Members of one channel\<close>

lemma members_okI: "(\<And>k m. ch_Members c k = Some m \<Longrightarrow> k = FoldIRC (m_Nick m)) \<Longrightarrow> members_ok c"
  by (simp add: members_ok_def)

lemma members_ok_simps [simp]:
  "members_ok (c\<lparr>ch_State := s\<rparr>) = members_ok c" "members_ok (c\<lparr>ch_Topic := t\<rparr>) = members_ok c"
  "members_ok (c\<lparr>ch_Mode := t\<rparr>) = members_ok c" "members_ok (c\<lparr>ch_TopicSetter := t, ch_TopicTime := i\<rparr>) = members_ok c"
  "members_ok (c\<lparr>ch_Unread := i, ch_Highlight := j\<rparr>) = members_ok c"
  by (simp_all add: members_ok_def)

lemma put_member_ok [simp]: "members_ok c \<Longrightarrow> members_ok (put_member m c)"
  by (auto simp: members_ok_def put_member_def split: if_splits)

lemma drop_member_ok [simp]: "members_ok c \<Longrightarrow> members_ok (drop_member nick c)"
  by (auto simp: members_ok_def drop_member_def split: if_splits)

lemma clear_members_ok [simp]: "members_ok (clear_members c)"
  by (simp add: members_ok_def clear_members_def)

lemma set_member_ok:
  "members_ok c \<Longrightarrow> FoldIRC (m_Nick m) = k \<Longrightarrow> members_ok (c\<lparr>ch_Members := (ch_Members c)(k \<mapsto> m)\<rparr>)"
  by (auto simp: members_ok_def split: if_splits)

lemma rename_member_ok [simp]: "members_ok c \<Longrightarrow> members_ok (rename_member old new m c)"
  by (simp add: rename_member_def)

lemma member_op_names [simp]:
  "ch_Name (put_member m c) = ch_Name c" "ch_Name (drop_member nick c) = ch_Name c"
  "ch_Name (clear_members c) = ch_Name c" "ch_Name (rename_member old new m c) = ch_Name c"
  by (simp_all add: put_member_def drop_member_def clear_members_def rename_member_def)

lemma fold_put_member [simp]:
  "members_ok c \<Longrightarrow> members_ok (fold put_member ms c)" "ch_Name (fold put_member ms c) = ch_Name c"
  by (induction ms arbitrary: c) simp_all

lemma member_mode_step_ok:
  assumes "members_ok c"
  shows "members_ok (fst (member_mode_step mm (c, hit)))
    \<and> ch_Name (fst (member_mode_step mm (c, hit))) = ch_Name c"
proof (cases "ch_Members c (FoldIRC (mm_Nick mm))")
  case (Some m)
  then have "FoldIRC (m_Nick m) = FoldIRC (mm_Nick mm)" using assms by (simp add: members_ok_def)
  then show ?thesis using assms Some by (simp add: member_mode_step_def Let_def set_member_ok)
qed (simp add: member_mode_step_def assms)

lemma member_mode_steps_ok:
  "members_ok (fst st) \<Longrightarrow> members_ok (fst (fold member_mode_step ms st)) \<and> ch_Name (fst (fold member_mode_step ms st)) = ch_Name (fst st)"
proof (induction ms arbitrary: st)
  case (Cons m ms)
  then show ?case using member_mode_step_ok[of "fst st" m "snd st"] Cons.IH[of "member_mode_step m st"] by simp
qed simp

section \<open>Every event keeps a network coherent\<close>

lemma net_ok_cong:
  assumes "n_Channels n' = n_Channels n" "n_byFold n' = n_byFold n" "n_store n' = n_store n"
  shows "net_ok n' = net_ok n"
proof -
  have "chan_at n' = chan_at n" using assms(3) by (simp add: chan_at_def fun_eq_iff)
  moreover from this have "fold_at n' = fold_at n" by (simp add: fold_at_def fun_eq_iff)
  ultimately show ?thesis using assms by (simp add: net_ok_def table_ok_def cong: option.case_cong)
qed

lemma net_ok_fields [simp]:
  "net_ok (n\<lparr>n_State := s\<rparr>) = net_ok n" "net_ok (n\<lparr>n_Nick := k\<rparr>) = net_ok n"
  "net_ok (n\<lparr>n_MonitorOnline := mo\<rparr>) = net_ok n" "net_ok (n\<lparr>n_Bouncer := b\<rparr>) = net_ok n"
  "net_ok (n\<lparr>n_MonitorOnline := mo, n_Bouncer := b\<rparr>) = net_ok n"
  "net_ok (n\<lparr>n_Params := p\<rparr>) = net_ok n" "net_ok (n\<lparr>n_Name := nm\<rparr>) = net_ok n"
  "net_ok (n\<lparr>n_Caps := cs\<rparr>) = net_ok n"
  by (rule net_ok_cong; simp)+

lemma upd_ok:
  assumes "net_ok n" "a \<in> set (n_Channels n)" "\<And>c. ch_Name (f c) = ch_Name c" "\<And>c. members_ok c \<Longrightarrow> members_ok (f c)"
  shows "net_ok (upd_chan f a n)"
  using assms by (intro upd_chan_net_ok) auto

lemma applyPendingState_ok:
  "net_ok n \<Longrightarrow> a \<in> set (n_Channels n) \<Longrightarrow>
    net_ok (applyPendingState pending a n) \<and> n_Channels (applyPendingState pending a n) = n_Channels n"
  using upd_ok[of n a] by (auto simp: applyPendingState_def Let_def)

lemma open_buffer_ok:
  assumes "net_ok n" "open_buffer pending name kind n = (n', a, created)"
  shows "net_ok n'" "a \<in> set (n_Channels n')"
proof -
  obtain n0 where g: "getOrCreate n name kind = (n0, a, created)"
    and n': "n' = (if created then applyPendingState pending a n0 else n0)"
    using assms(2) by (auto simp: open_buffer_def Let_def split: prod.splits)
  show "net_ok n'" "a \<in> set (n_Channels n')"
    using getOrCreate_net_ok(1,2)[OF assms(1) g] applyPendingState_ok[of n0 a pending] n' by auto
qed

lemma resume_channels_ok: "net_ok n \<Longrightarrow> net_ok (fold (resume_channel pending) chs n)"
proof (induction chs arbitrary: n)
  case (Cons ch chs)
  obtain n' a c where ob: "open_buffer pending ch KindChannel n = (n', a, c)" by (metis prod_cases3)
  show ?case using Cons open_buffer_ok(1)[OF Cons.prems ob] ob by (simp add: resume_channel_def)
qed simp

lemma apply_set_state_ok: "net_ok n \<Longrightarrow> net_ok (fst (apply_set_state ev n))"
  by (simp add: apply_set_state_def)

lemma apply_connect_ok: "net_ok n \<Longrightarrow> net_ok (fst (apply_connect env pending ev n))"
  by (simp add: apply_connect_def Let_def resume_channels_ok)

lemma apply_disconnect_ok: "net_ok n \<Longrightarrow> net_ok (fst (apply_disconnect env ev n))"
  using fold_upd_net_ok[of "n\<lparr>n_State := StateDisconnected, n_MonitorOnline := Map.empty, n_Bouncer := []\<rparr>" clear_members]
  by (simp add: apply_disconnect_def Let_def)

lemma apply_message_in_ok: "net_ok n \<Longrightarrow> net_ok (fst (apply_message_in env h pending ev n))"
  by (auto simp: apply_message_in_def Let_def split: option.splits prod.splits dest: open_buffer_ok(1))

lemma apply_bouncer_ok: "net_ok n \<Longrightarrow> net_ok (fst (apply_bouncer ev n))"
  by (simp add: apply_bouncer_def Let_def)

lemma apply_history_target_ok: "net_ok n \<Longrightarrow> net_ok (fst (apply_history_target ev n))"
  by (auto simp: apply_history_target_def split: prod.splits dest: getOrCreate_net_ok(1))

lemma apply_names_ok:
  assumes "net_ok n" shows "net_ok (fst (apply_names ev n))"
proof -
  obtain n' a c where g: "getOrCreate n (ev_Buffer ev) KindChannel = (n', a, c)" by (metis prod_cases3)
  show ?thesis using getOrCreate_net_ok(1,2)[OF assms g] g by (simp add: apply_names_def upd_ok)
qed

lemma apply_away_ok:
  assumes "net_ok n" shows "net_ok (fst (apply_away ev n))"
  using member_loop_net_ok[OF assms, of "\<lambda>m c. c\<lparr>ch_Members := (ch_Members c)(FoldIRC (ev_Nick ev) \<mapsto> m\<lparr>m_Away := ev_Away ev\<rparr>)\<rparr>"
      "ev_Nick ev" "\<lambda>m c. []"]
  by (auto simp: apply_away_def split_beta members_ok_def intro: set_member_ok)

lemma apply_account_ok:
  assumes "net_ok n" shows "net_ok (fst (apply_account ev n))"
  using member_loop_net_ok[OF assms, of "\<lambda>m c. c\<lparr>ch_Members := (ch_Members c)(FoldIRC (ev_Nick ev) \<mapsto> m\<lparr>m_Account := ev_Account ev\<rparr>)\<rparr>"
      "ev_Nick ev" "\<lambda>m c. []"]
  by (auto simp: apply_account_def split_beta members_ok_def intro: set_member_ok)

lemma apply_chghost_ok:
  assumes "net_ok n" shows "net_ok (fst (apply_chghost env ev n))"
  using member_loop_net_ok[OF assms, of "\<lambda>m c. c" "ev_Nick ev"] by (simp add: apply_chghost_def split_beta)

lemma Channel_ok: "net_ok n \<Longrightarrow> Channel n name = (n', c) \<Longrightarrow> net_ok n' \<and> n_Channels n' = n_Channels n"
  by (auto simp: Channel_spec net_okD)

lemma Channel_in: "net_ok n \<Longrightarrow> Channel n name = (n', Some a) \<Longrightarrow> a \<in> set (n_Channels n')"
  by (auto simp: Channel_spec net_okD dest: find_SomeD)

lemma apply_invite_ok: "net_ok n \<Longrightarrow> net_ok (fst (apply_invite env ev n))"
  by (auto simp: apply_invite_def Channel_spec net_okD)

lemma monitor_steps_ok: "net_ok (fst st) \<Longrightarrow> net_ok (fst (fold (monitor_step ev) nks st))"
  by (induction nks arbitrary: st) (auto simp: monitor_step_def split: prod.splits)

lemma apply_monitor_ok: "net_ok n \<Longrightarrow> net_ok (fst (apply_monitor ev n))"
  using monitor_steps_ok[of "(n, False)"] by (simp add: apply_monitor_def split_beta)

lemma apply_join_ok:
  assumes "net_ok n" shows "net_ok (fst (apply_join env pending key ev n))"
proof -
  obtain n' a c where ob: "open_buffer pending (ev_Buffer ev) KindChannel n = (n', a, c)" by (metis prod_cases3)
  have "net_ok (upd_chan (put_member m) a n')" for m using open_buffer_ok[OF assms ob] by (simp add: upd_ok)
  then show ?thesis using ob by (simp add: apply_join_def Let_def split_beta)
qed

lemma with_channel_ok:
  "net_ok n \<Longrightarrow> (\<And>c. ch_Name (f c) = ch_Name c) \<Longrightarrow> (\<And>c. members_ok c \<Longrightarrow> members_ok (f c)) \<Longrightarrow>
    net_ok (with_channel name f n)"
  by (auto simp: with_channel_def split: prod.splits option.splits intro!: upd_ok dest: Channel_ok Channel_in)

lemma apply_part_ok: "net_ok n \<Longrightarrow> net_ok (fst (apply_part env ev n))"
  by (simp add: apply_part_def Let_def split_beta remove_buffer_net_ok with_channel_ok)

lemma apply_kick_ok: "net_ok n \<Longrightarrow> net_ok (fst (apply_kick env ev n))"
  by (simp add: apply_kick_def Let_def with_channel_ok)

lemma apply_quit_ok: "net_ok n \<Longrightarrow> net_ok (fst (apply_quit env ev n))"
  by (simp add: apply_quit_def split_beta member_loop_net_ok)

lemma apply_nick_ok: "net_ok n \<Longrightarrow> net_ok (fst (apply_nick env ev n))"
  by (simp add: apply_nick_def Let_def split_beta member_loop_net_ok)

lemma apply_mode_ok:
  assumes "net_ok n" shows "net_ok (fst (apply_mode env ev n))"
proof (cases "Channel n (ev_Buffer ev)")
  case (Pair n' c)
  show ?thesis
  proof (cases c)
    case None
    then show ?thesis using Pair Channel_ok[OF assms Pair] by (simp add: apply_mode_def)
  next
    case (Some a)
    define c' where "c' = fst (fold member_mode_step (ev_MemberModes ev) (chan_at n' a, False))"
    have ok: "net_ok n'" "a \<in> set (n_Channels n')" using Channel_ok[OF assms Pair] Channel_in[OF assms Pair[unfolded Some]] by auto
    have c': "members_ok c'" "ch_Name c' = ch_Name (chan_at n' a)"
      using member_mode_steps_ok[of "(chan_at n' a, False)" "ev_MemberModes ev"] net_okD(2)[OF ok] by (auto simp: c'_def)
    have "net_ok (upd_chan (\<lambda>_. c') a n')" "net_ok (upd_chan (\<lambda>_. c'\<lparr>ch_Mode := m\<rparr>) a n')" for m
      using ok c' by (auto intro!: upd_chan_net_ok)
    then show ?thesis using Pair Some by (simp add: apply_mode_def Let_def split_beta c'_def)
  qed
qed

lemma apply_topic_ok:
  assumes "net_ok n" shows "net_ok (fst (apply_topic env ev n))"
proof -
  obtain n' a c where g: "getOrCreate n (ev_Buffer ev) KindChannel = (n', a, c)" by (metis prod_cases3)
  note ok = getOrCreate_net_ok(1,2)[OF assms g]
  have "net_ok (upd_chan (\<lambda>c. c\<lparr>ch_Topic := t\<rparr>) a n')" for t using ok by (simp add: upd_ok)
  then show ?thesis using g ok by (simp add: apply_topic_def Let_def upd_ok)
qed

lemmas apply_oks = apply_set_state_ok apply_connect_ok apply_disconnect_ok apply_message_in_ok apply_bouncer_ok
  apply_history_target_ok apply_names_ok apply_away_ok apply_account_ok apply_chghost_ok apply_invite_ok
  apply_monitor_ok apply_join_ok apply_part_ok apply_kick_ok apply_quit_ok apply_nick_ok apply_mode_ok apply_topic_ok

lemma apply_net_ok: "net_ok n \<Longrightarrow> net_ok (fst (apply_net env h pending key ev n))"
  by (cases "ev_Type ev") (simp_all add: apply_net_def apply_oks)

end
