(* ===== verification/Core_Engine.thy ===== *)
theory Core_Engine
  imports Event_Facts
begin

text \<open>
  Model of the engine of \<^verbatim>\<open>internal/core/engine.go\<close>: its state, committing an event, fanning lines out, and
  the operations on networks that the settings call. An operation returns the new state and what it
  did to the outside in order: lines printed to the sinks, snapshots pushed, parameters saved, bytes
  sent on connections, goroutines started. A connection is a number; a goroutine is an effect that
  carries what it captured, and what it does later is an operation of its own.
\<close>

section \<open>State\<close>

record joinGate =
  jg_held :: bool
  jg_pending :: bool
  jg_conn :: "nat option"
  jg_timer :: "nat option"

record catchUp =
  cu_pages :: int
  cu_since :: int

type_synonym listItem = "string \<times> int \<times> string"

text \<open>
  Missing keys of \<^verbatim>\<open>startupSeq\<close>, \<^verbatim>\<open>targetsSince\<close> and \<^verbatim>\<open>pendingState\<close> read as their zero value, so these maps are
  total functions. \<^verbatim>\<open>connCancels\<close> records the connection whose reconnect goroutine is running.
\<close>

record engine =
  e_nets :: "network list"
  e_highlight :: highlighter
  e_aliases :: "string \<rightharpoonup> string"
  e_connector :: bool
  e_netStore :: bool
  e_conns :: "string \<rightharpoonup> nat"
  e_connCancels :: "string \<rightharpoonup> nat"
  e_startupSeq :: "string \<Rightarrow> nat"
  e_catchUps :: "string \<rightharpoonup> catchUp"
  e_targetsSince :: "string \<Rightarrow> int"
  e_listAccum :: "string \<Rightarrow> listItem list"
  e_pendingWhois :: "string \<rightharpoonup> string"
  e_pendingKeys :: "string \<rightharpoonup> string"
  e_pendingState :: "string \<Rightarrow> string \<Rightarrow> (string \<times> string) list"
  e_joinGates :: "string \<rightharpoonup> joinGate"
  e_idBase :: string
  e_idSeq :: nat
  e_running :: bool
  e_stopping :: bool
  e_dirty :: "string list"

datatype effect =
    Print message
  | NetworkChanged network
  | NetworkRemoved string
  | NetworksReordered "string list"
  | ChannelList string "listItem list"
  | Typing string string string string
  | React string string string string string
  | Redact string string string string string
  | ReadMarker string string int
  | SaveNetwork networkParams
  | DeleteNetwork string
  | SendRaw nat string
  | ConnMessage nat string string
  | Autojoin nat
  | CloseConn nat
  | DetachConn nat
  | StartConn string nat
  | Enqueue event
  | SpawnPerform string nat nat "string list" bool
  | SpawnTargets string nat "string list"
  | SpawnCatchUp string string int int nat
  | SpawnLoad string string string string bool
  | SpawnUpdate string string string

type_synonym result = "engine \<times> effect list"

definition New_engine :: "network list \<Rightarrow> highlighter \<Rightarrow> (string \<rightharpoonup> string) \<Rightarrow> bool \<Rightarrow> bool \<Rightarrow> string \<Rightarrow> engine" where
  "New_engine nets h aliases connector store base =
     \<lparr>e_nets = nets, e_highlight = h, e_aliases = aliases, e_connector = connector, e_netStore = store,
      e_conns = Map.empty, e_connCancels = Map.empty, e_startupSeq = (\<lambda>_. 0), e_catchUps = Map.empty,
      e_targetsSince = (\<lambda>_. 0), e_listAccum = (\<lambda>_. []), e_pendingWhois = Map.empty,
      e_pendingKeys = Map.empty, e_pendingState = (\<lambda>_ _. []), e_joinGates = Map.empty, e_idBase = base,
      e_idSeq = 0, e_running = False, e_stopping = False, e_dirty = []\<rparr>"

section \<open>Networks of the user\<close>

definition find_net :: "engine \<Rightarrow> string \<Rightarrow> network option" where
  "find_net e ident = find (\<lambda>n. n_ID n = ident) (e_nets e)"

text \<open>Writing through the pointer the lookup returned.\<close>

fun put_net :: "string \<Rightarrow> network \<Rightarrow> network list \<Rightarrow> network list" where
  "put_net ident n [] = []"
| "put_net ident n (x # xs) = (if n_ID x = ident then n # xs else x # put_net ident n xs)"

definition set_net :: "string \<Rightarrow> network \<Rightarrow> engine \<Rightarrow> engine" where
  "set_net ident n e = e\<lparr>e_nets := put_net ident n (e_nets e)\<rparr>"

section \<open>Snapshots\<close>

definition clone_network :: "network \<Rightarrow> network" where
  "clone_network n = n\<lparr>n_Caps := [], n_Channels := [0..<length (n_Channels n)], n_store := buffers n,
     n_byFold := Some (index_channels (buffers n) [0..<length (n_Channels n)] Map.empty)\<rparr>"

fun first_index :: "string \<Rightarrow> string list \<Rightarrow> nat option" where
  "first_index x [] = None"
| "first_index x (y # ys) = (if x = y then Some 0 else map_option Suc (first_index x ys))"

definition buffer_pos :: "string list \<Rightarrow> channel \<Rightarrow> nat" where
  "buffer_pos order c = (case first_index (FoldIRC (ch_Name c)) order of Some i \<Rightarrow> i | None \<Rightarrow> length order)"

definition orderChannels :: "network \<Rightarrow> network" where
  "orderChannels n =
     (let order = p_BufferOrder (n_Params n) in
      if order = [] \<or> length (n_Channels n) < 2 then n
      else n\<lparr>n_Channels := sort_key (\<lambda>a. buffer_pos order (chan_at n a)) (n_Channels n)\<rparr>)"

definition SnapshotNetwork :: "env \<Rightarrow> string \<Rightarrow> engine \<Rightarrow> network option" where
  "SnapshotNetwork env ident e =
     (case find_net e ident of
        None \<Rightarrow> None
      | Some n \<Rightarrow>
          (let nc = clone_network n;
               nc = (case e_conns e ident of Some c \<Rightarrow> nc\<lparr>n_Caps := env_caps env c\<rparr> | None \<Rightarrow> nc)
           in Some (orderChannels nc)))"

definition notifyNetwork :: "env \<Rightarrow> string \<Rightarrow> engine \<Rightarrow> effect list" where
  "notifyNetwork env ident e =
     (case SnapshotNetwork env ident e of None \<Rightarrow> [] | Some nc \<Rightarrow> [NetworkChanged nc])"

definition markDirty :: "string \<Rightarrow> engine \<Rightarrow> engine" where
  "markDirty ident e = e\<lparr>e_dirty := List.insert ident (e_dirty e)\<rparr>"

definition flushDirty :: "env \<Rightarrow> engine \<Rightarrow> result" where
  "flushDirty env e =
     (e\<lparr>e_dirty := []\<rparr>, concat (map (\<lambda>ident. notifyNetwork env ident e) (sort (e_dirty e))))"

text \<open>A running loop is only woken; without one the flush happens in place.\<close>

definition wakeFlush :: "env \<Rightarrow> engine \<Rightarrow> result" where
  "wakeFlush env e = (if e_running e then (e, []) else flushDirty env e)"

section \<open>Lines out\<close>

definition digit36 :: "nat \<Rightarrow> char" where
  "digit36 d = (if d < 10 then char_of (48 + d) else char_of (87 + d))"

fun format_uint36 :: "nat \<Rightarrow> string" where
  "format_uint36 n = (if n < 36 then [digit36 n] else format_uint36 (n div 36) @ [digit36 (n mod 36)])"

declare format_uint36.simps [simp del]

definition synthID :: "engine \<Rightarrow> string \<times> engine" where
  "synthID e = (let s = (e_idSeq e + 1) mod 2 ^ 64
                in (''loc-'' @ e_idBase e @ ''-'' @ format_uint36 s, e\<lparr>e_idSeq := s\<rparr>))"

definition broadcast :: "message \<Rightarrow> engine \<Rightarrow> result" where
  "broadcast m e =
     (if msg_ID m = [] then (let (ident, e) = synthID e in (e, [Print (m\<lparr>msg_ID := ident\<rparr>)]))
      else (e, [Print m]))"

fun broadcast_all :: "message list \<Rightarrow> engine \<Rightarrow> result" where
  "broadcast_all [] e = (e, [])"
| "broadcast_all (m # ms) e =
     (let (e, out) = broadcast m e; (e, outs) = broadcast_all ms e in (e, out @ outs))"

definition inject :: "env \<Rightarrow> message \<Rightarrow> engine \<Rightarrow> result" where
  "inject env m e =
     (case find_net e (msg_Network m) of
        None \<Rightarrow> (e, [])
      | Some n \<Rightarrow>
          (let (n, _, created) = getOrCreate n (msg_Buffer m) (bufferKind (msg_Buffer m));
               (e, out) = broadcast m (set_net (msg_Network m) n e)
           in if created
              then (let (e, out2) = wakeFlush env (markDirty (msg_Network m) e) in (e, out @ out2))
              else (e, out)))"

definition hasCap :: "env \<Rightarrow> string \<Rightarrow> string \<Rightarrow> engine \<Rightarrow> bool" where
  "hasCap env net cap e = (case e_conns e net of None \<Rightarrow> False | Some c \<Rightarrow> cap \<in> set (env_caps env c))"

definition connWithCap :: "env \<Rightarrow> string \<Rightarrow> string \<Rightarrow> engine \<Rightarrow> nat option" where
  "connWithCap env net cap e =
     (case e_conns e net of None \<Rightarrow> None | Some c \<Rightarrow> if cap \<in> set (env_caps env c) then Some c else None)"

section \<open>Pending keys and lookups\<close>

text \<open>The keys of both maps are the network id, a tab and the folded name (\<^verbatim>\<open>whoisKey\<close>).\<close>

definition whoisKey :: "string \<Rightarrow> string \<Rightarrow> string" where
  "whoisKey net nick = net @ CHR 0x09 # FoldIRC nick"

text \<open>\<^verbatim>\<open>recordPendingKeys\<close>: channel \<open>i\<close> of the list takes key \<open>i\<close>, if there is one and it is not blank.\<close>

fun record_keys :: "string \<Rightarrow> string list \<Rightarrow> string list \<Rightarrow> (string \<rightharpoonup> string) \<Rightarrow> (string \<rightharpoonup> string)" where
  "record_keys net (ch # chs) (k # ks) m =
     record_keys net chs ks
       (if trim_space ch \<noteq> [] \<and> trim_space k \<noteq> [] then m(whoisKey net (trim_space ch) \<mapsto> trim_space k) else m)"
| "record_keys net chs ks m = m"

definition recordPendingKeys :: "string \<Rightarrow> string \<Rightarrow> engine \<Rightarrow> engine" where
  "recordPendingKeys net text e =
     (let (chans, keys, _) = str_cut (trim_space text) CHR '' ''
      in e\<lparr>e_pendingKeys := record_keys net (split_on chans CHR '','') (split_on (trim_space keys) CHR '','') (e_pendingKeys e)\<rparr>)"

definition takePendingKey :: "string \<Rightarrow> string \<Rightarrow> engine \<Rightarrow> string option \<times> engine" where
  "takePendingKey net channel e =
     (let k = whoisKey net channel
      in (e_pendingKeys e k, e\<lparr>e_pendingKeys := (e_pendingKeys e)(k := None)\<rparr>))"

definition resetJoinGate :: "string \<Rightarrow> engine \<Rightarrow> engine" where
  "resetJoinGate net e = e\<lparr>e_joinGates := (e_joinGates e)(net := None)\<rparr>"

section \<open>Committing an event\<close>

text \<open>The engine's own part of a disconnect.\<close>

definition drop_lookups :: "string \<Rightarrow> engine \<Rightarrow> engine" where
  "drop_lookups net e =
     e\<lparr>e_pendingWhois := (\<lambda>k. if has_prefix k (net @ [CHR 0x09]) then None else e_pendingWhois e k)\<rparr>"

definition applyLocked :: "env \<Rightarrow> event \<Rightarrow> engine \<Rightarrow> engine \<times> message list \<times> bool \<times> bool" where
  "applyLocked env ev e =
     (case find_net e (ev_Network ev) of
        None \<Rightarrow> (e, [], False, False)
      | Some n \<Rightarrow>
          (let (key, e) = (if ev_Type ev = EvJoin \<and> EqualIRC (ev_Nick ev) (n_Nick n)
                           then takePendingKey (ev_Network ev) (ev_Buffer ev) e else (None, e));
               e = (if ev_Type ev = EvDisconnect
                    then drop_lookups (ev_Network ev) (resetJoinGate (ev_Network ev) e) else e);
               (n, emit, changed, persist) =
                 apply_net env (e_highlight e) (e_pendingState e (ev_Network ev)) key ev n
           in (set_net (ev_Network ev) n e, emit, changed, persist)))"

definition applyNumeric :: "env \<Rightarrow> event \<Rightarrow> engine \<Rightarrow> result" where
  "applyNumeric env ev e =
     (let key = whoisKey (ev_Network ev) (ev_Nick ev);
          pending = e_pendingWhois e key;
          buf = (case pending of Some b \<Rightarrow> if b \<noteq> [] then b else StatusBuffer | None \<Rightarrow> StatusBuffer)
      in if pending = None \<and> ev_Count ev \<in> {352, 354, 315, 366} then (e, [])
         else (let e = (if ev_Count ev \<in> {318, 369, 315, 366}
                        then e\<lparr>e_pendingWhois := (e_pendingWhois e)(key := None)\<rparr> else e)
               in inject env (blank_message\<lparr>msg_Network := ev_Network ev, msg_Buffer := buf,
                    msg_Time := ev_Time ev, msg_Kind := MsgSystem, msg_Text := ev_Text ev\<rparr>) e))"

definition applyMessageOut :: "env \<Rightarrow> event \<Rightarrow> engine \<Rightarrow> result" where
  "applyMessageOut env ev e =
     (case ev_Message ev of
        None \<Rightarrow> (e, [])
      | Some m \<Rightarrow>
          (let echo = hasCap env (ev_Network ev) ''echo-message'' e in
           case find_net e (ev_Network ev) of
             None \<Rightarrow> (e, [])
           | Some n \<Rightarrow>
               (let m = (if msg_From m = [] then m\<lparr>msg_From := n_Nick n\<rparr> else m);
                    (n, _, created) = getOrCreate n (msg_Buffer m) (bufferKind (msg_Buffer m));
                    e = set_net (ev_Network ev) n e
                in case e_conns e (ev_Network ev) of
                     None \<Rightarrow> (e, [])
                   | Some c \<Rightarrow>
                       (if env_message env c (msg_Buffer m) (msg_Text m) \<noteq> None
                        then (e, [ConnMessage c (msg_Buffer m) (msg_Text m)])
                        else (let (e, out) = (if echo then (e, []) else broadcast m e);
                                  e = (if created then markDirty (ev_Network ev) e else e)
                              in (e, ConnMessage c (msg_Buffer m) (msg_Text m) # out))))))"

definition maxListItems :: nat where "maxListItems = 2000"

definition list_item :: "event \<Rightarrow> engine \<Rightarrow> engine" where
  "list_item ev e =
     (let items = e_listAccum e (ev_Network ev)
      in if length items < maxListItems
         then e\<lparr>e_listAccum := (e_listAccum e)(ev_Network ev := items @ [(ev_Buffer ev, ev_Count ev, ev_Text ev)])\<rparr>
         else e)"

definition list_end :: "event \<Rightarrow> engine \<Rightarrow> result" where
  "list_end ev e = (e\<lparr>e_listAccum := (e_listAccum e)(ev_Network ev := [])\<rparr>,
     [ChannelList (ev_Network ev) (e_listAccum e (ev_Network ev))])"

definition commit_state :: "env \<Rightarrow> event \<Rightarrow> engine \<Rightarrow> result" where
  "commit_state env ev e =
     (let (e, emit, changed, persist) = applyLocked env ev e;
          saved = (if persist \<and> e_netStore e
                   then (case find_net e (ev_Network ev) of Some n \<Rightarrow> [SaveNetwork (n_Params n)] | None \<Rightarrow> [])
                   else []);
          (e, out) = broadcast_all emit e
      in (if changed then markDirty (ev_Network ev) e else e, out @ saved))"

definition commit :: "env \<Rightarrow> event \<Rightarrow> engine \<Rightarrow> result" where
  "commit env ev e =
     (case ev_Type ev of
        EvListItem \<Rightarrow> (list_item ev e, [])
      | EvListEnd \<Rightarrow> list_end ev e
      | EvMessageOut \<Rightarrow> applyMessageOut env ev e
      | EvTyping \<Rightarrow> (e, [Typing (ev_Network ev) (ev_Buffer ev) (ev_Nick ev) (ev_Text ev)])
      | EvReact \<Rightarrow> (e, [React (ev_Network ev) (ev_Buffer ev) (ev_Target ev) (ev_Nick ev) (ev_Text ev)])
      | EvRedact \<Rightarrow> (e, [Redact (ev_Network ev) (ev_Buffer ev) (ev_Target ev) (ev_Nick ev) (ev_Text ev)])
      | EvNumeric \<Rightarrow> applyNumeric env ev e
      | _ \<Rightarrow> commit_state env ev e)"

text \<open>\<^verbatim>\<open>apply\<close>: commit and flush at once.\<close>

definition apply_event :: "env \<Rightarrow> event \<Rightarrow> engine \<Rightarrow> result" where
  "apply_event env ev e = (let (e, out) = commit env ev e; (e, out2) = flushDirty env e in (e, out @ out2))"

end
