(* ===== verification/Core_Admin.thy ===== *)
theory Core_Admin
  imports Core_Engine
begin

text \<open>
  Model of the engine's operations on networks and of the auto-join gate: the functions of
  \<^verbatim>\<open>internal/core/engine.go\<close> that server handlers, plugins and connection goroutines call, and the buffer
  state of \<^verbatim>\<open>command.go\<close>. An operation that can fail returns the error text (None on success) with the
  new state and its effects.
\<close>

type_synonym outcome = "string option \<times> engine \<times> effect list"

section \<open>Adding and removing networks\<close>

definition startConn :: "string \<Rightarrow> nat \<Rightarrow> engine \<Rightarrow> result" where
  "startConn ident c e = (e\<lparr>e_connCancels := (e_connCancels e)(ident \<mapsto> c)\<rparr>, [StartConn ident c])"

definition start_if_running :: "string \<Rightarrow> nat \<Rightarrow> engine \<Rightarrow> result" where
  "start_if_running ident c e = (if e_running e then startConn ident c e else (e, []))"

definition save_params :: "networkParams \<Rightarrow> engine \<Rightarrow> effect list" where
  "save_params p e = (if e_netStore e then [SaveNetwork p] else [])"

definition persistAndNotify :: "env \<Rightarrow> networkParams \<Rightarrow> engine \<Rightarrow> effect list" where
  "persistAndNotify env p e = save_params p e @ notifyNetwork env (p_ID p) e"

definition AddNetwork :: "networkParams \<Rightarrow> nat \<Rightarrow> engine \<Rightarrow> engine" where
  "AddNetwork p c e = e\<lparr>e_nets := e_nets e @ [new_network p], e_conns := (e_conns e)(p_ID p \<mapsto> c)\<rparr>"

definition AddNetworkLive :: "env \<Rightarrow> networkParams \<Rightarrow> engine \<Rightarrow> outcome" where
  "AddNetworkLive env p e =
     (if p_ID p = [] \<or> p_Addr p = [] then (Some ''network requires id and addr'', e, [])
      else if \<not> e_connector e then (Some ''runtime networks not supported'', e, [])
      else if find_net e (p_ID p) \<noteq> None then (Some ''network already exists'', e, [])
      else (case env_dial env p of
          Inl err \<Rightarrow> (Some err, e, [])
        | Inr c \<Rightarrow>
            (let (e, out) = start_if_running (p_ID p) c (AddNetwork p c e)
             in (None, e, out @ persistAndNotify env p e))))"

definition close_conn :: "nat option \<Rightarrow> effect list" where
  "close_conn c = (case c of Some c \<Rightarrow> [CloseConn c] | None \<Rightarrow> [])"

definition drop_catchUps :: "string \<Rightarrow> engine \<Rightarrow> engine" where
  "drop_catchUps net e =
     e\<lparr>e_catchUps := (\<lambda>k. if has_prefix k (net @ [CHR 0x00]) then None else e_catchUps e k),
       e_targetsSince := (e_targetsSince e)(net := 0)\<rparr>"

definition RemoveNetwork :: "string \<Rightarrow> engine \<Rightarrow> outcome" where
  "RemoveNetwork ident e =
     (if find_net e ident = None then (Some ''unknown network'', e, [])
      else (let c = e_conns e ident;
                e = e\<lparr>e_connCancels := (e_connCancels e)(ident := None), e_conns := (e_conns e)(ident := None),
                      e_pendingState := (e_pendingState e)(ident := (\<lambda>_. [])),
                      e_listAccum := (e_listAccum e)(ident := []),
                      e_startupSeq := (e_startupSeq e)(ident := 0)\<rparr>;
                e = resetJoinGate ident (drop_catchUps ident e);
                e = e\<lparr>e_nets := remove_first (\<lambda>n. n_ID n = ident) (e_nets e)\<rparr>
            in (None, e, close_conn c @ (if e_netStore e then [DeleteNetwork ident] else []) @ [NetworkRemoved ident])))"

definition kind_name :: "channelKind \<Rightarrow> string" where
  "kind_name k = (case k of KindChannel \<Rightarrow> ''channel'' | KindQuery \<Rightarrow> ''query'' | KindStatus \<Rightarrow> ''status'')"

definition CloseBuffer :: "env \<Rightarrow> string \<Rightarrow> string \<Rightarrow> engine \<Rightarrow> outcome" where
  "CloseBuffer env net buffer e =
     (case find_net e net of
        None \<Rightarrow> (Some ''unknown network'', e, [])
      | Some n \<Rightarrow>
          (let (n, c) = Channel n buffer; e = set_net net n e in
           case c of
             None \<Rightarrow> (Some ''unknown buffer'', e, [])
           | Some a \<Rightarrow>
               (if ch_Kind (chan_at n a) \<noteq> KindQuery
                then (Some (''cannot close a '' @ kind_name (ch_Kind (chan_at n a)) @ '' buffer''), e, [])
                else (let e = set_net net (remove_buffer n buffer) e in (None, e, notifyNetwork env net e)))))"

section \<open>Editing a network\<close>

definition needsReconnect :: "networkParams \<Rightarrow> networkParams \<Rightarrow> bool" where
  "needsReconnect old p \<longleftrightarrow> p_Addr old \<noteq> p_Addr p \<or> p_TLS old \<noteq> p_TLS p \<or> p_Fallbacks old \<noteq> p_Fallbacks p
     \<or> p_Insecure old \<noteq> p_Insecure p \<or> p_User old \<noteq> p_User p \<or> p_Realname old \<noteq> p_Realname p
     \<or> p_SASLUser old \<noteq> p_SASLUser p \<or> p_SASLPass old \<noteq> p_SASLPass p \<or> p_ServerPass old \<noteq> p_ServerPass p
     \<or> p_SASLExternal old \<noteq> p_SASLExternal p \<or> p_SASLScram old \<noteq> p_SASLScram p \<or> p_CertPEM old \<noteq> p_CertPEM p"

text \<open>An assignment to a Go map held as an association list in iteration order.\<close>

fun assoc_put :: "string \<Rightarrow> string \<Rightarrow> (string \<times> string) list \<Rightarrow> (string \<times> string) list" where
  "assoc_put k v [] = [(k, v)]"
| "assoc_put k v ((k', v') # xs) = (if k' = k then (k, v) # xs else (k', v') # assoc_put k v xs)"

fun reconcile_loop :: "(string \<times> string) list \<Rightarrow> string list \<Rightarrow> (string \<times> string) list \<Rightarrow> (string \<times> string) list" where
  "reconcile_loop [] channels out = out"
| "reconcile_loop ((k, v) # ks) channels out =
     reconcile_loop ks channels
       (case find (\<lambda>ch. EqualIRC ch k) channels of Some ch \<Rightarrow> assoc_put ch v out | None \<Rightarrow> out)"

definition reconcileKeys :: "(string \<times> string) list \<Rightarrow> string list \<Rightarrow> (string \<times> string) list" where
  "reconcileKeys keys channels = reconcile_loop keys channels []"

definition has_channel :: "string list \<Rightarrow> string \<Rightarrow> bool" where
  "has_channel xs s = list_ex (\<lambda>x. EqualIRC x s) xs"

definition diffChannels :: "string list \<Rightarrow> string list \<Rightarrow> string list \<times> string list" where
  "diffChannels old updated =
     (filter (\<lambda>c. c \<noteq> [] \<and> \<not> has_channel old c) updated, filter (\<lambda>c. c \<noteq> [] \<and> \<not> has_channel updated c) old)"

definition UpdateNetwork :: "env \<Rightarrow> networkParams \<Rightarrow> engine \<Rightarrow> outcome" where
  "UpdateNetwork env p e =
     (case find_net e (p_ID p) of
        None \<Rightarrow> (Some ''unknown network'', e, [])
      | Some n \<Rightarrow>
          (let old = n_Params n; ident = p_ID p;
               p = p\<lparr>p_ChannelKeys := reconcileKeys (p_ChannelKeys old) (p_Channels p)\<rparr>
           in if needsReconnect old p
              then (if \<not> e_connector e then (Some ''runtime networks not supported'', e, [])
                    else (case env_dial env p of
                        Inl err \<Rightarrow> (Some err, e, [])
                      | Inr c \<Rightarrow>
                          (let oldConn = e_conns e ident;
                               e = e\<lparr>e_connCancels := (e_connCancels e)(ident := None)\<rparr>;
                               e = set_net ident (n\<lparr>n_Params := p, n_Name := p_Name p, n_Nick := p_Nick p\<rparr>) e;
                               e = e\<lparr>e_conns := (e_conns e)(ident \<mapsto> c)\<rparr>;
                               (e, out) = start_if_running ident c e
                           in (None, e, out @ close_conn oldConn @ persistAndNotify env p e))))
              else (let (added, removed) = diffChannels (p_Channels old) (p_Channels p);
                        e = set_net ident (n\<lparr>n_Params := p, n_Name := p_Name p\<rparr>) e;
                        out = (case e_conns e ident of
                            Some c \<Rightarrow>
                              if n_State n = StateRegistered
                              then (if p_Nick old \<noteq> p_Nick p then [SendRaw c (''NICK '' @ p_Nick p)] else [])
                                   @ map (\<lambda>ch. SendRaw c (''PART '' @ ch)) removed
                                   @ map (\<lambda>ch. SendRaw c (''JOIN '' @ ch)) added
                              else []
                          | None \<Rightarrow> [])
                    in (None, e, out @ persistAndNotify env p e))))"

definition ListChannels :: "env \<Rightarrow> string \<Rightarrow> string \<Rightarrow> engine \<Rightarrow> outcome" where
  "ListChannels env net query e =
     (case e_conns e net of
        None \<Rightarrow> (Some ''unknown or disconnected network'', e, [])
      | Some c \<Rightarrow>
          (let line = ''LIST'' @ (if query \<noteq> [] then '' '' @ query else [])
           in (env_send env c line,
               e\<lparr>e_listAccum := (e_listAccum e)(net := [])\<rparr>, [SendRaw c line])))"

section \<open>Ordering\<close>

definition ReorderBuffers :: "env \<Rightarrow> string \<Rightarrow> string list \<Rightarrow> engine \<Rightarrow> outcome" where
  "ReorderBuffers env net names e =
     (case find_net e net of
        None \<Rightarrow> (Some ''unknown network'', e, [])
      | Some n \<Rightarrow>
          (let p = (n_Params n)\<lparr>p_BufferOrder := map FoldIRC names\<rparr>;
               e = set_net net (n\<lparr>n_Params := p\<rparr>) e
           in (None, e, persistAndNotify env p e)))"

fun pick_listed :: "string list \<Rightarrow> string list \<Rightarrow> network list \<Rightarrow> network list \<times> string list" where
  "pick_listed [] seen cur = ([], seen)"
| "pick_listed (ident # ids) seen cur =
     (if ident \<in> set seen then pick_listed ids seen cur
      else (case find (\<lambda>n. n_ID n = ident) cur of
          None \<Rightarrow> pick_listed ids seen cur
        | Some n \<Rightarrow> (let (ns, seen) = pick_listed ids (ident # seen) cur in (n # ns, seen))))"

fun number_nets :: "int \<Rightarrow> network list \<Rightarrow> network list" where
  "number_nets i [] = []"
| "number_nets i (n # ns) = n\<lparr>n_Params := (n_Params n)\<lparr>p_Pos := i\<rparr>\<rparr> # number_nets (i + 1) ns"

definition ReorderNetworks :: "string list \<Rightarrow> engine \<Rightarrow> result" where
  "ReorderNetworks ids e =
     (let (listed, seen) = pick_listed ids [] (e_nets e);
          nets = number_nets 0 (listed @ filter (\<lambda>n. n_ID n \<notin> set seen) (e_nets e))
      in (e\<lparr>e_nets := nets\<rparr>,
          (if e_netStore e then map (\<lambda>n. SaveNetwork (n_Params n)) nets else []) @ [NetworksReordered (map n_ID nets)]))"

section \<open>Connecting\<close>

definition SetConnected :: "env \<Rightarrow> string \<Rightarrow> bool \<Rightarrow> engine \<Rightarrow> outcome" where
  "SetConnected env ident connect e =
     (case find_net e ident of
        None \<Rightarrow> (Some ''unknown network'', e, [])
      | Some n \<Rightarrow>
          if connect then
            (if e_connCancels e ident \<noteq> None then (None, e, [])
             else if \<not> e_connector e then (Some ''runtime networks not supported'', e, [])
             else (case env_dial env (n_Params n) of
                 Inl err \<Rightarrow> (Some err, e, [])
               | Inr c \<Rightarrow>
                   (let old = e_conns e ident;
                        (e, out) = start_if_running ident c (e\<lparr>e_conns := (e_conns e)(ident \<mapsto> c)\<rparr>)
                    in (None, e, out @ (if old \<noteq> Some c then close_conn old else [])))))
          else
            (let c = e_conns e ident;
                 e = e\<lparr>e_connCancels := (e_connCancels e)(ident := None)\<rparr>;
                 e = set_net ident (n\<lparr>n_State := StateDisconnected\<rparr>) e
             in (None, e, close_conn c @ notifyNetwork env ident e)))"

text \<open>The reconnect goroutine gives up its slot after an authentication failure.\<close>

definition releaseConn :: "string \<Rightarrow> nat \<Rightarrow> engine \<Rightarrow> engine" where
  "releaseConn ident c e =
     (if e_conns e ident \<noteq> Some c then e else e\<lparr>e_connCancels := (e_connCancels e)(ident := None)\<rparr>)"

section \<open>Friends\<close>

definition AddMonitor :: "env \<Rightarrow> string \<Rightarrow> string \<Rightarrow> engine \<Rightarrow> outcome" where
  "AddMonitor env net nick e =
     (let nick = trim_space nick in
      if nick = [] then (Some ''empty nick'', e, [])
      else (case find_net e net of
          None \<Rightarrow> (Some ''unknown network'', e, [])
        | Some n \<Rightarrow>
            if list_ex (\<lambda>s. EqualIRC s nick) (p_Monitor (n_Params n)) then (None, e, [])
            else (let p = (n_Params n)\<lparr>p_Monitor := p_Monitor (n_Params n) @ [env_lower env nick]\<rparr>;
                      e = set_net net (n\<lparr>n_Params := p\<rparr>) e;
                      out = (case e_conns e net of
                          Some c \<Rightarrow> if n_State n = StateRegistered then [SendRaw c (''MONITOR + '' @ nick)] else []
                        | None \<Rightarrow> [])
                  in (None, e, out @ persistAndNotify env p e))))"

definition RemoveMonitor :: "env \<Rightarrow> string \<Rightarrow> string \<Rightarrow> engine \<Rightarrow> outcome" where
  "RemoveMonitor env net nick e =
     (case find_net e net of
        None \<Rightarrow> (Some ''unknown network'', e, [])
      | Some n \<Rightarrow>
          (let rest = filter (\<lambda>s. \<not> EqualIRC s nick) (p_Monitor (n_Params n)) in
           if length rest = length (p_Monitor (n_Params n)) then (None, e, [])
           else (let p = (n_Params n)\<lparr>p_Monitor := rest\<rparr>;
                     n' = n\<lparr>n_Params := p, n_MonitorOnline := (n_MonitorOnline n)(env_lower env nick := None)\<rparr>;
                     e = set_net net n' e;
                     out = (case e_conns e net of
                         Some c \<Rightarrow> if n_State n = StateRegistered then [SendRaw c (''MONITOR - '' @ nick)] else []
                       | None \<Rightarrow> [])
                 in (None, e, out @ persistAndNotify env p e))))"

section \<open>Reading, typing, reacting\<close>

definition NetworkNick :: "string \<Rightarrow> engine \<Rightarrow> string" where
  "NetworkNick ident e = (case find_net e ident of Some n \<Rightarrow> n_Nick n | None \<Rightarrow> [])"

definition MarkRead :: "env \<Rightarrow> string \<Rightarrow> string \<Rightarrow> int \<Rightarrow> engine \<Rightarrow> result" where
  "MarkRead env net buffer ts e =
     (let ts = (if ts = 0 then env_now env else ts);
          e = (case find_net e net of
              None \<Rightarrow> e
            | Some n \<Rightarrow> set_net net (with_channel buffer (\<lambda>c. c\<lparr>ch_Unread := 0, ch_Highlight := 0\<rparr>) n) e)
      in (e, [ReadMarker net buffer ts]))"

definition SendTyping :: "env \<Rightarrow> string \<Rightarrow> string \<Rightarrow> string \<Rightarrow> engine \<Rightarrow> effect list" where
  "SendTyping env net buffer state e =
     (if state \<notin> {''active'', ''paused'', ''done''} then []
      else (case connWithCap env net ''message-tags'' e of
          None \<Rightarrow> []
        | Some c \<Rightarrow> [SendRaw c (''@+typing='' @ state @ '' TAGMSG '' @ buffer)]))"

definition SendReaction :: "env \<Rightarrow> string \<Rightarrow> string \<Rightarrow> string \<Rightarrow> string \<Rightarrow> engine \<Rightarrow> effect list" where
  "SendReaction env net buffer target reaction e =
     (if target = [] \<or> reaction = [] then []
      else (case connWithCap env net ''message-tags'' e of
          None \<Rightarrow> []
        | Some c \<Rightarrow>
            (let line = ''@+draft/react='' @ reaction @ '';+draft/reply='' @ target @ '' TAGMSG '' @ buffer
             in if env_send env c line \<noteq> None then [SendRaw c line]
                else if hasCap env net ''echo-message'' e \<or> NetworkNick net e = [] then [SendRaw c line]
                else [SendRaw c line, Enqueue ((zero_event EvReact net)\<lparr>ev_Time := env_now env,
                        ev_Nick := NetworkNick net e, ev_Buffer := buffer, ev_Target := target, ev_Text := reaction\<rparr>)])))"

definition SendRedact :: "env \<Rightarrow> string \<Rightarrow> string \<Rightarrow> string \<Rightarrow> string \<Rightarrow> engine \<Rightarrow> effect list" where
  "SendRedact env net buffer target reason e =
     (if target = [] then []
      else (case connWithCap env net ''draft/message-redaction'' e of
          None \<Rightarrow> []
        | Some c \<Rightarrow> [SendRaw c (''REDACT '' @ buffer @ '' '' @ target @ (if reason \<noteq> [] then '' :'' @ reason else []))]))"

section \<open>Buffer state of plugins\<close>

definition setPendingState :: "string \<Rightarrow> string \<Rightarrow> (string \<times> string) list \<Rightarrow> engine \<Rightarrow> engine" where
  "setPendingState net buffer state e =
     e\<lparr>e_pendingState := (e_pendingState e)(net := (e_pendingState e net)(FoldIRC buffer := state))\<rparr>"

definition SetBufferState :: "env \<Rightarrow> string \<Rightarrow> string \<Rightarrow> (string \<times> string) list \<Rightarrow> engine \<Rightarrow> result" where
  "SetBufferState env net buffer state e =
     (let e = setPendingState net buffer state e in
      case find_net e net of
        None \<Rightarrow> (e, [])
      | Some n \<Rightarrow>
          (let (n, c) = Channel n buffer; e = set_net net n e in
           case c of
             None \<Rightarrow> (e, [])
           | Some a \<Rightarrow>
               (let e = set_net net (upd_chan (\<lambda>c. c\<lparr>ch_State := state\<rparr>) a n) e
                in (e, notifyNetwork env net e))))"

section \<open>The auto-join gate\<close>

definition startupActive :: "string \<Rightarrow> nat \<Rightarrow> nat \<Rightarrow> engine \<Rightarrow> bool" where
  "startupActive net seq c e \<longleftrightarrow>
     (\<exists>n\<in>set_option (find_net e net). n_State n = StateRegistered) \<and> e_conns e net = Some c \<and> e_startupSeq e net = seq"

definition isConnActive :: "string \<Rightarrow> nat option \<Rightarrow> engine \<Rightarrow> bool" where
  "isConnActive net c e \<longleftrightarrow>
     (\<exists>n\<in>set_option (find_net e net). n_State n = StateRegistered) \<and> e_conns e net = c \<and> c \<noteq> None"

definition set_gate :: "string \<Rightarrow> joinGate \<Rightarrow> engine \<Rightarrow> engine" where
  "set_gate net g e = e\<lparr>e_joinGates := (e_joinGates e)(net \<mapsto> g)\<rparr>"

definition HoldJoins :: "string \<Rightarrow> engine \<Rightarrow> string option \<times> engine" where
  "HoldJoins net e =
     (if find_net e net = None then (Some (''network not found: '' @ net), e)
      else (case e_conns e net of
          None \<Rightarrow> (Some (''network not connected: '' @ net), e)
        | Some c \<Rightarrow>
            (let g = (case e_joinGates e net of Some g \<Rightarrow> g
                      | None \<Rightarrow> \<lparr>jg_held = False, jg_pending = False, jg_conn = None, jg_timer = None\<rparr>);
                 g = (if jg_conn g \<noteq> Some c then g\<lparr>jg_timer := None, jg_pending := False, jg_conn := Some c\<rparr> else g)
             in (None, set_gate net (g\<lparr>jg_held := True, jg_timer := Some c\<rparr>) e))))"

definition hold_timeout :: "networkParams \<Rightarrow> int" where
  "hold_timeout p = (if p_JoinHoldTimeout p \<le> 0 then 45 else p_JoinHoldTimeout p)"

definition ReleaseJoins :: "string \<Rightarrow> engine \<Rightarrow> outcome" where
  "ReleaseJoins net e =
     (if find_net e net = None then (Some (''network not found: '' @ net), e, [])
      else (case e_joinGates e net of
          None \<Rightarrow> (None, e, [])
        | Some g \<Rightarrow>
            (let c = e_conns e net; g = g\<lparr>jg_timer := None, jg_held := False\<rparr>;
                 go = (jg_pending g \<and> jg_conn g = c \<and> isConnActive net c e);
                 g = (if go then g\<lparr>jg_pending := False\<rparr> else g)
             in (None, set_gate net g e, if go then map Autojoin (case c of Some c \<Rightarrow> [c] | None \<Rightarrow> []) else []))))"

text \<open>The timer that \<open>HoldJoins\<close> armed for a connection fires.\<close>

definition autoReleaseJoins :: "string \<Rightarrow> nat \<Rightarrow> engine \<Rightarrow> result" where
  "autoReleaseJoins net c e =
     (case e_joinGates e net of
        None \<Rightarrow> (e, [])
      | Some g \<Rightarrow>
          if \<not> jg_held g \<or> jg_conn g \<noteq> Some c then (e, [])
          else (let go = (jg_pending g \<and> isConnActive net (Some c) e)
                in (set_gate net (g\<lparr>jg_held := False, jg_timer := None, jg_pending := False\<rparr>) e,
                    if go then [Autojoin c] else [])))"

definition triggerAutojoinOrQueue :: "string \<Rightarrow> nat \<Rightarrow> nat \<Rightarrow> engine \<Rightarrow> result" where
  "triggerAutojoinOrQueue net seq c e =
     (if \<not> startupActive net seq c e then (e, [])
      else (case e_joinGates e net of
          Some g \<Rightarrow> if jg_held g \<and> jg_conn g = Some c then (set_gate net (g\<lparr>jg_pending := True\<rparr>) e, [])
                    else (e, [Autojoin c])
        | None \<Rightarrow> (e, [Autojoin c])))"

definition next_seq :: "string \<Rightarrow> engine \<Rightarrow> engine" where
  "next_seq net e = e\<lparr>e_startupSeq := (e_startupSeq e)(net := (e_startupSeq e net + 1) mod 2 ^ 64)\<rparr>"

definition resumeStartup :: "string \<Rightarrow> engine \<Rightarrow> engine" where
  "resumeStartup net e = next_seq net e"

definition perform_variables :: "network \<Rightarrow> (string \<rightharpoonup> string)" where
  "perform_variables n = [''me'' \<mapsto> n_Nick n, ''nick'' \<mapsto> n_Nick n,
     ''network'' \<mapsto> (if n_Name n = [] then n_ID n else n_Name n), ''server'' \<mapsto> p_Addr (n_Params n),
     ''user'' \<mapsto> p_User (n_Params n), ''realname'' \<mapsto> p_Realname (n_Params n)]"

text \<open>
  \<^verbatim>\<open>runPerform\<close> up to its goroutine, which captures the variables; the commands are expanded when they
  run, with the captured values, so the effect carries them expanded.
\<close>

definition runPerform :: "string \<Rightarrow> engine \<Rightarrow> result" where
  "runPerform net e =
     (case find_net e net of
        None \<Rightarrow> (e, [])
      | Some n \<Rightarrow>
          (case e_conns e net of
             None \<Rightarrow> (e, [])
           | Some c \<Rightarrow>
               (let e = next_seq net e; seq = e_startupSeq e net; ls = p_Perform (n_Params n) in
                if ls = [] then triggerAutojoinOrQueue net seq c e
                else (e, [SpawnPerform net seq c
                       (map (\<lambda>l. expandPerformVariables l (perform_variables n)) (filter (\<lambda>l. trim_space l \<noteq> []) ls))
                       (p_Channels (n_Params n) \<noteq> [])]))))"

end
