(* ===== verification/Core_Command.thy ===== *)
theory Core_Command
  imports Core_Admin
begin

text \<open>
  Model of user input and commands: \<^verbatim>\<open>sendInput\<close> (\<^verbatim>\<open>engine.go\<close>), the built-in commands, aliases and the plugin
  API of \<^verbatim>\<open>internal/core/command.go\<close>, the chathistory client of \<^verbatim>\<open>chathistory.go\<close>, and \<^verbatim>\<open>handle\<close>, which runs one
  event of the queue through the plugin host and commits it. Times are nanoseconds.
\<close>

section \<open>Splitting\<close>

text \<open>\<^verbatim>\<open>strings.Fields\<close>; the accumulator holds the current field reversed.\<close>

function fields_from :: "string \<Rightarrow> string \<Rightarrow> string list" where
  "fields_from acc s =
     (if s = [] then (if acc = [] then [] else [rev acc])
      else if 0 < space_width s then (if acc = [] then [] else [rev acc]) @ fields_from [] (drop (space_width s) s)
      else fields_from (hd s # acc) (tl s))"
  by pat_completeness auto
termination by (relation "measure (\<lambda>(acc, s). length s)") auto

declare fields_from.simps [simp del]

definition fields :: "string \<Rightarrow> string list" where
  "fields s = fields_from [] s"

section \<open>Aliases and input\<close>

definition nth_arg :: "string list \<Rightarrow> nat \<Rightarrow> string" where
  "nth_arg args i = (if 1 \<le> i \<and> i \<le> length args then args ! (i - 1) else [])"

fun expandAlias :: "string \<Rightarrow> string list \<Rightarrow> string" where
  "expandAlias [] args = []"
| "expandAlias [c] args = [c]"
| "expandAlias (c # d # rest) args =
     (if c \<noteq> CHR ''$'' then c # expandAlias (d # rest) args
      else if d = CHR ''*'' then join_with args '' '' @ expandAlias rest args
      else if CHR ''1'' \<le> d \<and> d \<le> CHR ''9'' then
        (let n = of_char d - 48 in
         case rest of
           e # rest' \<Rightarrow>
             if e = CHR ''-'' then (if n \<le> length args then join_with (drop (n - 1) args) '' '' else []) @ expandAlias rest' args
             else nth_arg args n @ expandAlias rest args
         | [] \<Rightarrow> nth_arg args n)
      else CHR ''$'' # expandAlias (d # rest) args)"

definition input_command :: "env \<Rightarrow> string \<Rightarrow> string \<Rightarrow> string \<Rightarrow> string \<Rightarrow> event" where
  "input_command env net buffer name argstr = (zero_event EvCommand net)\<lparr>ev_Buffer := buffer, ev_Time := env_now env,
     ev_Command := name, ev_Args := Some (fields argstr), ev_Text := argstr\<rparr>"

definition input_message :: "env \<Rightarrow> string \<Rightarrow> string \<Rightarrow> string \<Rightarrow> event" where
  "input_message env net buffer text = (zero_event EvMessageOut net)\<lparr>ev_Time := env_now env,
     ev_Message := Some (blank_message\<lparr>msg_Network := net, msg_Buffer := buffer, msg_Time := env_now env,
       msg_Kind := MsgPrivmsg, msg_Text := text, msg_Self := True\<rparr>)\<rparr>"

definition send_plain :: "env \<Rightarrow> string \<Rightarrow> string \<Rightarrow> string \<Rightarrow> engine \<Rightarrow> string option \<times> effect list" where
  "send_plain env net buffer text e =
     (case find_net e net of
        None \<Rightarrow> (Some (''unknown network '' @ env_quote env net), [])
      | Some n \<Rightarrow>
          if n_State n = StateRegistered \<and> e_conns e net \<noteq> None
          then (None, [Enqueue (input_message env net buffer (trim_prefix text ''/''))])
          else (Some (''network '' @ env_quote env net @ '' is not connected '' @ em_dash @ '' message not sent''), []))"

text \<open>Alias expansion is bounded by \<open>depth\<close>, so that an alias that expands to itself still ends.\<close>

function sendInput :: "env \<Rightarrow> string \<Rightarrow> string \<Rightarrow> string \<Rightarrow> nat \<Rightarrow> engine \<Rightarrow> string option \<times> effect list" where
  "sendInput env net buffer text depth e =
     (let (name, argstr, _) = str_cut (trim_prefix text ''/'') CHR '' '' in
      if has_prefix text ''/'' \<and> \<not> has_prefix text ''//'' \<and> name \<noteq> [] then
        (case e_aliases e (env_lower env name) of
           Some tmpl \<Rightarrow>
             if depth < 8 then sendInput env net buffer (expandAlias tmpl (fields argstr)) (depth + 1) e
             else (None, [Enqueue (input_command env net buffer name argstr)])
         | None \<Rightarrow> (None, [Enqueue (input_command env net buffer name argstr)]))
      else send_plain env net buffer text e)"
  by pat_completeness auto
termination by (relation "measure (\<lambda>(env, net, buffer, text, depth, e). 8 - depth)") auto

declare sendInput.simps [simp del]

definition SendInput :: "env \<Rightarrow> string \<Rightarrow> string \<Rightarrow> string \<Rightarrow> engine \<Rightarrow> string option \<times> effect list" where
  "SendInput env net buffer text e = sendInput env net buffer text 0 e"

text \<open>One turn of the goroutine \<^verbatim>\<open>runPerform\<close> starts: the commands left, None once it has ended.\<close>

definition perform_turn ::
    "env \<Rightarrow> string \<Rightarrow> nat \<Rightarrow> nat \<Rightarrow> string list \<Rightarrow> engine \<Rightarrow> string list option \<times> engine \<times> effect list" where
  "perform_turn env net seq c cmds e =
     (case cmds of
        [] \<Rightarrow> (None, triggerAutojoinOrQueue net seq c e)
      | l # ls \<Rightarrow>
          if \<not> startupActive net seq c e then (None, e, [])
          else (Some ls, e, snd (SendInput env net StatusBuffer l e)))"

section \<open>The plugin API\<close>

definition say :: "env \<Rightarrow> event \<Rightarrow> string \<Rightarrow> engine \<Rightarrow> result" where
  "say env ev text e = inject env (blank_message\<lparr>msg_Network := ev_Network ev, msg_Buffer := ev_Buffer ev,
     msg_Time := env_now env, msg_Kind := MsgSystem, msg_Text := text\<rparr>) e"

definition api_send :: "env \<Rightarrow> string \<Rightarrow> string \<Rightarrow> engine \<Rightarrow> string option \<times> effect list" where
  "api_send env net raw e =
     (case e_conns e net of
        None \<Rightarrow> (Some (''unknown network '' @ env_quote env net), [])
      | Some c \<Rightarrow> (env_send env c raw, [SendRaw c raw]))"

text \<open>\<open>send\<close> gives the error of the send (None when it was sent) and its effect.\<close>

definition sendSelf ::
    "env \<Rightarrow> string \<Rightarrow> string \<Rightarrow> string \<Rightarrow> msgKind \<Rightarrow> (nat \<Rightarrow> string option \<times> effect) \<Rightarrow> engine \<Rightarrow> outcome" where
  "sendSelf env net target text kind send e =
     (case e_conns e net of
        None \<Rightarrow> (Some (''unknown network '' @ env_quote env net), e, [])
      | Some c \<Rightarrow>
          (let (err, eff) = send c in
           if err \<noteq> None then (err, e, [eff])
           else if hasCap env net ''echo-message'' e then (None, e, [eff])
           else (let (e, out) = inject env (blank_message\<lparr>msg_Network := net, msg_Buffer := target,
                       msg_Time := env_now env, msg_From := NetworkNick net e, msg_Kind := kind,
                       msg_Text := text, msg_Self := True\<rparr>) e
                 in (None, e, eff # out))))"

definition api_message :: "env \<Rightarrow> string \<Rightarrow> string \<Rightarrow> string \<Rightarrow> engine \<Rightarrow> outcome" where
  "api_message env net target text e = sendSelf env net target text MsgPrivmsg
     (\<lambda>c. (env_message env c target text, ConnMessage c target text)) e"

definition raw_line :: "env \<Rightarrow> string \<Rightarrow> nat \<Rightarrow> string option \<times> effect" where
  "raw_line env line c = (env_send env c line, SendRaw c line)"

definition api_notice :: "env \<Rightarrow> string \<Rightarrow> string \<Rightarrow> string \<Rightarrow> engine \<Rightarrow> outcome" where
  "api_notice env net target text e = sendSelf env net target text MsgNotice
     (raw_line env (''NOTICE '' @ target @ '' :'' @ text)) e"

definition api_action :: "env \<Rightarrow> string \<Rightarrow> string \<Rightarrow> string \<Rightarrow> engine \<Rightarrow> outcome" where
  "api_action env net target text e = sendSelf env net target text MsgAction
     (raw_line env (''PRIVMSG '' @ target @ '' :'' @ [CHR 0x01] @ ''ACTION '' @ text @ [CHR 0x01])) e"

definition api_join :: "env \<Rightarrow> string \<Rightarrow> string \<Rightarrow> engine \<Rightarrow> string option \<times> effect list" where
  "api_join env net channel e = api_send env net (''JOIN '' @ channel) e"

definition api_part :: "env \<Rightarrow> string \<Rightarrow> string \<Rightarrow> engine \<Rightarrow> string option \<times> effect list" where
  "api_part env net channel e = api_send env net (''PART '' @ channel) e"

definition api_print :: "env \<Rightarrow> string \<Rightarrow> string \<Rightarrow> string \<Rightarrow> engine \<Rightarrow> result" where
  "api_print env net buffer text e = inject env (blank_message\<lparr>msg_Network := net, msg_Buffer := buffer,
     msg_Time := env_now env, msg_From := (if IsPluginBuffer buffer then buffer else []),
     msg_Kind := MsgSystem, msg_Text := text\<rparr>) e"

section \<open>Chathistory\<close>

definition hasChatHistory :: "env \<Rightarrow> nat \<Rightarrow> bool" where
  "hasChatHistory env c \<longleftrightarrow> ''draft/chathistory'' \<in> set (env_caps env c) \<or> ''chathistory'' \<in> set (env_caps env c)"

definition catchUpLimit :: int where "catchUpLimit = 100"
definition catchUpMaxPages :: int where "catchUpMaxPages = 10"
definition targetsLimit :: nat where "targetsLimit = 100"
definition maxChatHistory :: int where "maxChatHistory = 1000"
definition minute :: int where "minute = 60000000000"

definition catchUpKey :: "string \<Rightarrow> string \<Rightarrow> string" where
  "catchUpKey net buffer = net @ CHR 0x00 # FoldIRC buffer"

definition after_line :: "env \<Rightarrow> string \<Rightarrow> int \<Rightarrow> string" where
  "after_line env buffer t = ''CHATHISTORY AFTER '' @ buffer @ '' timestamp='' @ env_format_time env t @ '' ''
     @ format_uint (nat catchUpLimit)"

text \<open>\<^verbatim>\<open>time.Parse\<close> over the five layouts in turn is \<open>env_parse_time\<close>.\<close>

definition chatHistoryRef :: "env \<Rightarrow> string \<Rightarrow> string + string" where
  "chatHistoryRef env s =
     (if s = ''*'' then Inr s
      else if has_prefix s ''msgid='' \<and> 6 < length s then Inr s
      else (case env_parse_time env (trim_prefix s ''timestamp='') of
          Some t \<Rightarrow> Inr (''timestamp='' @ env_format_time env t)
        | None \<Rightarrow> Inl (''bad reference '' @ env_quote env s
            @ '': use msgid=ID, timestamp=TIME, a date like 2024-05-01, or *'')))"

definition chatHistoryUsage :: string where
  "chatHistoryUsage = ''usage: /chathistory [latest] [n] | before|after|around <ref> [n] | between <ref> <ref> [n] | targets [<ref> <ref>] [n]  (ref: msgid=ID, timestamp=TIME, a date, or *)''"

fun ref_list :: "env \<Rightarrow> string list \<Rightarrow> string + string list" where
  "ref_list env [] = Inr []"
| "ref_list env (a # as) =
     (case chatHistoryRef env a of
        Inl err \<Rightarrow> Inl err
      | Inr r \<Rightarrow> (case ref_list env as of Inl err \<Rightarrow> Inl err | Inr rs \<Rightarrow> Inr (r # rs)))"

definition need_refs :: "env \<Rightarrow> nat \<Rightarrow> string list \<Rightarrow> string + string list" where
  "need_refs env want args = (if length args \<noteq> want then Inl chatHistoryUsage else ref_list env args)"

definition need_buffer :: "string \<Rightarrow> bool" where
  "need_buffer buffer \<longleftrightarrow> \<not> (buffer = [] \<or> buffer = StatusBuffer \<or> IsPluginBuffer buffer)"

definition history_subcommand :: "env \<Rightarrow> string list \<Rightarrow> string \<times> string list" where
  "history_subcommand env args =
     (case args of
        [] \<Rightarrow> (''latest'', [])
      | a # as \<Rightarrow> if atoi a = None then (env_lower env a, as) else (''latest'', args))"

text \<open>A trailing number is the limit; None when it is below 1.\<close>

definition history_limit :: "string list \<Rightarrow> (int \<times> string list) option" where
  "history_limit args =
     (if args = [] then Some (50, args)
      else (case atoi (last args) of
          None \<Rightarrow> Some (50, args)
        | Some v \<Rightarrow> if v < 1 then None else Some (min v maxChatHistory, butlast args)))"

definition chatHistoryLine :: "env \<Rightarrow> string \<Rightarrow> string list \<Rightarrow> string + string" where
  "chatHistoryLine env buffer args =
     (let (sub, args) = history_subcommand env args in
      case history_limit args of
        None \<Rightarrow> Inl ''limit must be at least 1''
      | Some (limit, args) \<Rightarrow>
          (let lim = '' '' @ format_uint (nat limit);
               nobuf = ''/chathistory '' @ sub @ '' works in a channel or query'';
               ref1 = (\<lambda>verb. case need_refs env 1 args of Inl err \<Rightarrow> Inl err
                        | Inr rs \<Rightarrow> Inr (''CHATHISTORY '' @ verb @ '' '' @ buffer @ '' '' @ hd rs @ lim))
           in if sub = ''latest'' then
                (if \<not> need_buffer buffer then Inl nobuf
                 else if args = [] then Inr (''CHATHISTORY LATEST '' @ buffer @ '' *'' @ lim)
                 else ref1 ''LATEST'')
              else if sub = ''before'' then (if \<not> need_buffer buffer then Inl nobuf else ref1 ''BEFORE'')
              else if sub = ''after'' then (if \<not> need_buffer buffer then Inl nobuf else ref1 ''AFTER'')
              else if sub = ''around'' then (if \<not> need_buffer buffer then Inl nobuf else ref1 ''AROUND'')
              else if sub = ''between'' then
                (if \<not> need_buffer buffer then Inl nobuf
                 else (case need_refs env 2 args of Inl err \<Rightarrow> Inl err
                     | Inr rs \<Rightarrow> Inr (''CHATHISTORY BETWEEN '' @ buffer @ '' '' @ hd rs @ '' '' @ rs ! 1 @ lim)))
              else if sub = ''targets'' then
                (if args = [] then
                   Inr (''CHATHISTORY TARGETS timestamp='' @ env_format_time env (env_now env - 7 * 24 * 60 * minute)
                        @ '' timestamp='' @ env_format_time env (env_now env + minute) @ lim)
                 else (case need_refs env 2 args of Inl err \<Rightarrow> Inl err
                     | Inr rs \<Rightarrow> Inr (''CHATHISTORY TARGETS '' @ hd rs @ '' '' @ rs ! 1 @ lim)))
              else Inl chatHistoryUsage))"

definition runChatHistory :: "env \<Rightarrow> event \<Rightarrow> nat \<Rightarrow> engine \<Rightarrow> result" where
  "runChatHistory env ev c e =
     (if \<not> hasChatHistory env c then say env ev ''this server does not support chathistory'' e
      else (case chatHistoryLine env (ev_Buffer ev) (event_args ev) of
          Inl err \<Rightarrow> say env ev err e
        | Inr line \<Rightarrow> (e, [SendRaw c line])))"

definition startCatchUp :: "env \<Rightarrow> string \<Rightarrow> engine \<Rightarrow> effect list" where
  "startCatchUp env net e =
     (if env_last_chat env = None then []
      else (case e_conns e net of
          None \<Rightarrow> []
        | Some c \<Rightarrow>
            if \<not> hasChatHistory env c then []
            else [SpawnTargets net c (case find_net e net of
                    None \<Rightarrow> []
                  | Some n \<Rightarrow> map ch_Name (filter (\<lambda>ch. ch_Kind ch \<in> {KindChannel, KindQuery}) (buffers n)))]))"

definition last_chat :: "env \<Rightarrow> string \<Rightarrow> string \<Rightarrow> int option" where
  "last_chat env net buffer = (case env_last_chat env of None \<Rightarrow> None | Some f \<Rightarrow> f net buffer)"

text \<open>The goroutine of \<open>startCatchUp\<close>: the newest stored line over the buffers is the baseline.\<close>

definition targets_baseline :: "env \<Rightarrow> string \<Rightarrow> string list \<Rightarrow> int" where
  "targets_baseline env net bufs =
     fold (\<lambda>b since. case last_chat env net b of Some t \<Rightarrow> if since < t then t else since | None \<Rightarrow> since) bufs 0"

definition targets_turn :: "env \<Rightarrow> string \<Rightarrow> nat \<Rightarrow> string list \<Rightarrow> engine \<Rightarrow> result" where
  "targets_turn env net c bufs e =
     (let since = targets_baseline env net bufs in
      if since = 0 \<or> e_conns e net \<noteq> Some c then (e, [])
      else (e\<lparr>e_targetsSince := (e_targetsSince e)(net := since)\<rparr>,
            [SendRaw c (''CHATHISTORY TARGETS timestamp='' @ env_format_time env since @ '' timestamp=''
               @ env_format_time env (env_now env + minute) @ '' '' @ format_uint targetsLimit)]))"

definition catchUpBuffer :: "env \<Rightarrow> string \<Rightarrow> string \<Rightarrow> int \<Rightarrow> int \<Rightarrow> engine \<Rightarrow> effect list" where
  "catchUpBuffer env net buffer newest fallback e =
     (if env_last_chat env = None then []
      else (case e_conns e net of
          None \<Rightarrow> []
        | Some c \<Rightarrow> if hasChatHistory env c then [SpawnCatchUp net buffer newest fallback c] else []))"

text \<open>The goroutine of \<open>catchUpBuffer\<close>.\<close>

definition catchup_turn :: "env \<Rightarrow> string \<Rightarrow> string \<Rightarrow> int \<Rightarrow> int \<Rightarrow> nat \<Rightarrow> engine \<Rightarrow> result" where
  "catchup_turn env net buffer newest fallback c e =
     (case last_chat env net buffer of
        None \<Rightarrow> (e, [])
      | Some t \<Rightarrow>
          (let since = (if t = 0 then fallback else t) in
           if since = 0 \<or> newest \<noteq> 0 \<and> \<not> since < newest \<or> e_conns e net \<noteq> Some c then (e, [])
           else (e\<lparr>e_catchUps := (e_catchUps e)(catchUpKey net buffer \<mapsto> \<lparr>cu_pages = 1, cu_since = since\<rparr>)\<rparr>,
                 [SendRaw c (after_line env buffer since)])))"

definition onHistoryTarget :: "env \<Rightarrow> event \<Rightarrow> engine \<Rightarrow> result" where
  "onHistoryTarget env ev e =
     (if ev_Buffer ev = [] \<or> \<not> IsQueryBuffer (ev_Buffer ev) \<or> IsPluginBuffer (ev_Buffer ev) then (e, [])
      else (case find_net e (ev_Network ev) of
          None \<Rightarrow> (e, [])
        | Some n \<Rightarrow>
            if EqualIRC (n_Nick n) (ev_Buffer ev) then (e, [])
            else (let fallback = e_targetsSince e (ev_Network ev); (e, out) = commit env ev e
                  in (e, out @ catchUpBuffer env (ev_Network ev) (ev_Buffer ev) (ev_Time ev) fallback e))))"

definition onHistoryBatch :: "env \<Rightarrow> event \<Rightarrow> engine \<Rightarrow> result" where
  "onHistoryBatch env ev e =
     (let key = catchUpKey (ev_Network ev) (ev_Buffer ev) in
      case e_catchUps e key of
        None \<Rightarrow> (e, [])
      | Some ch \<Rightarrow>
          (case e_conns e (ev_Network ev) of
             None \<Rightarrow> (e\<lparr>e_catchUps := (e_catchUps e)(key := None)\<rparr>, [])
           | Some c \<Rightarrow>
               if ev_Count ev < catchUpLimit \<or> catchUpMaxPages \<le> cu_pages ch \<or> \<not> cu_since ch < ev_Time ev
               then (e\<lparr>e_catchUps := (e_catchUps e)(key := None)\<rparr>, [])
               else (e\<lparr>e_catchUps := (e_catchUps e)(key \<mapsto> \<lparr>cu_pages = cu_pages ch + 1, cu_since = ev_Time ev\<rparr>)\<rparr>,
                     [SendRaw c (after_line env (ev_Buffer ev) (ev_Time ev))])))"

end
