(* ===== verification/Core_Handle.thy ===== *)
theory Core_Handle
  imports Core_Command
begin

text \<open>
  The built-in commands of \<^verbatim>\<open>internal/core/command.go\<close> and \<^verbatim>\<open>handle\<close> of \<^verbatim>\<open>engine.go\<close>, the step of the engine's
  loop: what one queued event does, through the plugin host, to the state and to the outside.
\<close>

section \<open>Plugin commands\<close>

text \<open>\<^verbatim>\<open>filepath.Base\<close>.\<close>

definition base_name :: "string \<Rightarrow> string" where
  "base_name s =
     (if s = [] then ''.''
      else (let t = rev (dropWhile (\<lambda>c. c = CHR ''/'') (rev s))
            in if t = [] then ''/'' else rev (takeWhile (\<lambda>c. c \<noteq> CHR ''/'') (rev t))))"

definition trim_suffix :: "string \<Rightarrow> string \<Rightarrow> string" where
  "trim_suffix s suf = (if length suf \<le> length s \<and> drop (length s - length suf) s = suf
     then take (length s - length suf) s else s)"

definition script_name :: "string \<Rightarrow> string" where
  "script_name s = trim_suffix (base_name s) ''.lua''"

definition is_url :: "string \<Rightarrow> bool" where
  "is_url s \<longleftrightarrow> has_prefix s ''http://'' \<or> has_prefix s ''https://''"

definition cmd_load :: "env \<Rightarrow> event \<Rightarrow> engine \<Rightarrow> result" where
  "cmd_load env ev e =
     (case event_args ev of
        [] \<Rightarrow> say env ev ''usage: /load <script-name|URL> [custom-name]'' e
      | target # rest \<Rightarrow>
          (let custom = (case rest of [] \<Rightarrow> [] | x # _ \<Rightarrow> x);
               (e, out) = say env ev (if is_url target then ''importing plugin from '' @ target @ ''...''
                                      else ''downloading plugin '' @ env_quote env target @ ''...'') e
           in (e, out @ [SpawnLoad (ev_Network ev) (ev_Buffer ev) target custom (is_url target)])))"

text \<open>The goroutine of \<^verbatim>\<open>/load\<close> with the host's answer.\<close>

definition load_done :: "env \<Rightarrow> event \<Rightarrow> string \<Rightarrow> string \<Rightarrow> string option \<Rightarrow> engine \<Rightarrow> result" where
  "load_done env ev target custom err e =
     (case err of
        Some m \<Rightarrow> say env ev (''failed to load plugin '' @ env_quote env target @ '': '' @ m) e
      | None \<Rightarrow> say env ev (''successfully loaded plugin ''
                  @ env_quote env (if custom = [] then script_name target else custom)) e)"

definition cmd_update :: "env \<Rightarrow> event \<Rightarrow> engine \<Rightarrow> result" where
  "cmd_update env ev e =
     (case event_args ev of
        [] \<Rightarrow> say env ev ''usage: /update <script-name>'' e
      | a # _ \<Rightarrow>
          (let (e, out) = say env ev (''updating plugin '' @ env_quote env (script_name a) @ ''...'') e
           in (e, out @ [SpawnUpdate (ev_Network ev) (ev_Buffer ev) (script_name a)])))"

definition update_done :: "env \<Rightarrow> event \<Rightarrow> string \<Rightarrow> string option \<Rightarrow> engine \<Rightarrow> result" where
  "update_done env ev name err e =
     (case err of
        Some m \<Rightarrow> say env ev (''failed to update plugin '' @ env_quote env name @ '': '' @ m) e
      | None \<Rightarrow> say env ev (''successfully updated and reloaded plugin '' @ env_quote env name) e)"

definition cmd_unload :: "env \<Rightarrow> event \<Rightarrow> engine \<Rightarrow> result" where
  "cmd_unload env ev e =
     (case event_args ev of
        [] \<Rightarrow> say env ev ''usage: /unload <script-name>'' e
      | a # _ \<Rightarrow>
          (case env_unload env (script_name a) of
             Some m \<Rightarrow> say env ev (''failed to unload plugin '' @ env_quote env (script_name a) @ '': '' @ m) e
           | None \<Rightarrow> say env ev (''unloaded plugin '' @ env_quote env (script_name a)) e))"

definition cmd_reload :: "env \<Rightarrow> event \<Rightarrow> engine \<Rightarrow> result" where
  "cmd_reload env ev e =
     (case event_args ev of
        [] \<Rightarrow> say env ev ''usage: /reload <script-name>'' e
      | a # _ \<Rightarrow>
          (case env_reload env (script_name a) of
             Some m \<Rightarrow> say env ev (''failed to reload plugin '' @ env_quote env (script_name a) @ '': '' @ m) e
           | None \<Rightarrow> say env ev (''reloaded plugin '' @ env_quote env (script_name a)) e))"

definition cmd_connect :: "env \<Rightarrow> event \<Rightarrow> string \<Rightarrow> engine \<Rightarrow> result" where
  "cmd_connect env ev name e =
     (let (err, e, out) = SetConnected env (ev_Network ev) (name = ''connect'') e in
      case err of
        None \<Rightarrow> (e, out)
      | Some m \<Rightarrow> (let (e, out2) = say env ev (name @ '' failed: '' @ m) e in (e, out @ out2)))"

section \<open>IRC commands\<close>

definition track_lookup :: "event \<Rightarrow> string \<Rightarrow> engine \<Rightarrow> engine" where
  "track_lookup ev target e = e\<lparr>e_pendingWhois := (e_pendingWhois e)(whoisKey (ev_Network ev) target \<mapsto> ev_Buffer ev)\<rparr>"

definition startNumeric :: "event \<Rightarrow> string \<Rightarrow> engine \<Rightarrow> result" where
  "startNumeric ev raw e =
     (case e_conns e (ev_Network ev) of
        None \<Rightarrow> (e, [])
      | Some c \<Rightarrow>
          (case event_args ev of
             [] \<Rightarrow> (e, [])
           | target # _ \<Rightarrow> (track_lookup ev target e, [SendRaw c (raw @ '' '' @ target)])))"

definition mode_flag :: "string \<Rightarrow> string" where
  "mode_flag name = (if name \<in> {''op'', ''deop''} then ''o'' else if name \<in> {''voice'', ''devoice''} then ''v'' else ''h'')"

definition applyModeShorthand :: "nat \<Rightarrow> event \<Rightarrow> string \<Rightarrow> effect list" where
  "applyModeShorthand c ev name =
     (if ev_Buffer ev = [] \<or> event_args ev = [] then []
      else (let sign = (if name \<in> {''deop'', ''devoice'', ''dehalfop''} then ''-'' else ''+'');
                modes = sign @ concat (replicate (length (event_args ev)) (mode_flag name))
            in [SendRaw c (''MODE '' @ ev_Buffer ev @ '' '' @ modes @ '' '' @ join_with (event_args ev) '' '')]))"

definition kickCmd :: "nat \<Rightarrow> event \<Rightarrow> effect list" where
  "kickCmd c ev =
     (case event_args ev of
        [] \<Rightarrow> []
      | first # rest \<Rightarrow>
          (let (ch, args) = (if isChannelName first then (first, rest) else (ev_Buffer ev, first # rest)) in
           case args of
             [] \<Rightarrow> []
           | nick # why \<Rightarrow>
               if ch = [] then []
               else (let reason = join_with why '' ''
                     in [SendRaw c (''KICK '' @ ch @ '' '' @ nick @ (if reason \<noteq> [] then '' :'' @ reason else []))])))"

definition arg_or :: "event \<Rightarrow> string" where
  "arg_or ev = (case event_args ev of [] \<Rightarrow> ev_Buffer ev | a # _ \<Rightarrow> a)"

definition cmd_target_text :: "event \<Rightarrow> (string \<Rightarrow> string \<Rightarrow> engine \<Rightarrow> result) \<Rightarrow> engine \<Rightarrow> result" where
  "cmd_target_text ev send e =
     (let (target, text, _) = str_cut (ev_Text ev) CHR '' ''
      in if target \<noteq> [] \<and> text \<noteq> [] then send target text e else (e, []))"

definition cmd_names :: "nat \<Rightarrow> event \<Rightarrow> engine \<Rightarrow> result" where
  "cmd_names c ev e =
     (if arg_or ev \<noteq> [] then (track_lookup ev (arg_or ev) e, [SendRaw c (''NAMES '' @ arg_or ev)]) else (e, []))"

definition cmd_mode :: "nat \<Rightarrow> event \<Rightarrow> effect list" where
  "cmd_mode c ev =
     (let (target, rest) = (case event_args ev of
            [] \<Rightarrow> (ev_Buffer ev, ev_Text ev)
          | a # _ \<Rightarrow> (a, fst (snd (str_cut (ev_Text ev) CHR '' ''))))
      in [SendRaw c (''MODE '' @ target @ (if rest = [] then [] else '' '' @ rest))])"

definition cmd_ban :: "nat \<Rightarrow> event \<Rightarrow> string \<Rightarrow> effect list" where
  "cmd_ban c ev flag =
     (if ev_Buffer ev \<noteq> [] \<and> event_args ev \<noteq> []
      then [SendRaw c (''MODE '' @ ev_Buffer ev @ '' '' @ flag @ '' '' @ join_with (event_args ev) '' '')] else [])"

definition cmd_invite :: "nat \<Rightarrow> event \<Rightarrow> effect list" where
  "cmd_invite c ev =
     (case event_args ev of
        [] \<Rightarrow> []
      | nick # rest \<Rightarrow>
          (let ch = (case rest of [] \<Rightarrow> ev_Buffer ev | x # _ \<Rightarrow> x)
           in if ch \<noteq> [] then [SendRaw c (''INVITE '' @ nick @ '' '' @ ch)] else []))"

definition cmd_query :: "env \<Rightarrow> event \<Rightarrow> engine \<Rightarrow> result" where
  "cmd_query env ev e =
     (case event_args ev of
        [] \<Rightarrow> (e, [])
      | target # others \<Rightarrow>
          (let (e, out) = inject env (blank_message\<lparr>msg_Network := ev_Network ev, msg_Buffer := target,
                 msg_Time := env_now env, msg_Kind := MsgSystem, msg_Text := ''opened query with '' @ target\<rparr>) e;
               rest = fst (snd (str_cut (ev_Text ev) CHR '' ''))
           in if others \<noteq> [] \<and> rest \<noteq> [] then (e, out @ snd (sendInput env (ev_Network ev) target rest 0 e))
              else (e, out)))"

definition irc_command :: "env \<Rightarrow> event \<Rightarrow> string \<Rightarrow> nat \<Rightarrow> engine \<Rightarrow> result" where
  "irc_command env ev name c e =
     (let net = ev_Network ev; buf = ev_Buffer ev; text = ev_Text ev; raw = (\<lambda>l. (e, [SendRaw c l])) in
      if name = ''me'' then snd (api_action env net buf text e)
      else if name = ''msg'' then cmd_target_text ev (\<lambda>target text e. snd (api_message env net target text e)) e
      else if name = ''notice'' then cmd_target_text ev (\<lambda>target text e. snd (api_notice env net target text e)) e
      else if name = ''join'' then
        (if text \<noteq> [] then (recordPendingKeys net text e, [SendRaw c (''JOIN '' @ text)]) else (e, []))
      else if name = ''part'' then raw (''PART '' @ arg_or ev)
      else if name = ''topic'' then raw (''TOPIC '' @ buf @ (if text = [] then [] else '' :'' @ text))
      else if name = ''nick'' then (case event_args ev of [] \<Rightarrow> (e, []) | a # _ \<Rightarrow> raw (''NICK '' @ a))
      else if name = ''quit'' then raw (''QUIT :'' @ text)
      else if name = ''chathistory'' then runChatHistory env ev c e
      else if name = ''raw'' \<or> name = ''quote'' then raw text
      else if name = ''whois'' then startNumeric ev ''WHOIS'' e
      else if name = ''whowas'' then startNumeric ev ''WHOWAS'' e
      else if name = ''who'' then startNumeric ev ''WHO'' e
      else if name = ''names'' then cmd_names c ev e
      else if name = ''mode'' then (e, cmd_mode c ev)
      else if name \<in> {''op'', ''deop'', ''voice'', ''devoice'', ''halfop'', ''dehalfop''}
        then (e, applyModeShorthand c ev name)
      else if name = ''ban'' then (e, cmd_ban c ev ''+b'')
      else if name = ''unban'' then (e, cmd_ban c ev ''-b'')
      else if name = ''kick'' then (e, kickCmd c ev)
      else if name = ''invite'' then (e, cmd_invite c ev)
      else if name = ''away'' then raw (if text = [] then ''AWAY'' else ''AWAY :'' @ text)
      else if name = ''back'' then raw ''AWAY''
      else if name = ''query'' then cmd_query env ev e
      else raw (env_upper env (ev_Command ev) @ '' '' @ text))"

definition runBuiltinCommand :: "env \<Rightarrow> event \<Rightarrow> engine \<Rightarrow> result" where
  "runBuiltinCommand env ev e =
     (let name = env_lower env (ev_Command ev) in
      if name = ''load'' then cmd_load env ev e
      else if name = ''update'' then cmd_update env ev e
      else if name = ''unload'' then cmd_unload env ev e
      else if name = ''reload'' then cmd_reload env ev e
      else if name = ''disconnect'' \<or> name = ''connect'' \<and> event_args ev = [] then cmd_connect env ev name e
      else (case e_conns e (ev_Network ev) of None \<Rightarrow> (e, []) | Some c \<Rightarrow> irc_command env ev name c e))"

section \<open>Bouncer list\<close>

definition listBouncerNetworks :: "env \<Rightarrow> string \<Rightarrow> engine \<Rightarrow> effect list" where
  "listBouncerNetworks env net e =
     (case connWithCap env net ''soju.im/bouncer-networks'' e of
        None \<Rightarrow> [] | Some c \<Rightarrow> [SendRaw c ''BOUNCER LISTNETWORKS''])"

section \<open>One event of the queue\<close>

text \<open>The follow-up of a committed notification.\<close>

definition after_commit :: "env \<Rightarrow> event \<Rightarrow> engine \<Rightarrow> result" where
  "after_commit env ev e =
     (let net = ev_Network ev in
      case ev_Type ev of
        EvConnect \<Rightarrow>
          if ev_Resumed ev then (resumeStartup net e, [])
          else (let (e, out) = runPerform net e
                in (e, out @ startCatchUp env net e @ listBouncerNetworks env net e))
      | EvDisconnect \<Rightarrow> (drop_catchUps net e, [])
      | EvJoin \<Rightarrow>
          (e, (case find_net e net of
                 Some n \<Rightarrow> if EqualIRC (n_Nick n) (ev_Nick ev) \<and> isChannelName (ev_Buffer ev)
                           then catchUpBuffer env net (ev_Buffer ev) 0 0 e else []
               | None \<Rightarrow> []))
      | _ \<Rightarrow> (e, []))"

definition handle :: "env \<Rightarrow> event \<Rightarrow> engine \<Rightarrow> result" where
  "handle env ev e =
     (if ev_Type ev = EvDisconnect \<and> e_stopping e then (e, [])
      else (case ev_Type ev of
          EvSync \<Rightarrow> (e, [])
        | EvSetState \<Rightarrow> commit env ev e
        | EvMessageIn \<Rightarrow> (let (ev', keep) = env_dispatch env ev in if keep then commit env ev' e else (e, []))
        | EvMessageOut \<Rightarrow> (let (ev', keep) = env_dispatch env ev in if keep then commit env ev' e else (e, []))
        | EvTopic \<Rightarrow> (let (ev', keep) = env_dispatch env ev in if keep then commit env ev' e else (e, []))
        | EvCommand \<Rightarrow> if snd (env_dispatch env ev) then runBuiltinCommand env ev e else (e, [])
        | EvHistoryTarget \<Rightarrow> onHistoryTarget env ev e
        | EvHistoryBatch \<Rightarrow> onHistoryBatch env ev e
        | _ \<Rightarrow> (let (e, out) = commit env ev e; (e, out2) = after_commit env ev e in (e, out @ out2))))"

end
