(* ===== verification/Core_Invariant.thy ===== *)
theory Core_Invariant
  imports Core_Handle
begin

text \<open>
  The invariant of the core engine: network ids are unique and every network's buffers, index and
  members are coherent. Every operation keeps it, and every operation that works on one network
  leaves the others as they are.
\<close>

section \<open>The list of networks\<close>

lemma put_net_ids: "n_ID n = ident \<Longrightarrow> map n_ID (put_net ident n ns) = map n_ID ns"
  by (induction ns) auto

lemma put_net_set: "set (put_net ident n ns) \<subseteq> insert n (set ns)"
  by (induction ns) auto

lemma find_put_same: "find (\<lambda>n. n_ID n = ident) ns \<noteq> None \<Longrightarrow> n_ID n = ident \<Longrightarrow>
    find (\<lambda>n. n_ID n = ident) (put_net ident n ns) = Some n"
  by (induction ns) auto

lemma find_put_other: "other \<noteq> ident \<Longrightarrow> n_ID n = ident \<Longrightarrow>
    find (\<lambda>n. n_ID n = other) (put_net ident n ns) = find (\<lambda>n. n_ID n = other) ns"
  by (induction ns) auto

lemma put_net_missing: "find (\<lambda>n. n_ID n = ident) ns = None \<Longrightarrow> put_net ident n ns = ns"
  by (induction ns) (auto split: if_splits)

lemma find_net_ID: "find_net e ident = Some n \<Longrightarrow> n_ID n = ident \<and> n \<in> set (e_nets e)"
  unfolding find_net_def by (drule find_SomeD) simp

lemma find_set_same: "find_net e ident \<noteq> None \<Longrightarrow> n_ID n = ident \<Longrightarrow> find_net (set_net ident n e) ident = Some n"
  by (simp add: find_net_def set_net_def find_put_same)

lemma find_set_other: "other \<noteq> ident \<Longrightarrow> n_ID n = ident \<Longrightarrow> find_net (set_net ident n e) other = find_net e other"
  by (simp add: find_net_def set_net_def find_put_other)

lemma set_net_fields [simp]:
  "e_conns (set_net i n e) = e_conns e" "e_pendingKeys (set_net i n e) = e_pendingKeys e"
  "e_joinGates (set_net i n e) = e_joinGates e" "e_startupSeq (set_net i n e) = e_startupSeq e"
  "e_pendingWhois (set_net i n e) = e_pendingWhois e" "e_idSeq (set_net i n e) = e_idSeq e"
  "e_idBase (set_net i n e) = e_idBase e" "e_running (set_net i n e) = e_running e"
  "e_netStore (set_net i n e) = e_netStore e" "e_dirty (set_net i n e) = e_dirty e"
  "e_listAccum (set_net i n e) = e_listAccum e" "e_catchUps (set_net i n e) = e_catchUps e"
  "e_highlight (set_net i n e) = e_highlight e" "e_pendingState (set_net i n e) = e_pendingState e"
  by (simp_all add: set_net_def)

section \<open>The invariant\<close>

definition eng_ok :: "engine \<Rightarrow> bool" where
  "eng_ok e \<longleftrightarrow> distinct (map n_ID (e_nets e)) \<and> (\<forall>n\<in>set (e_nets e). net_ok n)"

lemma eng_okD: "eng_ok e \<Longrightarrow> find_net e ident = Some n \<Longrightarrow> net_ok n"
  using find_net_ID[of e ident n] by (simp add: eng_ok_def)

lemma eng_ok_nets: "e_nets e' = e_nets e \<Longrightarrow> eng_ok e' = eng_ok e"
  by (simp add: eng_ok_def)

lemma find_net_nets: "e_nets e' = e_nets e \<Longrightarrow> find_net e' = find_net e"
  by (simp add: find_net_def fun_eq_iff)

lemma set_net_ok: "eng_ok e \<Longrightarrow> net_ok n \<Longrightarrow> n_ID n = ident \<Longrightarrow> eng_ok (set_net ident n e)"
  using put_net_set[of ident n "e_nets e"] by (auto simp: eng_ok_def set_net_def put_net_ids)

lemma AddNetwork_ok:
  "eng_ok e \<Longrightarrow> find_net e (p_ID p) = None \<Longrightarrow> eng_ok (AddNetwork p c e)"
  by (auto simp: eng_ok_def AddNetwork_def find_net_def find_None_iff) (auto simp: new_network_def)

text \<open>
  The networks of a user are a keyed table too: added by \<open>AddNetwork\<close>, removed by \<open>RemoveNetwork\<close>.
\<close>

definition removed :: "engine \<Rightarrow> string \<Rightarrow> engine" where
  "removed e ident = fst (snd (RemoveNetwork ident e))"

lemma remove_first_none: "\<forall>x\<in>set xs. \<not> P x \<Longrightarrow> remove_first P xs = xs"
  by (induction xs) auto

lemma removed_nets: "e_nets (removed e ident) = remove_first (\<lambda>n. n_ID n = ident) (e_nets e)"
proof (cases "find_net e ident = None")
  case True
  then have "\<forall>n\<in>set (e_nets e). n_ID n \<noteq> ident" by (auto simp: find_net_def find_None_iff)
  then have "remove_first (\<lambda>n. n_ID n = ident) (e_nets e) = e_nets e" by (rule remove_first_none)
  then show ?thesis using True by (simp add: removed_def RemoveNetwork_def)
qed (auto simp: removed_def RemoveNetwork_def Let_def resetJoinGate_def drop_catchUps_def)

definition added :: "engine \<Rightarrow> string \<Rightarrow> networkParams \<times> nat \<Rightarrow> engine" where
  "added e ident pc = AddNetwork ((fst pc)\<lparr>p_ID := ident\<rparr>) (snd pc) e"

interpretation nt: keyed_table eng_ok e_nets n_ID "\<lambda>i. i" find_net added
  "\<lambda>ident pc. new_network ((fst pc)\<lparr>p_ID := ident\<rparr>)" removed
proof
  fix s :: engine and m a
  assume ok: "eng_ok s"
  show d: "distinct (map n_ID (e_nets s))" using ok by (simp add: eng_ok_def)
  show "find_net s m = find (\<lambda>v. n_ID v = m) (e_nets s)" by (simp add: find_net_def)
  show v: "e_nets (removed s m) = filter (\<lambda>v. n_ID v \<noteq> m) (e_nets s)"
    by (simp add: removed_nets remove_first_filter[OF d])
  show "eng_ok (removed s m)" using ok unfolding eng_ok_def v by (auto intro: distinct_map_filter)
  show "find_net s m = None \<Longrightarrow> e_nets (added s m a) = e_nets s @ [new_network ((fst a)\<lparr>p_ID := m\<rparr>)]"
    by (simp add: added_def AddNetwork_def)
  show "find_net s m = None \<Longrightarrow> eng_ok (added s m a)"
    using AddNetwork_ok[OF ok, of "(fst a)\<lparr>p_ID := m\<rparr>" "snd a"] by (simp add: added_def)
qed (simp add: new_network_def)

section \<open>Ids survive every event\<close>

lemma getOrCreate_fields [simp]:
  "n_ID (fst (getOrCreate n name kind)) = n_ID n" "n_Nick (fst (getOrCreate n name kind)) = n_Nick n"
  "n_State (fst (getOrCreate n name kind)) = n_State n" "n_Params (fst (getOrCreate n name kind)) = n_Params n"
  "n_Name (fst (getOrCreate n name kind)) = n_Name n"
  "n_MonitorOnline (fst (getOrCreate n name kind)) = n_MonitorOnline n"
  "n_Bouncer (fst (getOrCreate n name kind)) = n_Bouncer n"
  by (auto simp: getOrCreate_def Channel_def Let_def split: option.splits)

lemma applyPendingState_fields [simp]:
  "n_ID (applyPendingState p a n) = n_ID n" "n_Nick (applyPendingState p a n) = n_Nick n"
  "n_Params (applyPendingState p a n) = n_Params n" "n_State (applyPendingState p a n) = n_State n"
  by (simp_all add: applyPendingState_def Let_def)

lemma open_buffer_fields [simp]:
  "n_ID (fst (open_buffer pending name kind n)) = n_ID n" "n_Nick (fst (open_buffer pending name kind n)) = n_Nick n"
  "n_Params (fst (open_buffer pending name kind n)) = n_Params n"
  "n_State (fst (open_buffer pending name kind n)) = n_State n"
  by (simp_all add: open_buffer_def Let_def split_beta)

lemma resume_channel_fields [simp]:
  "n_ID (resume_channel pending ch n) = n_ID n" "n_Nick (resume_channel pending ch n) = n_Nick n"
  "n_Params (resume_channel pending ch n) = n_Params n" "n_State (resume_channel pending ch n) = n_State n"
  by (simp_all add: resume_channel_def)

lemma resume_channels_fields [simp]:
  "n_ID (fold (resume_channel pending) chs n) = n_ID n" "n_Nick (fold (resume_channel pending) chs n) = n_Nick n"
  "n_State (fold (resume_channel pending) chs n) = n_State n" "n_Params (fold (resume_channel pending) chs n) = n_Params n"
  by (induction chs arbitrary: n) simp_all

lemma member_loop_fields [simp]:
  "n_ID (fst (member_loop nick upd out n)) = n_ID n" "n_Nick (fst (member_loop nick upd out n)) = n_Nick n"
  "n_Params (fst (member_loop nick upd out n)) = n_Params n"
proof -
  have "n_ID (fst (fold (member_step nick upd out) as st)) = n_ID (fst st)
     \<and> n_Nick (fst (fold (member_step nick upd out) as st)) = n_Nick (fst st)
     \<and> n_Params (fst (fold (member_step nick upd out) as st)) = n_Params (fst st)" for as st
    by (induction as arbitrary: st) (auto simp: member_step_def split: prod.splits option.splits)
  from this[of "n_Channels n" "(n, [], False)"]
  show "n_ID (fst (member_loop nick upd out n)) = n_ID n" "n_Nick (fst (member_loop nick upd out n)) = n_Nick n"
    "n_Params (fst (member_loop nick upd out n)) = n_Params n" by (simp_all add: member_loop_def)
qed

lemma Channel_fields: "Channel n name = (n', c) \<Longrightarrow> n' = initByFold n"
  by (simp add: Channel_def Let_def)

lemma with_channel_fields [simp]:
  "n_ID (with_channel name f n) = n_ID n" "n_Nick (with_channel name f n) = n_Nick n"
  "n_Params (with_channel name f n) = n_Params n"
  by (auto simp: with_channel_def Channel_def Let_def split: option.splits)

lemma remove_buffer_fields [simp]:
  "n_ID (remove_buffer n name) = n_ID n" "n_Nick (remove_buffer n name) = n_Nick n"
  "n_Params (remove_buffer n name) = n_Params n"
  by (simp_all add: remove_buffer_def Let_def)

lemma monitor_steps_ID [simp]: "n_ID (fst (fold (monitor_step ev) nks st)) = n_ID (fst st)"
  by (induction nks arbitrary: st) (auto simp: monitor_step_def split: prod.splits)

lemma apply_net_ID [simp]: "n_ID (fst (apply_net env h pending key ev n)) = n_ID n"
  by (cases "ev_Type ev")
     (auto simp: apply_net_def apply_set_state_def apply_connect_def apply_disconnect_def apply_message_in_def
       apply_bouncer_def apply_history_target_def apply_names_def apply_away_def apply_account_def apply_chghost_def
       apply_invite_def apply_monitor_def apply_join_def apply_part_def apply_kick_def apply_quit_def apply_nick_def
       apply_mode_def apply_topic_def Let_def split_beta Channel_def
       split: option.splits)

section \<open>Operations on one network\<close>

text \<open>
  From \<open>e\<close> to \<open>e'\<close> the invariant is kept and no network but \<open>net\<close> changed.
\<close>

definition touches :: "string \<Rightarrow> engine \<Rightarrow> engine \<Rightarrow> bool" where
  "touches net e e' \<longleftrightarrow> (eng_ok e \<longrightarrow> eng_ok e') \<and> (\<forall>other. other \<noteq> net \<longrightarrow> find_net e' other = find_net e other)"

lemma touches_nets [intro]: "e_nets e' = e_nets e \<Longrightarrow> touches net e e'"
  using eng_ok_nets[of e' e] find_net_nets[of e' e] by (simp add: touches_def)

lemma touches_trans: "touches net e e' \<Longrightarrow> touches net e' e'' \<Longrightarrow> touches net e e''"
  by (simp add: touches_def)

lemma touches_set:
  assumes "find_net e net = Some n" "net_ok n \<Longrightarrow> net_ok n'" "n_ID n' = n_ID n"
  shows "touches net e (set_net net n' e)"
  using assms find_net_ID[OF assms(1)] eng_okD[OF _ assms(1)]
  by (auto simp: touches_def find_set_other intro: set_net_ok)

text \<open>The same when the update writes other fields of the engine too.\<close>

lemma touches_set':
  assumes "find_net e net = Some n" "net_ok n \<Longrightarrow> net_ok n'" "n_ID n' = n_ID n" "e_nets e' = put_net net n' (e_nets e)"
  shows "touches net e e'"
  using touches_set[OF assms(1-3)] touches_nets[of e' "set_net net n' e"] assms(4)
  by (auto simp: set_net_def intro: touches_trans)

lemma nets_simps [simp]:
  "e_nets (fst (broadcast m e)) = e_nets e" "e_nets (markDirty i e) = e_nets e" "e_nets (fst (flushDirty env e)) = e_nets e"
  "e_nets (fst (wakeFlush env e)) = e_nets e" "e_nets (snd (takePendingKey net ch e)) = e_nets e"
  "e_nets (resetJoinGate net e) = e_nets e" "e_nets (drop_lookups net e) = e_nets e"
  "e_nets (recordPendingKeys net text e) = e_nets e" "e_nets (drop_catchUps net e) = e_nets e"
  "e_nets (set_gate net g e) = e_nets e" "e_nets (next_seq net e) = e_nets e"
  "e_nets (setPendingState net b st e) = e_nets e" "e_nets (track_lookup ev tg e) = e_nets e"
  "e_nets (list_item ev e) = e_nets e" "e_nets (fst (list_end ev e)) = e_nets e"
  "e_nets (fst (start_if_running i c e)) = e_nets e" "e_nets (releaseConn i c e) = e_nets e"
  "e_nets (set_net i n e) = put_net i n (e_nets e)"
  by (simp_all add: broadcast_def synthID_def Let_def split_beta markDirty_def flushDirty_def wakeFlush_def takePendingKey_def
      resetJoinGate_def drop_lookups_def recordPendingKeys_def drop_catchUps_def set_gate_def next_seq_def setPendingState_def
      track_lookup_def list_item_def list_end_def start_if_running_def startConn_def releaseConn_def set_net_def)

lemma broadcast_all_nets [simp]: "e_nets (fst (broadcast_all ms e)) = e_nets e"
  by (induction ms arbitrary: e) (simp_all add: Let_def split_beta)

lemma getOrCreate_ok: "net_ok n \<Longrightarrow> net_ok (fst (getOrCreate n name kind))"
  by (metis getOrCreate_net_ok(1) prod.collapse)

lemma touches_getOrCreate:
  "find_net e net = Some n \<Longrightarrow> e_nets e' = put_net net (fst (getOrCreate n name kind)) (e_nets e) \<Longrightarrow> touches net e e'"
  by (erule touches_set') (simp_all add: getOrCreate_ok)

lemma inject_touches: "touches (msg_Network m) e (fst (inject env m e))"
proof (cases "find_net e (msg_Network m)")
  case (Some n)
  then show ?thesis
    by (rule touches_getOrCreate[where name = "msg_Buffer m" and kind = "bufferKind (msg_Buffer m)"])
       (simp add: inject_def Some Let_def split_beta)
qed (auto simp: inject_def)

lemma applyLocked_touches: "touches (ev_Network ev) e (fst (applyLocked env ev e))"
proof (cases "find_net e (ev_Network ev)")
  case (Some n)
  define key where "key = fst (if ev_Type ev = EvJoin \<and> EqualIRC (ev_Nick ev) (n_Nick n)
                           then takePendingKey (ev_Network ev) (ev_Buffer ev) e else (None, e))"
  define e1 where "e1 = snd (if ev_Type ev = EvJoin \<and> EqualIRC (ev_Nick ev) (n_Nick n)
                           then takePendingKey (ev_Network ev) (ev_Buffer ev) e else (None, e))"
  define e2 where "e2 = (if ev_Type ev = EvDisconnect
                    then drop_lookups (ev_Network ev) (resetJoinGate (ev_Network ev) e1) else e1)"
  have "e_nets e2 = e_nets e" by (simp add: e2_def e1_def)
  then show ?thesis using Some
    by (intro touches_set'[OF Some, where n' = "fst (apply_net env (e_highlight e2) (e_pendingState e2 (ev_Network ev)) key ev n)"])
       (simp_all add: apply_net_ok applyLocked_def Let_def split_beta key_def e1_def e2_def)
qed (auto simp: applyLocked_def)

lemma commit_state_touches: "touches (ev_Network ev) e (fst (commit_state env ev e))"
  by (rule touches_trans[OF applyLocked_touches[of ev e env] touches_nets])
     (simp add: commit_state_def Let_def split_beta)

lemma inject_from [intro]:
  "e_nets e1 = e_nets e \<Longrightarrow> msg_Network m = net \<Longrightarrow> touches net e (fst (inject env m e1))"
  using touches_trans[OF touches_nets inject_touches] by blast

lemma applyNumeric_touches: "touches (ev_Network ev) e (fst (applyNumeric env ev e))"
  by (auto simp: applyNumeric_def Let_def)

lemma applyMessageOut_touches: "touches (ev_Network ev) e (fst (applyMessageOut env ev e))"
proof (cases "ev_Message ev")
  case (Some m)
  show ?thesis
  proof (cases "find_net e (ev_Network ev)")
    case n: (Some n)
    let ?m = "if msg_From m = [] then m\<lparr>msg_From := n_Nick n\<rparr> else m"
    show ?thesis using n
      by (rule touches_getOrCreate[where name = "msg_Buffer ?m" and kind = "bufferKind (msg_Buffer ?m)"])
         (simp add: applyMessageOut_def Some n Let_def split_beta split: option.splits)
  qed (auto simp: applyMessageOut_def Some Let_def)
qed (auto simp: applyMessageOut_def)

lemma commit_touches: "touches (ev_Network ev) e (fst (commit env ev e))"
  by (cases "ev_Type ev")
     (auto simp: commit_def commit_state_touches applyNumeric_touches applyMessageOut_touches)

lemma commit_from: "e_nets e1 = e_nets e \<Longrightarrow> ev_Network ev = net \<Longrightarrow> touches net e (fst (commit env ev e1))"
  using touches_trans[OF touches_nets commit_touches] by blast

lemma say_touches [intro]: "touches (ev_Network ev) e (fst (say env ev text e))"
  by (auto simp: say_def)

lemma sendSelf_touches [intro]: "touches net e (fst (snd (sendSelf env net target text kind send e)))"
  by (auto simp: sendSelf_def Let_def split_beta split: option.splits)

lemma triggerAutojoin_nets [simp]: "e_nets (fst (triggerAutojoinOrQueue net seq c e)) = e_nets e"
  by (simp add: triggerAutojoinOrQueue_def split: option.splits)

lemma gate_nets [simp]:
  "e_nets (snd (HoldJoins net e)) = e_nets e" "e_nets (fst (snd (ReleaseJoins net e))) = e_nets e"
  "e_nets (fst (autoReleaseJoins net c e)) = e_nets e" "e_nets (fst (runPerform net e)) = e_nets e"
  "e_nets (resumeStartup net e) = e_nets e"
  by (simp_all add: HoldJoins_def ReleaseJoins_def autoReleaseJoins_def runPerform_def resumeStartup_def Let_def
      split: option.splits)

lemma after_commit_nets [simp]: "e_nets (fst (after_commit env ev e)) = e_nets e"
  by (cases "ev_Type ev") (simp_all add: after_commit_def Let_def split_beta)

lemma touches_update:
  assumes "find_net e net = Some n" "e_nets e' = put_net net (f n) (e_nets e)" "n_ID (f n) = n_ID n" "net_ok n \<Longrightarrow> net_ok (f n)"
  shows "touches net e e'"
  using assms(1,4,3,2) by (rule touches_set')

lemma SetConnected_touches: "touches net e (fst (snd (SetConnected env net connect e)))"
proof (cases "find_net e net")
  case (Some n)
  show ?thesis
  proof (cases connect)
    case True
    then show ?thesis by (auto simp: SetConnected_def Some Let_def split_beta split: sum.splits)
  next
    case False
    show ?thesis using Some
      by (rule touches_update[where f = "\<lambda>n. n\<lparr>n_State := StateDisconnected\<rparr>"])
         (simp_all add: SetConnected_def Some False Let_def)
  qed
qed (auto simp: SetConnected_def)

lemma cmd_connect_touches [intro]: "touches (ev_Network ev) e (fst (cmd_connect env ev name e))"
  using SetConnected_touches[of "ev_Network ev" e env "name = ''connect''"]
    touches_trans[OF SetConnected_touches[of "ev_Network ev" e env "name = ''connect''"] say_touches[of ev]]
  by (simp add: cmd_connect_def Let_def split_beta split: option.splits)

lemma runChatHistory_touches [intro]: "touches (ev_Network ev) e (fst (runChatHistory env ev c e))"
  by (auto simp: runChatHistory_def split: sum.splits)

lemma touches_if:
  "touches net e (fst x) \<Longrightarrow> touches net e (fst y) \<Longrightarrow> touches net e (fst (if b then x else y))"
  by simp

lemma touches_same [simp, intro]: "touches net e e"
  by (rule touches_nets) simp

lemma touches_pair: "e_nets e' = e_nets e \<Longrightarrow> touches net e (fst (e', out))"
  by (simp add: touches_nets)

lemma api_touches [intro]:
  "touches net e (fst (snd (api_action env net target text e)))" "touches net e (fst (snd (api_message env net target text e)))"
  "touches net e (fst (snd (api_notice env net target text e)))"
  by (simp_all add: api_action_def api_message_def api_notice_def sendSelf_touches)

lemma cmd_touches [intro]:
  "touches (ev_Network ev) e (fst (cmd_target_text ev (\<lambda>target text e. snd (api_message env (ev_Network ev) target text e)) e))"
  "touches (ev_Network ev) e (fst (cmd_target_text ev (\<lambda>target text e. snd (api_notice env (ev_Network ev) target text e)) e))"
  "touches (ev_Network ev) e (fst (startNumeric ev raw e))" "touches (ev_Network ev) e (fst (cmd_names c ev e))"
  "touches (ev_Network ev) e (fst (cmd_query env ev e))"
  by (auto simp: cmd_target_text_def startNumeric_def cmd_names_def cmd_query_def Let_def split_beta
      split: list.splits option.splits)

lemma cmd_nick_touches: "touches net e (fst (case as of [] \<Rightarrow> (e, []) | a # _ \<Rightarrow> (e, f a)))"
  by (simp split: list.splits)

lemma irc_command_touches: "touches (ev_Network ev) e (fst (irc_command env ev name c e))"
  unfolding irc_command_def Let_def
  by (intro touches_if) (simp_all add: api_touches cmd_touches runChatHistory_touches cmd_nick_touches touches_nets)

lemma plugin_cmd_touches [intro]:
  "touches (ev_Network ev) e (fst (cmd_load env ev e))" "touches (ev_Network ev) e (fst (cmd_update env ev e))"
  "touches (ev_Network ev) e (fst (cmd_unload env ev e))" "touches (ev_Network ev) e (fst (cmd_reload env ev e))"
  by (auto simp: cmd_load_def cmd_update_def cmd_unload_def cmd_reload_def Let_def split_beta
      split: option.splits list.splits)

lemma runBuiltinCommand_touches: "touches (ev_Network ev) e (fst (runBuiltinCommand env ev e))"
  unfolding runBuiltinCommand_def Let_def
  by (intro touches_if) (simp_all add: plugin_cmd_touches cmd_connect_touches irc_command_touches split: option.splits)

lemma onHistoryTarget_touches: "touches (ev_Network ev) e (fst (onHistoryTarget env ev e))"
  by (auto simp: onHistoryTarget_def Let_def split_beta commit_touches split: option.splits)

lemma onHistoryBatch_nets [simp]: "e_nets (fst (onHistoryBatch env ev e)) = e_nets e"
  by (simp add: onHistoryBatch_def Let_def split: option.splits)

text \<open>A plugin hook may rewrite an event but not move it to another network.\<close>

definition host_keeps_network :: "env \<Rightarrow> bool" where
  "host_keeps_network env \<longleftrightarrow> (\<forall>ev. ev_Network (fst (env_dispatch env ev)) = ev_Network ev)"

lemma handle_touches:
  assumes "host_keeps_network env"
  shows "touches (ev_Network ev) e (fst (handle env ev e))"
proof -
  have d: "touches (ev_Network ev) e (fst (commit env (fst (env_dispatch env ev)) e))"
    using assms by (intro commit_from) (simp_all add: host_keeps_network_def)
  have ac: "touches (ev_Network ev) e (fst (after_commit env ev (fst (commit env ev e))))"
    by (rule touches_trans[OF commit_touches touches_nets]) simp
  show ?thesis
    by (cases "ev_Type ev")
       (auto simp: handle_def Let_def split_beta d ac commit_touches runBuiltinCommand_touches onHistoryTarget_touches)
qed

end
