(* ===== verification/Core_Loop.thy ===== *)
theory Core_Loop
  imports Core_Handle
begin

text \<open>
  Model of the goroutines of \<^verbatim>\<open>internal/core/engine.go\<close>: \<^verbatim>\<open>Run\<close> (starting and stopping), the event \<^verbatim>\<open>loop\<close>, one
  connection's reconnect loop \<^verbatim>\<open>runConn\<close>, and the settings and snapshots read beside them. A queue of
  events is a list; the iteration order of a Go map is an argument, the list of its keys.
\<close>

section \<open>Settings and snapshots\<close>

definition SetHighlighter :: "highlighter option \<Rightarrow> engine \<Rightarrow> engine" where
  "SetHighlighter h e = e\<lparr>e_highlight := (case h of Some h \<Rightarrow> h | None \<Rightarrow> \<lparr>h_patterns = [], h_exceptions = []\<rparr>)\<rparr>"

definition HighlightRules :: "engine \<Rightarrow> string list \<times> string list" where
  "HighlightRules e = (h_patterns (e_highlight e), h_exceptions (e_highlight e))"

definition SetAliases :: "(string \<rightharpoonup> string) \<Rightarrow> engine \<Rightarrow> engine" where
  "SetAliases m e = e\<lparr>e_aliases := m\<rparr>"

definition NetworkConfig :: "string \<Rightarrow> engine \<Rightarrow> networkParams option" where
  "NetworkConfig ident e = map_option n_Params (find_net e ident)"

definition Snapshot :: "env \<Rightarrow> engine \<Rightarrow> network list" where
  "Snapshot env e = map (\<lambda>n.
     (let nc = clone_network n;
          nc = (case e_conns e (n_ID n) of Some c \<Rightarrow> nc\<lparr>n_Caps := env_caps env c\<rparr> | None \<Rightarrow> nc)
      in orderChannels nc)) (e_nets e)"

section \<open>Starting and stopping\<close>

fun start_conns :: "string list \<Rightarrow> engine \<Rightarrow> result" where
  "start_conns [] e = (e, [])"
| "start_conns (ident # ids) e =
     (let (e, out) = (case e_conns e ident of Some c \<Rightarrow> startConn ident c e | None \<Rightarrow> (e, []));
          (e, outs) = start_conns ids e
      in (e, out @ outs))"

definition run_start :: "string list \<Rightarrow> engine \<Rightarrow> result" where
  "run_start ids e = start_conns ids (e\<lparr>e_running := True\<rparr>)"

text \<open>A connection that can outlive the process is detached, any other closed.\<close>

definition run_stop :: "env \<Rightarrow> string list \<Rightarrow> engine \<Rightarrow> result" where
  "run_stop env ids e =
     (e\<lparr>e_stopping := True, e_running := False, e_joinGates := Map.empty\<rparr>,
      concat (map (\<lambda>ident. case e_conns e ident of
          Some c \<Rightarrow> [if env_detaches env c then DetachConn c else CloseConn c] | None \<Rightarrow> []) ids))"

section \<open>The event loop\<close>

definition maxNotifyDelay :: int where "maxNotifyDelay = 250"

text \<open>
  One event with \<open>waiting\<close> more in the queue and \<open>elapsed\<close> milliseconds since the last flush; the flag says
  whether it flushed.
\<close>

definition loop_turn :: "env \<Rightarrow> event \<Rightarrow> nat \<Rightarrow> int \<Rightarrow> engine \<Rightarrow> bool \<times> engine \<times> effect list" where
  "loop_turn env ev waiting elapsed e =
     (let (e, out) = handle env ev e in
      if waiting = 0 \<or> maxNotifyDelay \<le> elapsed
      then (let (e, out2) = flushDirty env e in (True, e, out @ out2))
      else (False, e, out))"

text \<open>The end of the loop: what is still queued is handled, then one flush.\<close>

fun loop_drain :: "env \<Rightarrow> event list \<Rightarrow> engine \<Rightarrow> result" where
  "loop_drain env [] e = flushDirty env e"
| "loop_drain env (ev # evs) e =
     (let (e, out) = handle env ev e; (e, outs) = loop_drain env evs e in (e, out @ outs))"

section \<open>One connection's goroutine\<close>

text \<open>How \<^verbatim>\<open>Connect\<close> returned: the context was cancelled, the login was refused, or the connection ended
  after so many milliseconds, with an error or without.\<close>

datatype connected = Cancelled | AuthFailed | Ended "string option" int

definition conn_begin :: "string \<Rightarrow> effect list" where
  "conn_begin ident = [Enqueue ((zero_event EvSetState ident)\<lparr>ev_State := StateConnecting\<rparr>)]"

definition auth_failed_text :: string where
  "auth_failed_text = ''authentication failed '' @ em_dash
     @ '' check the network's SASL credentials, then save or /connect to retry''"

text \<open>\<^verbatim>\<open>Duration.String\<close> of whole seconds below a minute, which every delay is.\<close>

definition delay_text :: "int \<Rightarrow> string" where
  "delay_text ms = format_uint (nat (ms div 1000)) @ ''s''"

text \<open>What follows a connection: None when the goroutine ends, else the pause and the backoff carried on.\<close>

definition conn_end ::
    "env \<Rightarrow> string \<Rightarrow> nat \<Rightarrow> int \<Rightarrow> connected \<Rightarrow> engine \<Rightarrow> (int \<times> int) option \<times> engine \<times> effect list" where
  "conn_end env ident c backoff res e =
     (case res of
        Cancelled \<Rightarrow> (None, e, [])
      | AuthFailed \<Rightarrow>
          (None, releaseConn ident c e,
           [Enqueue ((zero_event EvSetState ident)\<lparr>ev_State := StateDisconnected\<rparr>),
            Enqueue ((zero_event EvNumeric ident)\<lparr>ev_Text := auth_failed_text\<rparr>)])
      | Ended err lasted \<Rightarrow>
          (let (pause, backoff) = reconnectDelay backoff lasted
           in (Some (pause, backoff), e,
               (case err of
                  None \<Rightarrow> []
                | Some m \<Rightarrow> [Enqueue ((zero_event EvNumeric ident)\<lparr>ev_Time := env_now env,
                     ev_Text := ''connection failed: '' @ m @ '' '' @ em_dash @ '' retrying in '' @ delay_text pause\<rparr>)]))))"

text \<open>The reconnect loop over the outcomes of its connections.\<close>

fun runConn :: "env \<Rightarrow> string \<Rightarrow> nat \<Rightarrow> int \<Rightarrow> connected list \<Rightarrow> engine \<Rightarrow> int list \<times> engine \<times> effect list" where
  "runConn env ident c backoff [] e = ([], e, [])"
| "runConn env ident c backoff (res # rest) e =
     (case conn_end env ident c backoff res e of
        (None, e, out) \<Rightarrow> ([], e, conn_begin ident @ out)
      | (Some (pause, backoff), e, out) \<Rightarrow>
          (let (pauses, e, outs) = runConn env ident c backoff rest e
           in (pause # pauses, e, conn_begin ident @ out @ outs)))"

end
