(* ===== verification/Core_Runs.thy ===== *)
theory Core_Runs
  imports Core_Invariant Core_Loop
begin

text \<open>
  The core engine as a state machine: every entry point of \<^verbatim>\<open>internal/core\<close> that changes state, and every
  continuation of a goroutine it starts, is an operation; the environment may answer differently at
  each step. The invariant holds in every reachable state.
\<close>

section \<open>Steps\<close>

datatype core_op =
    HandleEvent event
  | Flush
  | AddLive networkParams
  | RemoveNet string
  | CloseBuf string string
  | UpdateNet networkParams
  | ListChans string string
  | ReorderBufs string "string list"
  | ReorderNets "string list"
  | SetConn string bool
  | AddMon string string
  | RemoveMon string string
  | MarkReadAt string string int
  | SetBufState string string "(string \<times> string) list"
  | Hold string
  | ReleaseHold string
  | HoldTimer string nat
  | ReleaseSlot string nat
  | PerformTurn string nat nat "string list"
  | TargetsTurn string nat "string list"
  | CatchUpTurn string string int int nat
  | LoadDone event string string "string option"
  | UpdateDone event string "string option"
  | PluginMessage string string string
  | PluginNotice string string string
  | PluginAction string string string
  | PluginPrint string string string
  | RunStart "string list"
  | RunStop "string list"
  | ConnEnded string nat int connected
  | SetHl "highlighter option"
  | SetAl "string \<rightharpoonup> string"

fun core_step :: "env \<Rightarrow> core_op \<Rightarrow> engine \<Rightarrow> result" where
  "core_step env (HandleEvent ev) e = handle env ev e"
| "core_step env Flush e = flushDirty env e"
| "core_step env (AddLive p) e = snd (AddNetworkLive env p e)"
| "core_step env (RemoveNet ident) e = snd (RemoveNetwork ident e)"
| "core_step env (CloseBuf net buf) e = snd (CloseBuffer env net buf e)"
| "core_step env (UpdateNet p) e = snd (UpdateNetwork env p e)"
| "core_step env (ListChans net q) e = snd (ListChannels env net q e)"
| "core_step env (ReorderBufs net names) e = snd (ReorderBuffers env net names e)"
| "core_step env (ReorderNets ids) e = ReorderNetworks ids e"
| "core_step env (SetConn ident b) e = snd (SetConnected env ident b e)"
| "core_step env (AddMon net nick) e = snd (AddMonitor env net nick e)"
| "core_step env (RemoveMon net nick) e = snd (RemoveMonitor env net nick e)"
| "core_step env (MarkReadAt net buf ts) e = MarkRead env net buf ts e"
| "core_step env (SetBufState net buf st) e = SetBufferState env net buf st e"
| "core_step env (Hold net) e = (snd (HoldJoins net e), [])"
| "core_step env (ReleaseHold net) e = snd (ReleaseJoins net e)"
| "core_step env (HoldTimer net c) e = autoReleaseJoins net c e"
| "core_step env (ReleaseSlot ident c) e = (releaseConn ident c e, [])"
| "core_step env (PerformTurn net sq c cmds) e = snd (perform_turn env net sq c cmds e)"
| "core_step env (TargetsTurn net c bufs) e = targets_turn env net c bufs e"
| "core_step env (CatchUpTurn net buf newest fallback c) e = catchup_turn env net buf newest fallback c e"
| "core_step env (LoadDone ev target custom err) e = load_done env ev target custom err e"
| "core_step env (UpdateDone ev name err) e = update_done env ev name err e"
| "core_step env (PluginMessage net target text) e = snd (api_message env net target text e)"
| "core_step env (PluginNotice net target text) e = snd (api_notice env net target text e)"
| "core_step env (PluginAction net target text) e = snd (api_action env net target text e)"
| "core_step env (PluginPrint net buf text) e = api_print env net buf text e"
| "core_step env (RunStart ids) e = run_start ids e"
| "core_step env (RunStop ids) e = run_stop env ids e"
| "core_step env (ConnEnded ident c backoff res) e = snd (conn_end env ident c backoff res e)"
| "core_step env (SetHl h) e = (SetHighlighter h e, [])"
| "core_step env (SetAl m) e = (SetAliases m e, [])"

text \<open>
  Networks are loaded from the store, which keys them by id, before the loop runs; after that the
  operations interleave in any order.
\<close>

inductive core_reach :: "engine \<Rightarrow> bool" where
  created: "core_reach (New_engine [] h aliases connector store base)"
| loaded: "core_reach e \<Longrightarrow> \<not> e_running e \<Longrightarrow> find_net e (p_ID p) = None \<Longrightarrow> core_reach (AddNetwork p c e)"
| stepped: "core_reach e \<Longrightarrow> host_keeps_network env \<Longrightarrow> core_reach (fst (core_step env opn e))"

section \<open>The remaining operations keep the invariant\<close>

lemma touches_okD: "touches net e e' \<Longrightarrow> eng_ok e \<Longrightarrow> eng_ok e'"
  by (simp add: touches_def)

lemma AddNetworkLive_ok: "eng_ok e \<Longrightarrow> eng_ok (fst (snd (AddNetworkLive env p e)))"
  using AddNetwork_ok[of e p] eng_ok_nets[of "fst (start_if_running _ _ (AddNetwork p _ e))" "AddNetwork p _ e"]
  by (auto simp: AddNetworkLive_def Let_def split_beta split: sum.splits)

lemma RemoveNetwork_ok: "eng_ok e \<Longrightarrow> eng_ok (fst (snd (RemoveNetwork ident e)))"
  using nt.inv_del[of e ident] by (simp add: removed_def)

lemma CloseBuffer_touches: "touches net e (fst (snd (CloseBuffer env net buf e)))"
proof (cases "find_net e net")
  case (Some n)
  have t1: "touches net e (set_net net (initByFold n) e)"
    using Some by (rule touches_set) simp_all
  have "touches net e (set_net net (remove_buffer (initByFold n) buf) (set_net net (initByFold n) e))"
    using find_set_same[of e net "initByFold n"] find_net_ID[OF Some] Some
    by (intro touches_trans[OF t1] touches_set[where n = "initByFold n"]) (simp_all add: remove_buffer_net_ok)
  then show ?thesis using t1 by (simp add: CloseBuffer_def Some Channel_def Let_def split: option.splits)
qed (auto simp: CloseBuffer_def)

lemma UpdateNetwork_touches: "touches (p_ID p) e (fst (snd (UpdateNetwork env p e)))"
proof (cases "find_net e (p_ID p)")
  case (Some n)
  define q where "q = p\<lparr>p_ChannelKeys := reconcileKeys (p_ChannelKeys (n_Params n)) (p_Channels p)\<rparr>"
  have nq: "e_nets e' = put_net (p_ID p) n' (e_nets e) \<Longrightarrow> n_ID n' = n_ID n \<Longrightarrow> (net_ok n \<Longrightarrow> net_ok n')
      \<Longrightarrow> touches (p_ID p) e e'" for e' n'
    using touches_set'[OF Some] by blast
  have ok: "net_ok n \<Longrightarrow> net_ok (n\<lparr>n_Params := q, n_Name := nm\<rparr>)"
    "net_ok n \<Longrightarrow> net_ok (n\<lparr>n_Params := q, n_Name := nm, n_Nick := nk\<rparr>)" for nm nk by (simp_all)
  show ?thesis
    unfolding UpdateNetwork_def Some Let_def option.case q_def[symmetric]
    using nq[where n' = "n\<lparr>n_Params := q, n_Name := p_Name q\<rparr>"]
      nq[where n' = "n\<lparr>n_Params := q, n_Name := p_Name q, n_Nick := p_Nick q\<rparr>"] ok
    by (auto simp: split_beta split: sum.splits)
qed (auto simp: UpdateNetwork_def)

lemma param_edit_touches:
  "touches net e (fst (snd (ReorderBuffers env net names e)))"
  "touches net e (fst (snd (AddMonitor env net nick e)))"
  "touches net e (fst (snd (RemoveMonitor env net nick e)))"
  by (auto simp: ReorderBuffers_def AddMonitor_def RemoveMonitor_def Let_def split: option.splits intro!: touches_set)

lemma MarkRead_touches: "touches net e (fst (MarkRead env net buf ts e))"
  by (auto simp: MarkRead_def Let_def split: option.splits intro!: touches_set with_channel_ok)

lemma put_put_net: "n_ID n1 = ident \<Longrightarrow> put_net ident n2 (put_net ident n1 ns) = put_net ident n2 ns"
  by (induction ns) auto

lemma SetBufferState_touches: "touches net e (fst (SetBufferState env net buf st e))"
proof (cases "find_net e net")
  case (Some n)
  have f: "find_net (setPendingState net buf st e) net = Some n"
    using Some find_net_nets[of "setPendingState net buf st e" e] by simp
  show ?thesis
  proof (cases "snd (Channel n buf)")
    case None
    then show ?thesis using f find_net_ID[OF Some]
      by (intro touches_set'[OF Some, where n' = "initByFold n"])
         (simp_all add: SetBufferState_def Let_def split_beta Channel_def)
  next
    case c: (Some a)
    have "net_ok n \<Longrightarrow> net_ok (upd_chan (\<lambda>c. c\<lparr>ch_State := st\<rparr>) a (initByFold n))"
      using Channel_in[of n buf "initByFold n" a] c by (intro upd_ok) (auto simp: Channel_def Let_def)
    then show ?thesis using f find_net_ID[OF Some] c
      by (intro touches_set'[OF Some, where n' = "upd_chan (\<lambda>c. c\<lparr>ch_State := st\<rparr>) a (initByFold n)"])
         (simp_all add: SetBufferState_def Let_def split_beta Channel_def put_put_net)
  qed
qed (auto simp: SetBufferState_def Let_def find_net_def)

section \<open>Reordering\<close>

text \<open>Every id once, where it is first mentioned.\<close>

fun firsts :: "'a list \<Rightarrow> 'a list" where
  "firsts [] = []"
| "firsts (x # xs) = x # filter (\<lambda>y. y \<noteq> x) (firsts xs)"

lemma set_firsts [simp]: "set (firsts xs) = set xs"
  by (induction xs) auto

lemma distinct_firsts [simp]: "distinct (firsts xs)"
  by (induction xs) auto

lemma pick_listed_spec:
  "map n_ID (fst (pick_listed ids seen cur)) = filter (\<lambda>i. i \<in> n_ID ` set cur \<and> i \<notin> set seen) (firsts ids)
    \<and> set (snd (pick_listed ids seen cur)) = set seen \<union> (set ids \<inter> n_ID ` set cur)
    \<and> (\<forall>n\<in>set (fst (pick_listed ids seen cur)). find (\<lambda>m. n_ID m = n_ID n) cur = Some n)"
proof (induction ids arbitrary: seen)
  case (Cons i ids)
  have drop_one: "filter P (filter (\<lambda>y. y \<noteq> i) xs) = filter P xs" if "\<not> P i" for P xs
    using that by (auto simp: filter_filter intro!: filter_cong)
  show ?case
  proof (cases "i \<in> set seen \<or> find (\<lambda>n. n_ID n = i) cur = None")
    case True
    then have no: "\<not> (i \<in> n_ID ` set cur \<and> i \<notin> set seen)" by (auto simp: find_None_iff)
    have p: "pick_listed (i # ids) seen cur = pick_listed ids seen cur" using True by auto
    show ?thesis unfolding p using Cons[of seen] no drop_one[of "\<lambda>i. i \<in> n_ID ` set cur \<and> i \<notin> set seen"] by auto
  next
    case False
    then obtain n where n: "find (\<lambda>n. n_ID n = i) cur = Some n" "i \<notin> set seen" by auto
    have i: "n_ID n = i" "i \<in> n_ID ` set cur" using find_SomeD[OF n(1)] by auto
    have p: "pick_listed (i # ids) seen cur
      = (n # fst (pick_listed ids (i # seen) cur), snd (pick_listed ids (i # seen) cur))"
      using n by (simp add: split_beta Let_def)
    have "filter (\<lambda>k. k \<in> n_ID ` set cur \<and> k \<notin> set seen) (filter (\<lambda>y. y \<noteq> i) (firsts ids))
      = filter (\<lambda>k. k \<in> n_ID ` set cur \<and> k \<notin> set (i # seen)) (firsts ids)"
      by (auto simp: filter_filter intro!: filter_cong)
    then show ?thesis unfolding p using Cons[of "i # seen"] i n by auto
  qed
qed simp

lemma number_nets_spec:
  "map n_ID (number_nets i ns) = map n_ID ns" "length (number_nets i ns) = length ns"
  "k < length ns \<Longrightarrow> number_nets i ns ! k = (ns ! k)\<lparr>n_Params := (n_Params (ns ! k))\<lparr>p_Pos := i + int k\<rparr>\<rparr>"
proof -
  show "map n_ID (number_nets i ns) = map n_ID ns" by (induction ns arbitrary: i) auto
  show "length (number_nets i ns) = length ns" by (induction ns arbitrary: i) auto
  show "k < length ns \<Longrightarrow> number_nets i ns ! k = (ns ! k)\<lparr>n_Params := (n_Params (ns ! k))\<lparr>p_Pos := i + int k\<rparr>\<rparr>"
    by (induction ns arbitrary: i k) (auto simp: nth_Cons algebra_simps split: nat.splits)
qed

lemma number_nets_ok: "\<forall>n\<in>set ns. net_ok n \<Longrightarrow> \<forall>n\<in>set (number_nets i ns). net_ok n"
  by (induction ns arbitrary: i) auto

definition reordered :: "string list \<Rightarrow> network list \<Rightarrow> network list" where
  "reordered ids ns = fst (pick_listed ids [] ns) @ filter (\<lambda>n. n_ID n \<notin> set (snd (pick_listed ids [] ns))) ns"

lemma reordered_ids:
  "map n_ID (reordered ids ns) = filter (\<lambda>i. i \<in> set (map n_ID ns)) (firsts ids) @ filter (\<lambda>i. i \<notin> set ids) (map n_ID ns)"
proof -
  note S = pick_listed_spec[of ids "[]" ns]
  have "filter (\<lambda>n. n_ID n \<notin> set (snd (pick_listed ids [] ns))) ns = filter (\<lambda>n. n_ID n \<notin> set ids) ns"
    using S by (intro filter_cong) auto
  then show ?thesis using S by (simp add: reordered_def filter_map comp_def)
qed

lemma reordered_sub: "set (reordered ids ns) \<subseteq> set ns"
  using pick_listed_spec[of ids "[]" ns] by (auto simp: reordered_def dest: find_SomeD)

lemma ReorderNetworks_nets: "e_nets (fst (ReorderNetworks ids e)) = number_nets 0 (reordered ids (e_nets e))"
  by (simp add: ReorderNetworks_def reordered_def split_beta Let_def)

lemma reordered_distinct: "distinct (map n_ID ns) \<Longrightarrow> distinct (map n_ID (reordered ids ns))"
  unfolding reordered_ids by auto

lemma ReorderNetworks_ok: "eng_ok e \<Longrightarrow> eng_ok (fst (ReorderNetworks ids e))"
  using number_nets_ok[of "reordered ids (e_nets e)" 0] reordered_sub[of ids "e_nets e"]
    reordered_distinct[of "e_nets e" ids]
  by (auto simp: eng_ok_def ReorderNetworks_nets number_nets_spec(1))

section \<open>Every step keeps the invariant\<close>

lemma task_nets [simp]:
  "e_nets (fst (snd (perform_turn env net sq c cmds e))) = e_nets e" "e_nets (fst (targets_turn env net c bufs e)) = e_nets e"
  "e_nets (fst (catchup_turn env net buf newest fallback c e)) = e_nets e"
  "e_nets (fst (snd (ListChannels env net q e))) = e_nets e"
  by (simp_all add: perform_turn_def targets_turn_def catchup_turn_def ListChannels_def Let_def split: list.splits option.splits)

lemma start_conns_nets [simp]: "e_nets (fst (start_conns ids e)) = e_nets e"
  by (induction ids arbitrary: e) (auto simp: split_beta Let_def startConn_def split: option.splits)

lemma loop_nets [simp]:
  "e_nets (fst (run_start ids e)) = e_nets e" "e_nets (fst (run_stop env ids e)) = e_nets e"
  "e_nets (fst (snd (conn_end env ident c backoff res e))) = e_nets e"
  "e_nets (SetHighlighter h e) = e_nets e" "e_nets (SetAliases m e) = e_nets e"
  by (simp_all add: run_start_def run_stop_def conn_end_def SetHighlighter_def SetAliases_def releaseConn_def split_beta
      split: connected.splits)

lemma api_print_touches: "touches net e (fst (api_print env net buf text e))"
  by (auto simp: api_print_def)

lemma done_touches:
  "touches (ev_Network ev) e (fst (load_done env ev target custom err e))"
  "touches (ev_Network ev) e (fst (update_done env ev name err e))"
  by (auto simp: load_done_def update_done_def split: option.splits)

lemmas one_network = CloseBuffer_touches UpdateNetwork_touches param_edit_touches MarkRead_touches
  SetBufferState_touches SetConnected_touches api_print_touches done_touches api_touches

lemma core_step_ok:
  assumes "host_keeps_network env" "eng_ok e"
  shows "eng_ok (fst (core_step env opn e))"
proof -
  note T = one_network[THEN touches_okD, OF assms(2)] handle_touches[OF assms(1), THEN touches_okD, OF assms(2)]
  have N: "e_nets e' = e_nets e \<Longrightarrow> eng_ok e'" for e' using assms(2) eng_ok_nets[of e' e] by simp
  show ?thesis
    by (cases opn; simp only: core_step.simps fst_conv;
        (rule T AddNetworkLive_ok[OF assms(2)] RemoveNetwork_ok[OF assms(2)] ReorderNetworks_ok[OF assms(2)]
         | (rule N, simp)))
qed

lemma core_reach_ok: "core_reach e \<Longrightarrow> eng_ok e"
  by (induction rule: core_reach.induct) (auto simp: core_step_ok AddNetwork_ok, simp add: eng_ok_def New_engine_def)

end
