(* ===== verification/Core_Properties.thy ===== *)
theory Core_Properties
  imports Core_Runs
begin

text \<open>
  Properties of the core engine: the invariant of every reachable state, isolation of networks, what
  membership events do to all channels, what a disconnect forgets, what joins and parts remember, the
  order and completeness of snapshots, and the effects of edits.
\<close>

section \<open>A concrete engine\<close>

definition sample_env :: env where
  "sample_env = \<lparr>env_now = 7, env_regexp = (\<lambda>_. None), env_quote = (\<lambda>s. s), env_lower = (\<lambda>s. s),
     env_upper = (\<lambda>s. s), env_parse_time = (\<lambda>_. None), env_format_time = (\<lambda>_. []), env_caps = (\<lambda>_. []),
     env_send = (\<lambda>_ _. None), env_message = (\<lambda>_ _ _. None), env_detaches = (\<lambda>_. False), env_dial = (\<lambda>_. Inr 2), env_unload = (\<lambda>_. None),
     env_reload = (\<lambda>_. None), env_dispatch = (\<lambda>ev. (ev, True)), env_last_chat = None\<rparr>"

definition empty_engine :: engine where
  "empty_engine = New_engine [] \<lparr>h_patterns = [], h_exceptions = []\<rparr> Map.empty True True ''ab''"

definition sample_engine :: engine where
  "sample_engine = AddNetwork (sample_params\<lparr>p_ID := ''oftc''\<rparr>) 2 (AddNetwork sample_params 1 empty_engine)"

definition join_event :: "string \<Rightarrow> string \<Rightarrow> event" where
  "join_event nick buf = (zero_event EvJoin ''libera'')\<lparr>ev_Nick := nick, ev_Buffer := buf\<rparr>"

text \<open>Two members in two channels of the first network.\<close>

definition joined_engine :: engine where
  "joined_engine = fold (\<lambda>ev e. fst (handle sample_env ev e))
     [join_event ''bob'' ''#go'', join_event ''Ann'' ''#go'', join_event ''bob'' ''#Isabelle''] sample_engine"

lemma zero_event_sel [simp]: "ev_Type (zero_event t net) = t" "ev_Network (zero_event t net) = net"
  by (simp_all add: zero_event_def)

lemma sample_host [simp]: "host_keeps_network sample_env"
  by (simp add: host_keeps_network_def sample_env_def)

lemma empty_reach: "core_reach empty_engine"
  unfolding empty_engine_def by (rule core_reach.created)

lemma sample_reach: "core_reach sample_engine"
  unfolding sample_engine_def
  by (intro core_reach.loaded empty_reach)
     (simp_all add: empty_engine_def New_engine_def AddNetwork_def find_net_def new_network_def sample_params_def)

lemma sample_engine_ids: "map n_ID (e_nets sample_engine) = [''libera'', ''oftc'']"
  by (simp add: sample_engine_def AddNetwork_def empty_engine_def New_engine_def new_network_def sample_params_def)

lemma handle_reach: "core_reach e \<Longrightarrow> core_reach (fst (handle sample_env ev e))"
  using core_reach.stepped[of e sample_env "HandleEvent ev"] by simp

lemma joined_reach: "core_reach joined_engine"
  unfolding joined_engine_def by (simp add: handle_reach sample_reach)

lemma handle_ids: "map n_ID (e_nets (fst (handle sample_env (join_event nick buf) e))) = map n_ID (e_nets e)"
proof (cases "find_net e ''libera''")
  case None
  then show ?thesis
    by (simp add: handle_def join_event_def zero_event_def commit_def commit_state_def applyLocked_def Let_def split_beta)
next
  case (Some n)
  let ?ev = "join_event nick buf"
  have "e_nets (fst (applyLocked sample_env ?ev e)) = put_net ''libera'' n' (e_nets e)
      \<Longrightarrow> n_ID n' = ''libera'' \<Longrightarrow> map n_ID (e_nets (fst (applyLocked sample_env ?ev e))) = map n_ID (e_nets e)" for n'
    by (simp add: put_net_ids)
  moreover have "\<exists>n'. e_nets (fst (applyLocked sample_env ?ev e)) = put_net ''libera'' n' (e_nets e) \<and> n_ID n' = ''libera''"
    using Some find_net_ID[OF Some]
    by (auto simp: applyLocked_def join_event_def zero_event_def Let_def split_beta intro!: exI)
  ultimately show ?thesis
    by (auto simp: handle_def join_event_def zero_event_def commit_def commit_state_def Let_def split_beta)
qed

lemma joined_found: "find_net joined_engine ''libera'' \<noteq> None"
proof -
  have "map n_ID (e_nets joined_engine) = map n_ID (e_nets sample_engine)" by (simp add: joined_engine_def handle_ids)
  then have "''libera'' \<in> n_ID ` set (e_nets joined_engine)"
    by (metis list.set_map sample_engine_ids list.set_intros(1))
  then show ?thesis by (auto simp: find_net_def find_None_iff)
qed

section \<open>The invariant\<close>

text \<open>
  C17. In every state the core can reach, whatever events, edits, plugin calls and goroutine turns
  interleave: network ids are unique, and in every network the display list and the lookaside map
  name the same buffers, no two buffers fold to one name, and every member is filed under its folded
  nick.\<close>

theorem core_invariant:
  assumes "core_reach e"
  shows "distinct (map n_ID (e_nets e)) \<and> list_all (\<lambda>n. table_ok n \<and> list_all members_ok (buffers n)) (e_nets e)"
  using core_reach_ok[OF assms] by (auto simp: eng_ok_def net_ok_def list_all_iff buffers_def)

theorem core_invariant_witness:
  "distinct (map n_ID (e_nets joined_engine))
    \<and> list_all (\<lambda>n. table_ok n \<and> list_all members_ok (buffers n)) (e_nets joined_engine)"
  by (rule core_invariant[OF joined_reach])



section \<open>Printed lines\<close>

fun printed :: "effect list \<Rightarrow> message list" where
  "printed [] = []"
| "printed (Print m # es) = m # printed es"
| "printed (_ # es) = printed es"

definition unnamed :: "message \<Rightarrow> message" where "unnamed m = m\<lparr>msg_ID := []\<rparr>"

lemma printed_append [simp]: "printed (xs @ ys) = printed xs @ printed ys"
  by (induction xs rule: printed.induct) auto

lemma broadcast_all_printed:
  "map unnamed (printed (snd (broadcast_all ms e))) = map unnamed ms"
  by (induction ms arbitrary: e)
     (auto simp: Let_def split_beta broadcast_def synthID_def unnamed_def)

fun saved :: "effect list \<Rightarrow> networkParams list" where
  "saved [] = []"
| "saved (SaveNetwork p # es) = p # saved es"
| "saved (_ # es) = saved es"

lemma saved_append [simp]: "saved (xs @ ys) = saved xs @ saved ys"
  by (induction xs rule: saved.induct) auto

lemma broadcast_all_saved [simp]: "saved (snd (broadcast_all ms e)) = []"
  by (induction ms arbitrary: e) (auto simp: Let_def split_beta broadcast_def synthID_def)

lemma printed_save [simp]:
  "printed (if b then (case x of Some n \<Rightarrow> [SaveNetwork (f n)] | None \<Rightarrow> []) else []) = []"
  by (simp split: option.splits)

lemma markDirty_fields [simp]:
  "e_pendingKeys (markDirty i e) = e_pendingKeys e" "e_pendingWhois (markDirty i e) = e_pendingWhois e"
  "e_joinGates (markDirty i e) = e_joinGates e" "e_conns (markDirty i e) = e_conns e"
  by (simp_all add: markDirty_def)

lemma broadcast_fields [simp]:
  "e_pendingKeys (fst (broadcast m e)) = e_pendingKeys e" "e_pendingWhois (fst (broadcast m e)) = e_pendingWhois e"
  "e_joinGates (fst (broadcast m e)) = e_joinGates e" "e_conns (fst (broadcast m e)) = e_conns e"
  by (simp_all add: broadcast_def synthID_def Let_def split_beta)

lemma broadcast_all_fields [simp]:
  "e_pendingKeys (fst (broadcast_all ms e)) = e_pendingKeys e" "e_pendingWhois (fst (broadcast_all ms e)) = e_pendingWhois e"
  "e_joinGates (fst (broadcast_all ms e)) = e_joinGates e" "e_conns (fst (broadcast_all ms e)) = e_conns e"
  by (induction ms arbitrary: e) (simp_all add: Let_def split_beta)

text \<open>What \<^verbatim>\<open>applyLocked\<close> hands to the network: the pending key of a self-join and the engine's own part.\<close>

definition locked_key :: "event \<Rightarrow> network \<Rightarrow> engine \<Rightarrow> string option" where
  "locked_key ev n e = (if ev_Type ev = EvJoin \<and> EqualIRC (ev_Nick ev) (n_Nick n)
     then e_pendingKeys e (whoisKey (ev_Network ev) (ev_Buffer ev)) else None)"

definition locked_engine :: "event \<Rightarrow> network \<Rightarrow> engine \<Rightarrow> engine" where
  "locked_engine ev n e =
     (let e = (if ev_Type ev = EvJoin \<and> EqualIRC (ev_Nick ev) (n_Nick n)
               then e\<lparr>e_pendingKeys := (e_pendingKeys e)(whoisKey (ev_Network ev) (ev_Buffer ev) := None)\<rparr> else e)
      in if ev_Type ev = EvDisconnect then drop_lookups (ev_Network ev) (resetJoinGate (ev_Network ev) e) else e)"

lemma locked_engine_nets [simp]: "e_nets (locked_engine ev n e) = e_nets e" "e_netStore (locked_engine ev n e) = e_netStore e"
  "e_highlight (locked_engine ev n e) = e_highlight e" "e_pendingState (locked_engine ev n e) = e_pendingState e"
  by (simp_all add: locked_engine_def Let_def drop_lookups_def resetJoinGate_def)

lemma applyLocked_spec:
  assumes "find_net e (ev_Network ev) = Some n"
    "apply_net env (e_highlight e) (e_pendingState e (ev_Network ev)) (locked_key ev n e) ev n = (n', emit, changed, persist)"
  shows "applyLocked env ev e = (set_net (ev_Network ev) n' (locked_engine ev n e), emit, changed, persist)"
proof (cases "ev_Type ev = EvJoin \<and> EqualIRC (ev_Nick ev) (n_Nick n)")
  case True
  then show ?thesis using assms by (simp add: applyLocked_def locked_engine_def locked_key_def takePendingKey_def Let_def)
next
  case False
  then have "locked_key ev n e = None" by (auto simp: locked_key_def)
  moreover have "locked_engine ev n e = (if ev_Type ev = EvDisconnect
      then drop_lookups (ev_Network ev) (resetJoinGate (ev_Network ev) e) else e)"
    using False by (auto simp: locked_engine_def)
  ultimately show ?thesis using assms False
    by (auto simp: applyLocked_def drop_lookups_def resetJoinGate_def)
qed

text \<open>A committed state event: the new network, the lines printed, the parameters saved.\<close>

lemma commit_state_spec:
  assumes fn: "find_net e (ev_Network ev) = Some n"
    and a: "apply_net env (e_highlight e) (e_pendingState e (ev_Network ev)) (locked_key ev n e) ev n = (n', emit, changed, persist)"
  shows "find_net (fst (commit_state env ev e)) (ev_Network ev) = Some n'"
    "map unnamed (printed (snd (commit_state env ev e))) = map unnamed emit"
    "saved (snd (commit_state env ev e)) = (if persist \<and> e_netStore e then [n_Params n'] else [])"
    "e_pendingKeys (fst (commit_state env ev e)) = e_pendingKeys (locked_engine ev n e)"
    "e_pendingWhois (fst (commit_state env ev e)) = e_pendingWhois (locked_engine ev n e)"
    "e_joinGates (fst (commit_state env ev e)) = e_joinGates (locked_engine ev n e)"
proof -
  note al = applyLocked_spec[OF fn a]
  let ?e = "set_net (ev_Network ev) n' (locked_engine ev n e)"
  have "n_ID n' = n_ID n"
    using apply_net_ID[of env "e_highlight e" "e_pendingState e (ev_Network ev)" "locked_key ev n e" ev n] a by simp
  moreover have "find_net (locked_engine ev n e) (ev_Network ev) = Some n"
    using fn find_net_nets[of "locked_engine ev n e" e] by simp
  ultimately have f: "find_net ?e (ev_Network ev) = Some n'"
    using find_net_ID[OF fn] by (intro find_set_same) simp_all
  have "e_nets (fst (commit_state env ev e)) = e_nets ?e" by (simp add: commit_state_def al Let_def split_beta)
  then show "find_net (fst (commit_state env ev e)) (ev_Network ev) = Some n'" using find_net_nets f by metis
  show "map unnamed (printed (snd (commit_state env ev e))) = map unnamed emit"
    using broadcast_all_printed[of emit ?e] by (simp add: commit_state_def al Let_def split_beta)
  show "saved (snd (commit_state env ev e)) = (if persist \<and> e_netStore e then [n_Params n'] else [])"
    by (simp add: commit_state_def al Let_def split_beta f)
qed (simp_all add: commit_state_def applyLocked_spec[OF fn a] Let_def split_beta)

section \<open>Membership\<close>

lemma drop_member_absent: "\<not> has_member nick c \<Longrightarrow> drop_member nick c = c"
  by (simp add: drop_member_def has_member_def fun_upd_idem)

lemma touch_drop [simp]: "touch nick (\<lambda>m. drop_member nick) c = drop_member nick c"
  by (cases "has_member nick c") (auto simp: touch_def drop_member_absent, auto simp: has_member_def)

lemma touch_lines_one:
  "concat (map (touch_lines nick (\<lambda>m c. [g c])) cs) = map g (filter (has_member nick) cs)"
  by (induction cs) (auto simp: touch_lines_def has_member_def split: option.splits)

definition headline :: "message \<Rightarrow> msgKind \<times> string \<times> string" where
  "headline m = (msg_Kind m, msg_Buffer m, msg_From m)"

lemma headline_unnamed: "map unnamed xs = map unnamed ys \<Longrightarrow> map headline xs = map headline ys"
proof -
  assume "map unnamed xs = map unnamed ys"
  then have "map (headline \<circ> unnamed) xs = map (headline \<circ> unnamed) ys" by (metis map_map)
  moreover have "headline \<circ> unnamed = headline" by (simp add: fun_eq_iff headline_def unnamed_def)
  ultimately show ?thesis by simp
qed

lemma headline_line [simp]: "headline (line_msg env net kind buf from text) = (kind, buf, from)"
  by (simp add: headline_def line_msg_def)

text \<open>
  C26. A quit takes the user out of every channel of the network, whichever casing the server uses, and
  changes nothing else of a channel; one quit line is printed in each channel the user was in, in
  display order, and in no other.\<close>

theorem quit_leaves_every_channel:
  assumes "ev_Type ev = EvQuit" "find_net e (ev_Network ev) = Some n" "net_ok n"
  shows "(\<exists>n'. find_net (fst (commit env ev e)) (ev_Network ev) = Some n' \<and> n_Nick n' = n_Nick n
      \<and> buffers n' = map (drop_member (ev_Nick ev)) (buffers n))
    \<and> map headline (printed (snd (commit env ev e)))
      = map (\<lambda>c. (MsgQuit, ch_Name c, ev_Nick ev)) (filter (has_member (ev_Nick ev)) (buffers n))"
proof -
  let ?n = "fold (upd_chan (drop_member (ev_Nick ev))) (n_Channels n) n"
  have tf: "touch (ev_Nick ev) (\<lambda>m. drop_member (ev_Nick ev)) = drop_member (ev_Nick ev)" by (simp add: fun_eq_iff)
  obtain emit hit where a: "apply_net env h p k ev n = (?n, emit, hit, False)"
    and em: "emit = map (\<lambda>c. line_msg env (n_ID n) MsgQuit (ch_Name c) (ev_Nick ev)
                (with_reason (ev_Nick ev @ '' has quit'') (ev_Text ev))) (filter (has_member (ev_Nick ev)) (buffers n))" for h p k
    using assms by (simp add: apply_net_def apply_quit_def member_loop_spec net_okD touch_lines_one tf)
  have c: "commit env ev e = commit_state env ev e" using assms(1) by (simp add: commit_def)
  note S = commit_state_spec[OF assms(2) a]
  have "buffers ?n = map (drop_member (ev_Nick ev)) (buffers n)" using fold_upd_buffers[OF net_okD(1)[OF assms(3)]] .
  moreover have "map headline (printed (snd (commit_state env ev e))) = map headline emit"
    using headline_unnamed[OF S(2)] .
  ultimately show ?thesis using S(1) by (simp add: c em comp_def)
qed

definition sample_net :: network where "sample_net = the (find_net joined_engine ''libera'')"

lemma sample_net_found [simp]: "find_net joined_engine ''libera'' = Some sample_net"
  using joined_found by (auto simp: sample_net_def)

lemma sample_net_ok [simp]: "net_ok sample_net"
  using eng_okD[OF core_reach_ok[OF joined_reach] sample_net_found] .

theorem quit_leaves_every_channel_witness:
  "(\<exists>n'. find_net (fst (commit sample_env ((zero_event EvQuit ''libera'')\<lparr>ev_Nick := ''ann''\<rparr>) joined_engine)) ''libera'' = Some n'
      \<and> n_Nick n' = n_Nick sample_net \<and> buffers n' = map (drop_member ''ann'') (buffers sample_net))
    \<and> map headline (printed (snd (commit sample_env ((zero_event EvQuit ''libera'')\<lparr>ev_Nick := ''ann''\<rparr>) joined_engine)))
      = map (\<lambda>c. (MsgQuit, ch_Name c, ''ann'')) (filter (has_member ''ann'') (buffers sample_net))"
  using quit_leaves_every_channel[of "(zero_event EvQuit ''libera'')\<lparr>ev_Nick := ''ann''\<rparr>" joined_engine sample_net sample_env]
  by (simp cong: if_cong option.case_cong)

text \<open>
  C27. A nick change renames the user in every channel it is in: the entry under the old nick is gone,
  the entry under the new one is the same member with the new nick, replacing whoever was filed
  there; other channels and members stay; our own nick follows exactly when it was ours; and one line
  is printed per channel the user was in.\<close>

theorem nick_change_renames_everywhere:
  assumes "ev_Type ev = EvNick" "find_net e (ev_Network ev) = Some n" "net_ok n"
  shows "(\<exists>n'. find_net (fst (commit env ev e)) (ev_Network ev) = Some n'
      \<and> n_Nick n' = (if EqualIRC (n_Nick n) (ev_Nick ev) then ev_NewNick ev else n_Nick n)
      \<and> buffers n' = map (\<lambda>c. case ch_Members c (FoldIRC (ev_Nick ev)) of None \<Rightarrow> c
           | Some m \<Rightarrow> c\<lparr>ch_Members := (ch_Members c)(FoldIRC (ev_Nick ev) := None,
                FoldIRC (ev_NewNick ev) \<mapsto> m\<lparr>m_Nick := ev_NewNick ev\<rparr>)\<rparr>) (buffers n))
    \<and> map headline (printed (snd (commit env ev e)))
      = map (\<lambda>c. (MsgNick, ch_Name c, ev_Nick ev)) (filter (has_member (ev_Nick ev)) (buffers n))"
proof -
  define n0 where "n0 = (if EqualIRC (n_Nick n) (ev_Nick ev) then n\<lparr>n_Nick := ev_NewNick ev\<rparr> else n)"
  let ?t = "touch (ev_Nick ev) (rename_member (ev_Nick ev) (ev_NewNick ev))"
  let ?n = "fold (upd_chan ?t) (n_Channels n) n0"
  have n0: "net_ok n0" "n_Channels n0 = n_Channels n" "n_ID n0 = n_ID n" "buffers n0 = buffers n"
    "n_Nick n0 = (if EqualIRC (n_Nick n) (ev_Nick ev) then ev_NewNick ev else n_Nick n)"
    using assms(3) by (auto simp: n0_def buffers_def chan_at_def)
  have b: "buffers ?n = map ?t (buffers n)"
    using fold_upd_buffers[OF net_okD(1)[OF n0(1)], of ?t] n0 by simp
  define emit where "emit = map (\<lambda>c. line_msg env (n_ID n) MsgNick (ch_Name c) (ev_Nick ev)
                (ev_Nick ev @ '' is now known as '' @ ev_NewNick ev)) (filter (has_member (ev_Nick ev)) (buffers n))"
  have "apply_nick env ev n = (?n, emit, EqualIRC (n_Nick n) (ev_Nick ev) \<or> list_ex (has_member (ev_Nick ev)) (buffers n), False)"
    by (simp only: apply_nick_def Let_def n0_def[symmetric] member_loop_spec[OF net_okD(1)[OF n0(1)]] touch_lines_one
        prod.case n0(2-4) emit_def)
  then have a: "apply_net env h p k ev n = (?n, emit, EqualIRC (n_Nick n) (ev_Nick ev) \<or> list_ex (has_member (ev_Nick ev)) (buffers n), False)"
    for h p k using assms(1) by (simp add: apply_net_def)
  have c: "commit env ev e = commit_state env ev e" using assms(1) by (simp add: commit_def)
  note S = commit_state_spec[OF assms(2) a]
  have "?t = (\<lambda>c. case ch_Members c (FoldIRC (ev_Nick ev)) of None \<Rightarrow> c
           | Some m \<Rightarrow> c\<lparr>ch_Members := (ch_Members c)(FoldIRC (ev_Nick ev) := None,
                FoldIRC (ev_NewNick ev) \<mapsto> m\<lparr>m_Nick := ev_NewNick ev\<rparr>)\<rparr>)"
    by (auto simp: fun_eq_iff touch_def rename_member_def put_member_def drop_member_def split: option.splits)
  moreover have "map headline (printed (snd (commit_state env ev e))) = map headline emit"
    using headline_unnamed[OF S(2)] .
  ultimately show ?thesis using S(1) b n0(5) by (simp add: c emit_def comp_def)
qed

theorem nick_change_renames_everywhere_witness:
  "(\<exists>n'. find_net (fst (commit sample_env ((zero_event EvNick ''libera'')\<lparr>ev_Nick := ''BOB'', ev_NewNick := ''rob''\<rparr>) joined_engine)) ''libera'' = Some n'
      \<and> n_Nick n' = (if EqualIRC (n_Nick sample_net) ''BOB'' then ''rob'' else n_Nick sample_net)
      \<and> buffers n' = map (\<lambda>c. case ch_Members c (FoldIRC ''BOB'') of None \<Rightarrow> c
           | Some m \<Rightarrow> c\<lparr>ch_Members := (ch_Members c)(FoldIRC ''BOB'' := None,
                FoldIRC ''rob'' \<mapsto> m\<lparr>m_Nick := ''rob''\<rparr>)\<rparr>) (buffers sample_net))
    \<and> map headline (printed (snd (commit sample_env ((zero_event EvNick ''libera'')\<lparr>ev_Nick := ''BOB'', ev_NewNick := ''rob''\<rparr>) joined_engine)))
      = map (\<lambda>c. (MsgNick, ch_Name c, ''BOB'')) (filter (has_member ''BOB'') (buffers sample_net))"
  using nick_change_renames_everywhere[of "(zero_event EvNick ''libera'')\<lparr>ev_Nick := ''BOB'', ev_NewNick := ''rob''\<rparr>"
      joined_engine sample_net sample_env]
  by (simp cong: if_cong option.case_cong)

text \<open>
  C25. A disconnect forgets what the dropped connection knew: every channel keeps its place, name and
  topic but has no members, no friend is shown online, the bouncer list is empty, the auto-join gate is
  gone and no lookup of this network is pending, so no later reply is routed by it.\<close>

theorem disconnect_forgets:
  assumes "ev_Type ev = EvDisconnect" "find_net e (ev_Network ev) = Some n" "net_ok n"
  shows "(\<exists>n'. find_net (fst (commit env ev e)) (ev_Network ev) = Some n' \<and> n_State n' = StateDisconnected
      \<and> buffers n' = map (\<lambda>c. c\<lparr>ch_Members := Map.empty\<rparr>) (buffers n)
      \<and> n_MonitorOnline n' = Map.empty \<and> n_Bouncer n' = [] \<and> n_Params n' = n_Params n)
    \<and> e_joinGates (fst (commit env ev e)) (ev_Network ev) = None
    \<and> (\<forall>nick. e_pendingWhois (fst (commit env ev e)) (whoisKey (ev_Network ev) nick) = None)"
proof -
  let ?z = "n\<lparr>n_State := StateDisconnected, n_MonitorOnline := Map.empty, n_Bouncer := []\<rparr>"
  let ?n = "fold (upd_chan clear_members) (n_Channels n) ?z"
  have ok: "net_ok ?z" using assms(3) by simp
  have b: "buffers ?n = map clear_members (buffers n)"
    using fold_upd_buffers[OF net_okD(1)[OF ok], of clear_members] by (simp add: buffers_def chan_at_def)
  obtain emit where a: "apply_net env h p k ev n = (?n, emit, True, False)" for h p k
    using assms(1) by (simp add: apply_net_def apply_disconnect_def Let_def)
  have c: "commit env ev e = commit_state env ev e" using assms(1) by (simp add: commit_def)
  note S = commit_state_spec[OF assms(2) a]
  have "has_prefix (whoisKey (ev_Network ev) nick) (ev_Network ev @ [CHR 0x09])" for nick
    by (simp add: whoisKey_def has_prefix_def)
  then have "e_joinGates (locked_engine ev n e) (ev_Network ev) = None"
    "e_pendingWhois (locked_engine ev n e) (whoisKey (ev_Network ev) nick) = None" for nick
    using assms(1) by (simp_all add: locked_engine_def Let_def drop_lookups_def resetJoinGate_def)
  moreover have "clear_members = (\<lambda>c. c\<lparr>ch_Members := Map.empty\<rparr>)" by (simp add: fun_eq_iff clear_members_def)
  ultimately show ?thesis using S(1,5,6) b by (simp add: c)
qed

theorem disconnect_forgets_witness:
  "(\<exists>n'. find_net (fst (commit sample_env (zero_event EvDisconnect ''libera'') joined_engine)) ''libera'' = Some n'
      \<and> n_State n' = StateDisconnected
      \<and> buffers n' = map (\<lambda>c. c\<lparr>ch_Members := Map.empty\<rparr>) (buffers sample_net)
      \<and> n_MonitorOnline n' = Map.empty \<and> n_Bouncer n' = [] \<and> n_Params n' = n_Params sample_net)
    \<and> e_joinGates (fst (commit sample_env (zero_event EvDisconnect ''libera'') joined_engine)) ''libera'' = None
    \<and> (\<forall>nick. e_pendingWhois (fst (commit sample_env (zero_event EvDisconnect ''libera'') joined_engine)) (whoisKey ''libera'' nick) = None)"
  using disconnect_forgets[of "zero_event EvDisconnect ''libera''" joined_engine sample_net sample_env]
  by (simp cong: if_cong option.case_cong)

end
