(* ===== verification/View_Properties.thy ===== *)
theory View_Properties
  imports Core_Properties "HOL-Library.Multiset"
begin

text \<open>
  Properties of what clients see and edit: snapshots, manual orders, network edits, line ids and the
  channel browser.
\<close>

section \<open>Orders and snapshots\<close>

lemma reordered_mset:
  assumes "distinct (map n_ID ns)"
  shows "mset (map n_ID (reordered ids ns)) = mset (map n_ID ns)"
proof (rule set_eq_iff_mset_eq_distinct[THEN iffD1])
  show "distinct (map n_ID (reordered ids ns))" by (rule reordered_distinct[OF assms])
  show "set (map n_ID (reordered ids ns)) = set (map n_ID ns)" unfolding reordered_ids by auto
qed (rule assms)

text \<open>
  Reordering networks loses and invents none: the ids the user listed come first, in the order of
  their first mention, unknown ids are ignored, the networks not listed follow in their old order,
  every network records its new position, and that is the order saved and announced.\<close>

theorem reorder_networks_permutes:
  assumes "distinct (map n_ID (e_nets e))"
  shows "mset (map n_ID (e_nets (fst (ReorderNetworks ids e)))) = mset (map n_ID (e_nets e))
    \<and> map n_ID (e_nets (fst (ReorderNetworks ids e)))
        = filter (\<lambda>i. i \<in> set (map n_ID (e_nets e))) (firsts ids) @ filter (\<lambda>i. i \<notin> set ids) (map n_ID (e_nets e))
    \<and> map (\<lambda>n. p_Pos (n_Params n)) (e_nets (fst (ReorderNetworks ids e))) = map int [0..<length (e_nets e)]
    \<and> last (snd (ReorderNetworks ids e)) = NetworksReordered (map n_ID (e_nets (fst (ReorderNetworks ids e))))"
proof -
  let ?r = "reordered ids (e_nets e)"
  have nets: "e_nets (fst (ReorderNetworks ids e)) = number_nets 0 ?r" by (rule ReorderNetworks_nets)
  have len: "length ?r = length (e_nets e)"
    using reordered_mset[OF assms, of ids] by (metis length_map size_mset)
  have "map (\<lambda>n. p_Pos (n_Params n)) (number_nets 0 ?r) = map int [0..<length (e_nets e)]"
    by (rule nth_equalityI) (simp_all add: number_nets_spec len)
  moreover have "last (snd (ReorderNetworks ids e)) = NetworksReordered (map n_ID (number_nets 0 ?r))"
    using nets by (simp add: ReorderNetworks_def split_beta Let_def)
  ultimately show ?thesis using reordered_mset[OF assms, of ids] reordered_ids[of ids "e_nets e"]
    by (simp add: nets number_nets_spec(1))
qed

theorem reorder_networks_permutes_witness:
  "mset (map n_ID (e_nets (fst (ReorderNetworks [''oftc'', ''x'', ''oftc''] sample_engine)))) = mset (map n_ID (e_nets sample_engine))
    \<and> map n_ID (e_nets (fst (ReorderNetworks [''oftc'', ''x'', ''oftc''] sample_engine)))
        = filter (\<lambda>i. i \<in> set (map n_ID (e_nets sample_engine))) (firsts [''oftc'', ''x'', ''oftc''])
          @ filter (\<lambda>i. i \<notin> set [''oftc'', ''x'', ''oftc'']) (map n_ID (e_nets sample_engine))
    \<and> map (\<lambda>n. p_Pos (n_Params n)) (e_nets (fst (ReorderNetworks [''oftc'', ''x'', ''oftc''] sample_engine)))
        = map int [0..<length (e_nets sample_engine)]
    \<and> last (snd (ReorderNetworks [''oftc'', ''x'', ''oftc''] sample_engine))
        = NetworksReordered (map n_ID (e_nets (fst (ReorderNetworks [''oftc'', ''x'', ''oftc''] sample_engine))))"
  by (rule reorder_networks_permutes) (simp add: sample_engine_ids)

lemma find_unique_mset:
  assumes "distinct (map f xs)" "mset xs = mset ys"
  shows "find (\<lambda>x. f x = k) ys = find (\<lambda>x. f x = k) xs"
proof (cases "find (\<lambda>x. f x = k) xs")
  case None
  then have "find (\<lambda>x. f x = k) ys = None" using mset_eq_setD[OF assms(2)] by (simp add: find_None_iff)
  then show ?thesis using None by simp
next
  case (Some x)
  then have "f x = k" "x \<in> set ys" using find_SomeD[OF Some] mset_eq_setD[OF assms(2)] by auto
  moreover have "distinct (map f ys)" using assms by (metis distinct_map mset_eq_imp_distinct_iff mset_eq_setD)
  ultimately show ?thesis using find_unique_key[of f ys x] Some by simp
qed

lemma buffers_clone [simp]: "buffers (clone_network n) = buffers n"
  by (rule nth_equalityI) (simp_all add: clone_network_def buffers_def chan_at_def)

lemma clone_ok:
  assumes "table_ok n"
  shows "table_ok (clone_network n)"
proof (rule table_okI)
  have at: "fold_at (clone_network n) a = FoldIRC (ch_Name (buffers n ! a))" for a
    by (simp add: fold_at_def chan_at_def clone_network_def)
  have fm: "map (fold_at (clone_network n)) [0..<length (n_Channels n)] = map (fold_at n) (n_Channels n)"
    by (rule nth_equalityI) (simp_all add: at, simp_all add: buffers_def fold_at_def)
  show "distinct (map (fold_at (clone_network n)) (n_Channels (clone_network n)))"
    using table_okD(3)[OF assms] fm by (simp add: clone_network_def)
  show "m f = find (\<lambda>a. fold_at (clone_network n) a = f) (n_Channels (clone_network n))"
    if "n_byFold (clone_network n) = Some m" for m f
  proof -
    have d: "distinct (map (\<lambda>a. FoldIRC (ch_Name (buffers n ! a))) [0..<length (n_Channels n)])"
      using table_okD(3)[OF assms] fm by (simp add: at[abs_def])
    have m: "m = index_channels (buffers n) [0..<length (n_Channels n)] Map.empty" using that by (simp add: clone_network_def)
    show ?thesis unfolding m index_channels_spec[OF d] at
      by (simp add: clone_network_def split: option.splits)
  qed
qed (simp_all add: clone_network_def buffers_def)

lemma sort_key_map: "map f (sort_key (\<lambda>a. g (f a)) xs) = sort_key g (map f xs)"
proof -
  have "map f (insort_key (\<lambda>a. g (f a)) x xs) = insort_key g (f x) (map f xs)" for x xs
    by (induction xs) auto
  then show ?thesis by (induction xs) (simp_all add: sort_key_def)
qed

text \<open>Ordering a snapshot is a stable sort of its buffers by their rank in the manual order.\<close>

lemma orderChannels_spec:
  "buffers (orderChannels n) = sort_key (buffer_pos (p_BufferOrder (n_Params n))) (buffers n)"
proof -
  consider "p_BufferOrder (n_Params n) = []" | "length (n_Channels n) < 2"
    | "p_BufferOrder (n_Params n) \<noteq> []" "\<not> length (n_Channels n) < 2" by linarith
  then show ?thesis
  proof cases
    case 1
    have "sort_key (\<lambda>c. 0::nat) xs = xs" for xs :: "channel list" by (rule sort_key_const)
    moreover have "buffer_pos [] = (\<lambda>c. 0)" by (simp add: fun_eq_iff buffer_pos_def)
    ultimately show ?thesis using 1 by (simp add: orderChannels_def)
  next
    case 2
    then have "n_Channels n = [] \<or> (\<exists>a. n_Channels n = [a])" by (cases "n_Channels n"; cases "tl (n_Channels n)") auto
    then show ?thesis using 2 by (auto simp: orderChannels_def Let_def buffers_def)
  next
    case 3
    then have "orderChannels n = n\<lparr>n_Channels := sort_key (\<lambda>a. buffer_pos (p_BufferOrder (n_Params n)) (chan_at n a)) (n_Channels n)\<rparr>"
      by (simp add: orderChannels_def)
    then show ?thesis
      by (simp add: buffers_def chan_at_def[of "n\<lparr>n_Channels := _\<rparr>", abs_def] sort_key_map[symmetric])
         (simp add: chan_at_def)
  qed
qed

lemma orderChannels_ok:
  assumes "table_ok n"
  shows "table_ok (orderChannels n)"
proof (cases "p_BufferOrder (n_Params n) = [] \<or> length (n_Channels n) < 2")
  case False
  let ?s = "sort_key (\<lambda>a. buffer_pos (p_BufferOrder (n_Params n)) (chan_at n a)) (n_Channels n)"
  have n': "orderChannels n = n\<lparr>n_Channels := ?s\<rparr>" using False by (simp add: orderChannels_def)
  have fa: "fold_at (n\<lparr>n_Channels := ?s\<rparr>) = fold_at n" by (simp add: fun_eq_iff fold_at_def chan_at_def)
  note D = table_okD[OF assms]
  have "distinct (map (fold_at n) ?s)" using D(1,3) by (simp add: distinct_map)
  moreover have "find (\<lambda>a. fold_at n a = f) ?s = find (\<lambda>a. fold_at n a = f) (n_Channels n)" for f
    by (rule find_unique_mset[OF D(3)]) simp
  ultimately show ?thesis using D unfolding n' by (intro table_okI) (simp_all add: fa)
qed (auto simp: orderChannels_def Let_def assms)

text \<open>
  A snapshot shows every buffer once: its buffers are those of the live network, each with its
  state, sorted stably by the user's manual order (buffers the order does not name come last in their
  live order), its index is coherent, and its parameters are the live ones.\<close>

theorem snapshot_shows_every_buffer:
  assumes "find_net e ident = Some n" "table_ok n"
  shows "\<exists>nc. SnapshotNetwork env ident e = Some nc \<and> table_ok nc \<and> n_Params nc = n_Params n \<and> n_Nick nc = n_Nick n
    \<and> mset (buffers nc) = mset (buffers n)
    \<and> sorted (map (buffer_pos (p_BufferOrder (n_Params n))) (buffers nc))
    \<and> (\<forall>k. filter (\<lambda>c. buffer_pos (p_BufferOrder (n_Params n)) c = k) (buffers nc)
          = filter (\<lambda>c. buffer_pos (p_BufferOrder (n_Params n)) c = k) (buffers n))"
proof -
  define cl where "cl = (case e_conns e ident of Some c \<Rightarrow> (clone_network n)\<lparr>n_Caps := env_caps env c\<rparr> | None \<Rightarrow> clone_network n)"
  have caps: "table_ok (x\<lparr>n_Caps := cs\<rparr>) = table_ok x" "buffers (x\<lparr>n_Caps := cs\<rparr>) = buffers x" for x cs
    by (simp_all add: table_ok_def buffers_def fold_at_def[abs_def] chan_at_def[abs_def] cong: option.case_cong)
  have cl: "table_ok cl" "buffers cl = buffers n" "n_Params cl = n_Params n" "n_Nick cl = n_Nick n"
    using clone_ok[OF assms(2)] buffers_clone[of n]
    by (auto simp: cl_def caps clone_network_def[of n, THEN arg_cong[where f = n_Params]]
        clone_network_def[of n, THEN arg_cong[where f = n_Nick]] split: option.splits)
  have s: "SnapshotNetwork env ident e = Some (orderChannels cl)"
    using assms(1) by (simp add: SnapshotNetwork_def cl_def Let_def cong: option.case_cong)
  have "n_Params (orderChannels cl) = n_Params n" "n_Nick (orderChannels cl) = n_Nick n"
    using cl by (simp_all add: orderChannels_def Let_def)
  then show ?thesis using s cl orderChannels_ok[OF cl(1)] orderChannels_spec[of cl]
    by (intro exI[of _ "orderChannels cl"]) (simp add: sort_key_stable)
qed

theorem snapshot_shows_every_buffer_witness:
  "\<exists>nc. SnapshotNetwork sample_env ''libera'' joined_engine = Some nc \<and> table_ok nc \<and> n_Params nc = n_Params sample_net
    \<and> n_Nick nc = n_Nick sample_net \<and> mset (buffers nc) = mset (buffers sample_net)
    \<and> sorted (map (buffer_pos (p_BufferOrder (n_Params sample_net))) (buffers nc))
    \<and> (\<forall>k. filter (\<lambda>c. buffer_pos (p_BufferOrder (n_Params sample_net)) c = k) (buffers nc)
          = filter (\<lambda>c. buffer_pos (p_BufferOrder (n_Params sample_net)) c = k) (buffers sample_net))"
  by (rule snapshot_shows_every_buffer) (simp_all add: net_okD)

end
