(* ===== verification/Core_Bouncer.thy ===== *)
theory Core_Bouncer
  imports Core_Loop
begin

text \<open>
  Model of \<^verbatim>\<open>internal/core/bouncer.go\<close>: the attribute lists of soju's \<^verbatim>\<open>BOUNCER\<close> lines and the operations that
  add, delete and open the networks of a bouncer. What \<open>BouncerAdd\<close> writes is read back by
  \<open>ParseBouncerAttrs\<close> as the network that was asked for, whatever characters its fields hold.
\<close>

section \<open>Escaping\<close>

text \<open>The two \<^verbatim>\<open>strings.NewReplacer\<close> tables: replacements are made from left to right without overlap.\<close>

definition escape_byte :: "char \<Rightarrow> string" where
  "escape_byte c =
     (if c = CHR 0x5C then [CHR 0x5C, CHR 0x5C] else if c = CHR '';'' then [CHR 0x5C, CHR '':'']
      else if c = CHR '' '' then [CHR 0x5C, CHR ''s''] else if c = CHR 0x0D then [CHR 0x5C, CHR ''r'']
      else if c = CHR 0x0A then [CHR 0x5C, CHR ''n''] else [c])"

definition escapeBouncerValue :: "string \<Rightarrow> string" where
  "escapeBouncerValue s = concat (map escape_byte s)"

definition unescape_pair :: "char \<Rightarrow> char option" where
  "unescape_pair d =
     (if d = CHR '':'' then Some CHR '';'' else if d = CHR ''s'' then Some CHR '' ''
      else if d = CHR 0x5C then Some CHR 0x5C else if d = CHR ''r'' then Some CHR 0x0D
      else if d = CHR ''n'' then Some CHR 0x0A else None)"

fun unescapeBouncerValue :: "string \<Rightarrow> string" where
  "unescapeBouncerValue (c # d # s) =
     (if c = CHR 0x5C
      then (case unescape_pair d of
          Some x \<Rightarrow> x # unescapeBouncerValue s
        | None \<Rightarrow> c # unescapeBouncerValue (d # s))
      else c # unescapeBouncerValue (d # s))"
| "unescapeBouncerValue s = s"

section \<open>Attribute lists\<close>

text \<open>
  The value \<^verbatim>\<open>strconv.Atoi\<close> returns beside its error: 0 on a syntax error, the nearest value when out of
  range, which is noticed before the rest of the text is read.
\<close>

fun scan_uint :: "nat \<Rightarrow> string \<Rightarrow> nat option" where
  "scan_uint acc [] = Some acc"
| "scan_uint acc (c # cs) =
     (if \<not> is_digit c then None
      else (let v = 10 * acc + (of_char c - 48)
            in if 2 ^ 64 \<le> v then Some (2 ^ 64 - 1) else scan_uint v cs))"

definition atoi_value :: "string \<Rightarrow> int" where
  "atoi_value s =
     (let neg = has_prefix s ''-'';
          ds = (if neg \<or> has_prefix s ''+'' then tl s else s)
      in if ds = [] then 0
         else (case scan_uint 0 ds of
             None \<Rightarrow> 0
           | Some n \<Rightarrow> if neg then - min (int n) (2 ^ 63) else min (int n) (2 ^ 63 - 1)))"

definition set_attr :: "string \<Rightarrow> string \<Rightarrow> bouncerNetwork \<Rightarrow> bouncerNetwork" where
  "set_attr k v b =
     (if k = ''name'' then b\<lparr>b_Name := v\<rparr>
      else if k = ''host'' then b\<lparr>b_Host := v\<rparr>
      else if k = ''port'' then b\<lparr>b_Port := atoi_value v\<rparr>
      else if k = ''tls'' then b\<lparr>b_TLS := (v = ''1'')\<rparr>
      else if k = ''nickname'' then b\<lparr>b_Nick := v\<rparr>
      else if k = ''state'' then b\<lparr>b_State := v\<rparr>
      else if k = ''error'' then b\<lparr>b_Error := v\<rparr>
      else b)"

definition parse_attr :: "string \<Rightarrow> bouncerNetwork \<Rightarrow> bouncerNetwork" where
  "parse_attr kv b = (let (k, v, _) = str_cut kv CHR ''='' in set_attr k (unescapeBouncerValue v) b)"

definition zero_bouncer :: "string \<Rightarrow> bouncerNetwork" where
  "zero_bouncer ident = \<lparr>b_ID = ident, b_Name = [], b_Host = [], b_Port = 0, b_TLS = False, b_Nick = [],
     b_State = [], b_Error = []\<rparr>"

definition ParseBouncerAttrs :: "string \<Rightarrow> string \<Rightarrow> bouncerNetwork \<times> string list" where
  "ParseBouncerAttrs ident attrs =
     (let kvs = split_on attrs CHR '';''
      in (fold parse_attr kvs (zero_bouncer ident), map (\<lambda>kv. fst (str_cut kv CHR ''='')) kvs))"

definition bouncer_attr :: "string \<Rightarrow> string \<Rightarrow> string" where
  "bouncer_attr k v = (if v = [] then [] else '';'' @ k @ ''='' @ escapeBouncerValue v)"

definition bouncer_attrs :: "bouncerNetwork \<Rightarrow> string \<Rightarrow> string" where
  "bouncer_attrs b pass =
     ''host='' @ escapeBouncerValue (trim_space (b_Host b))
     @ bouncer_attr ''name'' (trim_space (b_Name b))
     @ (if 0 < b_Port b then '';port='' @ format_uint (nat (b_Port b)) else [])
     @ (if b_TLS b then '';tls=1'' else '';tls=0'')
     @ bouncer_attr ''nickname'' (trim_space (b_Nick b))
     @ bouncer_attr ''pass'' pass"

section \<open>Operations\<close>

definition capBouncerNetworks :: string where "capBouncerNetworks = ''soju.im/bouncer-networks''"

definition errNoBouncer :: string where
  "errNoBouncer = ''this network is not a bouncer control connection (log in without a /network suffix to manage networks)''"

definition bouncerConn :: "env \<Rightarrow> string \<Rightarrow> engine \<Rightarrow> string + nat" where
  "bouncerConn env net e =
     (case e_conns e net of
        None \<Rightarrow> Inl ''unknown network''
      | Some c \<Rightarrow> if capBouncerNetworks \<in> set (env_caps env c) then Inr c else Inl errNoBouncer)"

text \<open>A command, then the list again if it was sent.\<close>

definition then_list :: "env \<Rightarrow> nat \<Rightarrow> string \<Rightarrow> string option \<times> effect list" where
  "then_list env c line =
     (case env_send env c line of
        Some err \<Rightarrow> (Some err, [SendRaw c line])
      | None \<Rightarrow> (env_send env c ''BOUNCER LISTNETWORKS'', [SendRaw c line, SendRaw c ''BOUNCER LISTNETWORKS'']))"

definition BouncerAdd :: "env \<Rightarrow> string \<Rightarrow> bouncerNetwork \<Rightarrow> string \<Rightarrow> engine \<Rightarrow> string option \<times> effect list" where
  "BouncerAdd env net b pass e =
     (case bouncerConn env net e of
        Inl err \<Rightarrow> (Some err, [])
      | Inr c \<Rightarrow>
          if trim_space (b_Host b) = [] then (Some ''a host is required'', [])
          else then_list env c (''BOUNCER ADDNETWORK '' @ bouncer_attrs b pass))"

definition bouncer_network :: "string \<Rightarrow> string \<Rightarrow> engine \<Rightarrow> bouncerNetwork option" where
  "bouncer_network net ident e =
     (case find_net e net of None \<Rightarrow> None | Some n \<Rightarrow> find (\<lambda>b. b_ID b = ident) (n_Bouncer n))"

definition BouncerDelete :: "env \<Rightarrow> string \<Rightarrow> string \<Rightarrow> engine \<Rightarrow> string option \<times> effect list" where
  "BouncerDelete env net ident e =
     (case bouncerConn env net e of
        Inl err \<Rightarrow> (Some err, [])
      | Inr c \<Rightarrow>
          if bouncer_network net ident e = None then (Some ''unknown bouncer network'', [])
          else then_list env c (''BOUNCER DELNETWORK '' @ ident))"

text \<open>The login of a bound network: the user without a network suffix, the network, then the client suffix.\<close>

definition bound_login :: "string \<Rightarrow> string \<Rightarrow> string" where
  "bound_login sasl name =
     (let (user, client) = (case index_byte sasl CHR ''@'' of Some i \<Rightarrow> (take i sasl, drop i sasl) | None \<Rightarrow> (sasl, []));
          user = (case index_byte user CHR ''/'' of Some i \<Rightarrow> take i user | None \<Rightarrow> user)
      in user @ ''/'' @ name @ client)"

definition bound_params :: "string \<Rightarrow> bouncerNetwork \<Rightarrow> networkParams \<Rightarrow> networkParams" where
  "bound_params net b p =
     p\<lparr>p_ID := net @ ''-'' @ b_Name b, p_Name := net @ ''-'' @ b_Name b,
       p_SASLUser := bound_login (p_SASLUser p) (b_Name b),
       p_Channels := [], p_ChannelKeys := [], p_Perform := [], p_Monitor := [], p_BufferOrder := [], p_Pos := 0\<rparr>"

text \<open>\<^verbatim>\<open>errNetworkExists\<close> is the only error \<open>AddNetworkLive\<close> gives with this text for an id that is taken.\<close>

definition BouncerOpen :: "env \<Rightarrow> string \<Rightarrow> string \<Rightarrow> engine \<Rightarrow> outcome" where
  "BouncerOpen env net ident e =
     (case bouncer_network net ident e of
        None \<Rightarrow> (Some ''unknown bouncer network'', e, [])
      | Some b \<Rightarrow>
          (case NetworkConfig net e of
             None \<Rightarrow> (Some ''unknown network'', e, [])
           | Some p \<Rightarrow>
               if b_Name b = [] \<or> p_SASLUser p = []
               then (Some ''opening a bouncer network needs a SASL login on the control network and a named upstream'', e, [])
               else (let np = bound_params net b p; (err, e', out) = AddNetworkLive env np e in
                     if err = Some ''network already exists'' \<and> find_net e (p_ID np) \<noteq> None
                     then (Some (env_quote env (p_ID np) @ '' is already open''), e', out)
                     else (err, e', out))))"

section \<open>Reading back what was written\<close>

lemma unescape_byte_append [simp]: "unescapeBouncerValue (escape_byte c @ s) = c # unescapeBouncerValue s"
  by (cases s) (simp_all add: escape_byte_def unescape_pair_def)

lemma unescape_escape [simp]: "unescapeBouncerValue (escapeBouncerValue s) = s"
  by (induction s) (simp_all add: escapeBouncerValue_def)

lemma escape_clean: "c \<in> set (escapeBouncerValue s) \<Longrightarrow> c \<notin> set [CHR '';'', CHR '' '', CHR 0x0D, CHR 0x0A]"
  by (auto simp: escapeBouncerValue_def escape_byte_def split: if_splits)

lemma escape_empty [simp]: "escapeBouncerValue s = [] \<longleftrightarrow> s = []"
  by (cases s) (auto simp: escapeBouncerValue_def escape_byte_def)

lemma unescape_plain: "CHR 0x5C \<notin> set s \<Longrightarrow> unescapeBouncerValue s = s"
  by (induction s rule: unescapeBouncerValue.induct) auto

lemma scan_digits: "digits_value acc s = Some n \<Longrightarrow> n < 2 ^ 64 \<Longrightarrow> scan_uint acc s = Some n"
proof (induction s arbitrary: acc)
  case (Cons c cs)
  have grows: "digits_value acc s = Some n \<Longrightarrow> acc \<le> n" for acc s n
    by (induction s arbitrary: acc) (fastforce split: if_splits)+
  show ?case using Cons grows[of "10 * acc + (of_char c - 48)" cs n] by (auto simp: Let_def split: if_splits)
qed simp

lemma atoi_format: "0 \<le> p \<Longrightarrow> p < 2 ^ 63 \<Longrightarrow> atoi_value (format_uint (nat p)) = p"
proof -
  assume p: "0 \<le> p" "p < 2 ^ 63"
  have d: "\<forall>c\<in>set (format_uint (nat p)). is_digit c" by (simp add: format_uint_digits)
  then have "\<not> has_prefix (format_uint (nat p)) ''-''" "\<not> has_prefix (format_uint (nat p)) ''+''"
    by (cases "format_uint (nat p)"; force simp: has_prefix_def is_digit_def)+
  moreover have "scan_uint 0 (format_uint (nat p)) = Some (nat p)"
    using p by (intro scan_digits digits_value_format_uint) (simp add: nat_less_iff)
  ultimately show ?thesis using p by (simp add: atoi_value_def)
qed

text \<open>The list as its attributes, each a key and an escaped value.\<close>

definition attr_pairs :: "bouncerNetwork \<Rightarrow> string \<Rightarrow> (string \<times> string) list" where
  "attr_pairs b pass =
     (''host'', trim_space (b_Host b))
     # (if trim_space (b_Name b) = [] then [] else [(''name'', trim_space (b_Name b))])
     @ (if 0 < b_Port b then [(''port'', format_uint (nat (b_Port b)))] else [])
     @ [(''tls'', if b_TLS b then ''1'' else ''0'')]
     @ (if trim_space (b_Nick b) = [] then [] else [(''nickname'', trim_space (b_Nick b))])
     @ (if pass = [] then [] else [(''pass'', pass)])"

definition render_attr :: "string \<times> string \<Rightarrow> string" where
  "render_attr kv = fst kv @ ''='' @ escapeBouncerValue (snd kv)"

lemma escape_digits: "\<forall>c\<in>set s. is_digit c \<Longrightarrow> escapeBouncerValue s = s"
  by (induction s) (auto simp: escapeBouncerValue_def escape_byte_def is_digit_def)

lemma escape_format [simp]: "escapeBouncerValue (format_uint n) = format_uint n"
  by (rule escape_digits) (simp add: format_uint_digits)

lemma attrs_rendered: "bouncer_attrs b pass = join_with (map render_attr (attr_pairs b pass)) '';''"
  by (simp add: bouncer_attrs_def attr_pairs_def bouncer_attr_def render_attr_def escape_digits is_digit_def)

lemma attr_keys: "kv \<in> set (attr_pairs b pass) \<Longrightarrow> fst kv \<in> {''host'', ''name'', ''port'', ''tls'', ''nickname'', ''pass''}"
  by (auto simp: attr_pairs_def split: if_splits)

lemma render_clean:
  "kv \<in> set (attr_pairs b pass) \<Longrightarrow> c \<in> set (render_attr kv) \<Longrightarrow> c \<notin> set [CHR '';'', CHR '' '', CHR 0x0D, CHR 0x0A]"
  using attr_keys[of kv b pass] escape_clean[of c "snd kv"] by (auto simp: render_attr_def)

lemma render_cut: "kv \<in> set (attr_pairs b pass) \<Longrightarrow> str_cut (render_attr kv) CHR ''='' = (fst kv, escapeBouncerValue (snd kv), True)"
proof -
  assume "kv \<in> set (attr_pairs b pass)"
  then have "CHR ''='' \<notin> set (fst kv)" using attr_keys[of kv b pass] by auto
  then show ?thesis unfolding render_attr_def append.simps(2)[of _ "[]", unfolded append.simps(1)] by simp
qed

lemma attrs_split: "split_on (bouncer_attrs b pass) CHR '';'' = map render_attr (attr_pairs b pass)"
proof -
  have "\<forall>p\<in>set (map render_attr (attr_pairs b pass)). CHR '';'' \<notin> set p"
    using render_clean[of _ b pass "CHR '';''"] by auto
  then show ?thesis unfolding attrs_rendered by (intro split_join) (simp_all add: attr_pairs_def)
qed

lemma parse_pairs:
  "set kvs \<subseteq> set (attr_pairs b pass) \<Longrightarrow>
     fold parse_attr (map render_attr kvs) x = fold (\<lambda>kv. set_attr (fst kv) (snd kv)) kvs x"
  by (induction kvs arbitrary: x) (simp_all add: parse_attr_def render_cut[of _ b pass])

lemma ParseBouncerAttrs_attrs:
  assumes "b_Port b < 2 ^ 63"
  shows "ParseBouncerAttrs ident (bouncer_attrs b pass)
    = (\<lparr>b_ID = ident, b_Name = trim_space (b_Name b), b_Host = trim_space (b_Host b), b_Port = max 0 (b_Port b),
        b_TLS = b_TLS b, b_Nick = trim_space (b_Nick b), b_State = [], b_Error = []\<rparr>, map fst (attr_pairs b pass))"
proof -
  have "map (\<lambda>kv. fst (str_cut kv CHR ''='')) (map render_attr (attr_pairs b pass)) = map fst (attr_pairs b pass)"
    by (simp add: render_cut)
  moreover have "fold parse_attr (map render_attr (attr_pairs b pass)) (zero_bouncer ident)
    = \<lparr>b_ID = ident, b_Name = trim_space (b_Name b), b_Host = trim_space (b_Host b), b_Port = max 0 (b_Port b),
        b_TLS = b_TLS b, b_Nick = trim_space (b_Nick b), b_State = [], b_Error = []\<rparr>"
    unfolding parse_pairs[OF order_refl]
    using assms by (simp add: attr_pairs_def set_attr_def zero_bouncer_def atoi_format max_def)
  ultimately show ?thesis unfolding ParseBouncerAttrs_def Let_def attrs_split by simp
qed

lemma set_join_with: "set (join_with ps sep) \<subseteq> \<Union> (set ` set ps) \<union> set sep"
  by (induction ps sep rule: join_with.induct) auto

lemma attrs_one_word: "set (bouncer_attrs b pass) \<inter> {CHR '' '', CHR 0x0D, CHR 0x0A} = {}"
  using render_clean[of _ b pass] set_join_with[of "map render_attr (attr_pairs b pass)" "'';''"]
  unfolding attrs_rendered by fastforce

end
