(* ===== verification/Join_Properties.thy ===== *)
theory Join_Properties
  imports Core_Properties
begin

text \<open>
  Properties of joining: what our own joins and parts remember for the next connect, and the gate
  that holds the automatic joins back until a plugin has authenticated.
\<close>

section \<open>Our own joins and parts\<close>

lemma buffers_params [simp]: "buffers (n\<lparr>n_Params := p\<rparr>) = buffers n"
  by (simp add: buffers_def chan_at_def)

lemma buffer_of_at:
  "table_ok n \<Longrightarrow> a \<in> set (n_Channels n) \<Longrightarrow> fold_at n a = FoldIRC name \<Longrightarrow> buffer_of n name = Some (chan_at n a)"
  by (rule bt.lookup_in_view) (auto simp: buffers_def fold_at_def)

lemma open_buffer_fold:
  assumes "net_ok n" "open_buffer pending name kind n = (n', a, created)"
  shows "fold_at n' a = FoldIRC name"
proof -
  obtain n1 where g: "getOrCreate n name kind = (n1, a, created)"
    and n': "n' = (if created then applyPendingState pending a n1 else n1)"
    using assms(2) by (auto simp: open_buffer_def Let_def split: prod.splits)
  note G = getOrCreate_net_ok[OF assms(1) g]
  have "fold_at (upd_chan (\<lambda>c. c\<lparr>ch_State := st\<rparr>) a n1) = fold_at n1" for st
    using table_okD(2)[OF net_okD(1)[OF G(1)] G(2)] by (intro fold_at_upd) simp_all
  then show ?thesis using G(3) n' by (simp add: applyPendingState_def Let_def)
qed

text \<open>
  When the server confirms our own join, we are a member of the channel's buffer, the channel is
  in the auto-join list exactly once, its key is the one the user gave with the join (or the one stored
  before), the pending key is used up, and the parameters are saved exactly when they changed.\<close>

theorem self_join_is_remembered:
  assumes ty: "ev_Type ev = EvJoin" and fn: "find_net e (ev_Network ev) = Some n" and ok: "net_ok n"
    and aj: "autojoin_ok (n_Params n)" and self: "EqualIRC (ev_Nick ev) (n_Nick n)" and ch: "isChannelName (ev_Buffer ev)"
  shows "\<exists>n' c. find_net (fst (commit env ev e)) (ev_Network ev) = Some n'
      \<and> buffer_of n' (ev_Buffer ev) = Some c \<and> has_member (ev_Nick ev) c
      \<and> autojoin_ok (n_Params n') \<and> (\<exists>x\<in>set (p_Channels (n_Params n')). EqualIRC x (ev_Buffer ev))
      \<and> lookupChannelKey (n_Params n') (ev_Buffer ev)
          = (case e_pendingKeys e (whoisKey (ev_Network ev) (ev_Buffer ev)) of
               Some k \<Rightarrow> if k = [] then None else Some k
             | None \<Rightarrow> lookupChannelKey (n_Params n) (ev_Buffer ev))
      \<and> e_pendingKeys (fst (commit env ev e)) (whoisKey (ev_Network ev) (ev_Buffer ev)) = None
      \<and> saved (snd (commit env ev e)) = (if n_Params n' \<noteq> n_Params n \<and> e_netStore e then [n_Params n'] else [])"
proof -
  define key where "key = e_pendingKeys e (whoisKey (ev_Network ev) (ev_Buffer ev))"
  define pend where "pend = e_pendingState e (ev_Network ev)"
  obtain n1 a cr where ob: "open_buffer pend (ev_Buffer ev) KindChannel n = (n1, a, cr)" by (metis prod_cases3)
  note O = open_buffer_ok[OF ok ob] open_buffer_fold[OF ok ob]
  have f1: "n_ID n1 = n_ID n" "n_Nick n1 = n_Nick n" "n_Params n1 = n_Params n"
    using open_buffer_fields[of pend "ev_Buffer ev" KindChannel n] ob by simp_all
  define m where "m = \<lparr>m_Nick = ev_Nick ev, m_Account = ev_Account ev, m_Modes = [], m_Away = False\<rparr>"
  define n2 where "n2 = upd_chan (put_member m) a n1"
  obtain p chg where ad: "addAutojoin (n_Params n) (ev_Buffer ev) (case key of Some k \<Rightarrow> k | None \<Rightarrow> []) (key \<noteq> None) = (p, chg)"
    by fastforce
  define n' where "n' = n2\<lparr>n_Params := p\<rparr>"
  have lk: "locked_key ev n e = key" using ty self by (simp add: locked_key_def key_def)
  have a: "apply_net env (e_highlight e) (e_pendingState e (ev_Network ev)) (locked_key ev n e) ev n
      = (n', [line_msg env (n_ID n) MsgJoin (ev_Buffer ev) (ev_Nick ev) (ev_Nick ev @ '' has joined '' @ ev_Buffer ev)], True, chg)"
    using ty self ob ad f1 by (simp add: apply_net_def lk apply_join_def Let_def pend_def n'_def n2_def m_def)
  have lt: "a < length (n_store n1)" by (rule table_okD(2)[OF net_okD(1)[OF O(1)] O(2)])
  have n2: "net_ok n2" using O by (simp add: n2_def upd_ok)
  have at: "chan_at n2 a = put_member m (chan_at n1 a)" "fold_at n2 a = FoldIRC (ev_Buffer ev)"
    using lt O(3) by (simp_all add: n2_def chan_at_upd fold_at_upd)
  have "buffer_of n' (ev_Buffer ev) = Some (put_member m (chan_at n1 a))"
    using buffer_of_at[of n' a "ev_Buffer ev"] n2 at O(2)
    by (simp add: n'_def net_okD n2_def) (simp add: chan_at_def fold_at_def net_ok_def table_ok_def)
  moreover have "has_member (ev_Nick ev) (put_member m (chan_at n1 a))" by (simp add: has_member_def put_member_def m_def)
  moreover have "e_pendingKeys (locked_engine ev n e) (whoisKey (ev_Network ev) (ev_Buffer ev)) = None"
    using ty self by (simp add: locked_engine_def)
  moreover note commit_state_spec(1,3,4)[OF fn a] addAutojoin_ok[OF aj ch ad]
  moreover have "commit env ev e = commit_state env ev e" using ty by (simp add: commit_def)
  moreover have "n_Params n' = p" by (simp add: n'_def)
  ultimately show ?thesis by (intro exI[of _ n'] exI[of _ "put_member m (chan_at n1 a)"]) (auto simp: key_def split: option.splits)
qed

theorem self_join_is_remembered_witness:
  "\<exists>n' c. find_net (fst (commit sample_env (join_event ''bob'' ''#GO'') sample_engine)) ''libera'' = Some n'
      \<and> buffer_of n' ''#GO'' = Some c \<and> has_member ''bob'' c
      \<and> autojoin_ok (n_Params n') \<and> (\<exists>x\<in>set (p_Channels (n_Params n')). EqualIRC x ''#GO'')
      \<and> lookupChannelKey (n_Params n') ''#GO''
          = (case e_pendingKeys sample_engine (whoisKey ''libera'' ''#GO'') of
               Some k \<Rightarrow> if k = [] then None else Some k
             | None \<Rightarrow> lookupChannelKey sample_params ''#GO'')
      \<and> e_pendingKeys (fst (commit sample_env (join_event ''bob'' ''#GO'') sample_engine)) (whoisKey ''libera'' ''#GO'') = None
      \<and> saved (snd (commit sample_env (join_event ''bob'' ''#GO'') sample_engine))
          = (if n_Params n' \<noteq> sample_params \<and> e_netStore sample_engine then [n_Params n'] else [])"
proof -
  have f: "find_net sample_engine ''libera'' = Some (new_network sample_params)"
    by (simp add: sample_engine_def AddNetwork_def empty_engine_def New_engine_def find_net_def new_network_def sample_params_def)
  have p: "n_Params (new_network sample_params) = sample_params" "n_Nick (new_network sample_params) = ''bob''"
    by (simp_all add: new_network_def sample_params_def)
  have "autojoin_ok sample_params" "isChannelName ''#GO''" by code_simp+
  then show ?thesis
    using self_join_is_remembered[of "join_event ''bob'' ''#GO''" sample_engine "new_network sample_params" sample_env] f
    by (simp add: p join_event_def cong: option.case_cong if_cong del: if_split)
qed

text \<open>
  Our own part drops the channel's buffer and nothing else of the network's buffers, and takes the
  channel and its key out of the auto-join list; the parameters are saved exactly when they
  changed.\<close>

theorem self_part_is_forgotten:
  assumes ty: "ev_Type ev = EvPart" and fn: "find_net e (ev_Network ev) = Some n" and ok: "net_ok n"
    and aj: "autojoin_ok (n_Params n)" and self: "EqualIRC (ev_Nick ev) (n_Nick n)"
  shows "\<exists>n'. find_net (fst (commit env ev e)) (ev_Network ev) = Some n'
      \<and> buffers n' = filter (\<lambda>c. \<not> EqualIRC (ch_Name c) (ev_Buffer ev)) (buffers n)
      \<and> p_Channels (n_Params n') = filter (\<lambda>c. \<not> EqualIRC c (ev_Buffer ev)) (p_Channels (n_Params n))
      \<and> lookupChannelKey (n_Params n') (ev_Buffer ev) = None \<and> autojoin_ok (n_Params n')
      \<and> saved (snd (commit env ev e)) = (if n_Params n' \<noteq> n_Params n \<and> e_netStore e then [n_Params n'] else [])"
proof -
  obtain p chg where rm: "removeAutojoin (n_Params n) (ev_Buffer ev) = (p, chg)" by fastforce
  define n' where "n' = (remove_buffer n (ev_Buffer ev))\<lparr>n_Params := p\<rparr>"
  obtain emit where a: "apply_net env h pd k ev n = (n', emit, True, chg)" for h pd k
    using ty self rm by (simp add: apply_net_def apply_part_def Let_def n'_def)
  note S = commit_state_spec(1,3)[OF fn a]
  have "buffers n' = filter (\<lambda>c. \<not> EqualIRC (ch_Name c) (ev_Buffer ev)) (buffers n)"
    using bt.view_del[OF net_okD(1)[OF ok], of "ev_Buffer ev"]
    by (simp add: n'_def EqualIRC_def)
  moreover have "commit env ev e = commit_state env ev e" using ty by (simp add: commit_def)
  moreover have "n_Params n' = p" by (simp add: n'_def)
  moreover note S removeAutojoin_ok[OF aj rm]
  ultimately show ?thesis by (intro exI[of _ n']) auto
qed

theorem self_part_is_forgotten_witness:
  "\<exists>n'. find_net (fst (commit sample_env ((zero_event EvPart ''libera'')\<lparr>ev_Nick := ''bob'', ev_Buffer := ''#GO''\<rparr>) sample_engine)) ''libera'' = Some n'
      \<and> buffers n' = filter (\<lambda>c. \<not> EqualIRC (ch_Name c) ''#GO'') (buffers (new_network sample_params))
      \<and> p_Channels (n_Params n') = filter (\<lambda>c. \<not> EqualIRC c ''#GO'') (p_Channels sample_params)
      \<and> lookupChannelKey (n_Params n') ''#GO'' = None \<and> autojoin_ok (n_Params n')
      \<and> saved (snd (commit sample_env ((zero_event EvPart ''libera'')\<lparr>ev_Nick := ''bob'', ev_Buffer := ''#GO''\<rparr>) sample_engine))
          = (if n_Params n' \<noteq> sample_params \<and> e_netStore sample_engine then [n_Params n'] else [])"
proof -
  have f: "find_net sample_engine ''libera'' = Some (new_network sample_params)"
    by (simp add: sample_engine_def AddNetwork_def empty_engine_def New_engine_def find_net_def new_network_def sample_params_def)
  have p: "n_Params (new_network sample_params) = sample_params" "n_Nick (new_network sample_params) = ''bob''"
    by (simp_all add: new_network_def sample_params_def)
  have "autojoin_ok sample_params" by code_simp
  then show ?thesis
    using self_part_is_forgotten[of "(zero_event EvPart ''libera'')\<lparr>ev_Nick := ''bob'', ev_Buffer := ''#GO''\<rparr>"
        sample_engine "new_network sample_params" sample_env] f
    by (simp add: p cong: if_cong del: if_split)
qed

section \<open>The gate\<close>

text \<open>What happens to the gate of one registered connection: \<open>GTrigger\<close> is the end of the perform sequence.\<close>

datatype gate_op = GHold | GTrigger | GRelease | GTimer

fun gate_step :: "string \<Rightarrow> nat \<Rightarrow> nat \<Rightarrow> gate_op \<Rightarrow> engine \<Rightarrow> result" where
  "gate_step net sq c GHold e = (snd (HoldJoins net e), [])"
| "gate_step net sq c GTrigger e = triggerAutojoinOrQueue net sq c e"
| "gate_step net sq c GRelease e = snd (ReleaseJoins net e)"
| "gate_step net sq c GTimer e = autoReleaseJoins net c e"

fun gate_run :: "string \<Rightarrow> nat \<Rightarrow> nat \<Rightarrow> gate_op list \<Rightarrow> engine \<Rightarrow> result" where
  "gate_run net sq c [] e = (e, [])"
| "gate_run net sq c (g # gs) e =
     (let (e, out) = gate_step net sq c g e; (e, outs) = gate_run net sq c gs e in (e, out @ outs))"

definition live :: "string \<Rightarrow> nat \<Rightarrow> nat \<Rightarrow> engine \<Rightarrow> bool" where
  "live net sq c e \<longleftrightarrow> startupActive net sq c e"

definition gate_held :: "string \<Rightarrow> nat \<Rightarrow> engine \<Rightarrow> bool" where
  "gate_held net c e \<longleftrightarrow> (\<exists>g. e_joinGates e net = Some g \<and> jg_held g \<and> jg_conn g = Some c)"

definition gate_pending :: "string \<Rightarrow> engine \<Rightarrow> bool" where
  "gate_pending net e \<longleftrightarrow> (\<exists>g. e_joinGates e net = Some g \<and> jg_pending g)"

text \<open>A gate of this connection that waits is held.\<close>

definition gate_ok :: "string \<Rightarrow> nat \<Rightarrow> engine \<Rightarrow> bool" where
  "gate_ok net c e \<longleftrightarrow> (\<forall>g. e_joinGates e net = Some g \<longrightarrow> jg_conn g = Some c \<and> (jg_pending g \<longrightarrow> jg_held g))"

lemma set_gate_live [simp]: "live net sq c (e\<lparr>e_joinGates := gs\<rparr>) = live net sq c e"
  by (simp add: live_def startupActive_def find_net_def)

lemma live_active: "live net sq c e \<Longrightarrow> isConnActive net (Some c) e \<and> e_conns e net = Some c \<and> find_net e net \<noteq> None"
  by (auto simp: live_def startupActive_def isConnActive_def)

lemma gate_step_facts:
  assumes "live net sq c e" "gate_ok net c e" "gate_step net sq c g e = (e', out)"
  shows "live net sq c e' \<and> gate_ok net c e' \<and> set out \<subseteq> {Autojoin c}
    \<and> length out + of_bool (gate_pending net e') \<le> of_bool (g = GTrigger) + of_bool (gate_pending net e)
    \<and> (g = GTrigger \<longrightarrow> out \<noteq> [] \<or> gate_held net c e' \<and> gate_pending net e')
    \<and> (gate_pending net e \<longrightarrow> out \<noteq> [] \<or> gate_held net c e' \<and> gate_pending net e')
    \<and> (gate_held net c e \<and> g \<in> {GHold, GTrigger} \<longrightarrow> out = [] \<and> gate_held net c e')
    \<and> (g = GHold \<longrightarrow> gate_held net c e')"
  using assms live_active[OF assms(1)]
  by (cases g; cases "e_joinGates e net")
     (auto simp: HoldJoins_def triggerAutojoinOrQueue_def ReleaseJoins_def autoReleaseJoins_def Let_def live_def[symmetric]
       gate_ok_def gate_held_def gate_pending_def set_gate_def split: if_splits)

lemma gate_run_facts:
  assumes "live net sq c e" "gate_ok net c e"
  shows "set (snd (gate_run net sq c gs e)) \<subseteq> {Autojoin c}
    \<and> length (snd (gate_run net sq c gs e)) + of_bool (gate_pending net (fst (gate_run net sq c gs e)))
        \<le> count_list gs GTrigger + of_bool (gate_pending net e)
    \<and> (GTrigger \<in> set gs \<or> gate_pending net e \<longrightarrow> snd (gate_run net sq c gs e) \<noteq> []
         \<or> gate_held net c (fst (gate_run net sq c gs e)))
    \<and> (gate_held net c e \<and> GRelease \<notin> set gs \<and> GTimer \<notin> set gs \<longrightarrow> snd (gate_run net sq c gs e) = [])"
  using assms
proof (induction gs arbitrary: e)
  case Nil
  then show ?case by (auto simp: gate_ok_def gate_pending_def gate_held_def)
next
  case (Cons g gs)
  obtain e1 out where s: "gate_step net sq c g e = (e1, out)" by fastforce
  note F = gate_step_facts[OF Cons.prems s]
  from F have "live net sq c e1" "gate_ok net c e1" by auto
  note IH = Cons.IH[OF this]
  have R: "snd (gate_run net sq c (g # gs) e) = out @ snd (gate_run net sq c gs e1)"
    "fst (gate_run net sq c (g # gs) e) = fst (gate_run net sq c gs e1)"
    using s by (simp_all add: Let_def split_beta)
  show ?case unfolding R using F IH by (cases g) auto
qed

text \<open>
  C3. The gate on one registered connection, from any interleaving of holds, releases, timeouts and
  ends of the perform sequence: the channels are joined at most once per end of the sequence; once the
  sequence has ended they have been joined unless the gate is still held, so no join is lost; and
  nothing is joined between a hold and the next release or timeout.\<close>

theorem gate_neither_loses_nor_leaks_joins:
  assumes "live net sq c e" "e_joinGates e net = None"
  shows "set (snd (gate_run net sq c gs e)) \<subseteq> {Autojoin c}
    \<and> length (snd (gate_run net sq c gs e)) \<le> count_list gs GTrigger
    \<and> (GTrigger \<in> set gs \<longrightarrow> snd (gate_run net sq c gs e) \<noteq> [] \<or> gate_held net c (fst (gate_run net sq c gs e)))
    \<and> (GRelease \<notin> set gs \<and> GTimer \<notin> set gs \<longrightarrow> snd (gate_run net sq c (GHold # gs) e) = [])"
proof -
  have ok: "gate_ok net c e" "\<not> gate_pending net e" using assms(2) by (simp_all add: gate_ok_def gate_pending_def)
  obtain e1 where s: "gate_step net sq c GHold e = (e1, [])" by simp
  note F = gate_step_facts[OF assms(1) ok(1) s]
  have "snd (gate_run net sq c (GHold # gs) e) = snd (gate_run net sq c gs e1)" using s by (simp add: split_beta Let_def)
  moreover have "GRelease \<notin> set gs \<and> GTimer \<notin> set gs \<longrightarrow> snd (gate_run net sq c gs e1) = []"
    using gate_run_facts[of net sq c e1 gs] F by auto
  ultimately show ?thesis using gate_run_facts[OF assms(1) ok(1), of gs] ok(2) by auto
qed

text \<open>The first network registered on connection 1.\<close>

definition registered_engine :: engine where
  "registered_engine = set_net ''libera'' ((new_network sample_params)\<lparr>n_State := StateRegistered\<rparr>) sample_engine"

theorem gate_neither_loses_nor_leaks_joins_witness:
  "snd (gate_run ''libera'' 0 1 [GHold, GTrigger, GHold, GTimer, GRelease] registered_engine) = [Autojoin 1]
    \<and> snd (gate_run ''libera'' 0 1 (GHold # [GTrigger]) registered_engine) = []"
proof -
  have l: "live ''libera'' 0 1 registered_engine" "e_joinGates registered_engine ''libera'' = None"
    by (simp_all add: registered_engine_def live_def startupActive_def find_net_def set_net_def sample_engine_def AddNetwork_def
        empty_engine_def New_engine_def new_network_def sample_params_def)
  have h: "\<not> gate_held ''libera'' 1 (fst (gate_run ''libera'' 0 1 [GHold, GTrigger, GHold, GTimer, GRelease] registered_engine))"
    using l live_active[OF l(1)]
    by (auto simp: gate_held_def HoldJoins_def triggerAutojoinOrQueue_def ReleaseJoins_def autoReleaseJoins_def Let_def
        live_def[symmetric] set_gate_def find_net_def isConnActive_def split: if_splits option.splits)
  have "set out \<subseteq> {Autojoin 1} \<Longrightarrow> length out \<le> 1 \<Longrightarrow> out \<noteq> [] \<Longrightarrow> out = [Autojoin 1]" for out
    by (cases out) auto
  then have "snd (gate_run ''libera'' 0 1 [GHold, GTrigger, GHold, GTimer, GRelease] registered_engine) = [Autojoin 1]"
    using gate_neither_loses_nor_leaks_joins[OF l, of "[GHold, GTrigger, GHold, GTimer, GRelease]"] h by auto
  moreover have "snd (gate_run ''libera'' 0 1 (GHold # [GTrigger]) registered_engine) = []"
    using gate_neither_loses_nor_leaks_joins[OF l, of "[GTrigger]"] by simp
  ultimately show ?thesis ..
qed

end
