(* ===== verification/Edit_Properties.thy ===== *)
theory Edit_Properties
  imports Core_Bouncer Join_Properties
begin

text \<open>
  Properties of the settings: what a live edit of a network sends and keeps, and that the bouncer's
  attribute lists cannot be forged by the values they carry.
\<close>

section \<open>Join keys across an edit\<close>

lemma map_of_assoc_put: "map_of (assoc_put k v xs) x = (if x = k then Some v else map_of xs x)"
  by (induction xs) auto

lemma map_of_reconcile_loop:
  "distinct (map (\<lambda>kv. FoldIRC (fst kv)) keys) \<Longrightarrow>
   map_of (reconcile_loop keys chans out) ch
     = (case find (\<lambda>kv. EqualIRC ch (fst kv)) keys of
          Some kv \<Rightarrow> if find (\<lambda>x. EqualIRC x ch) chans = Some ch then Some (snd kv) else map_of out ch
        | None \<Rightarrow> map_of out ch)"
proof (induction keys chans out rule: reconcile_loop.induct)
  case (2 k v ks chans out)
  have same: "EqualIRC ch k \<Longrightarrow> (\<lambda>x. EqualIRC x k) = (\<lambda>x. EqualIRC x ch)"
    by (simp add: fun_eq_iff EqualIRC_def)
  have gone: "EqualIRC ch k \<Longrightarrow> find (\<lambda>kv. EqualIRC ch (fst kv)) ks = None"
    using "2.prems" by (force simp: find_None_iff EqualIRC_def)
  have hit: "find (\<lambda>x. EqualIRC x k) chans = Some y \<Longrightarrow> EqualIRC y k" for y by (drule find_SomeD) simp
  let ?out = "case find (\<lambda>x. EqualIRC x k) chans of Some y \<Rightarrow> assoc_put y v out | None \<Rightarrow> out"
  have step: "reconcile_loop ((k, v) # ks) chans out = reconcile_loop ks chans ?out" by simp
  have d: "distinct (map (\<lambda>kv. FoldIRC (fst kv)) ks)" using "2.prems" by simp
  show ?case
  proof (cases "EqualIRC ch k")
    case True
    have "map_of ?out ch = (if find (\<lambda>x. EqualIRC x ch) chans = Some ch then Some v else map_of out ch)"
      unfolding same[OF True] by (auto simp: map_of_assoc_put split: option.split)
    then show ?thesis unfolding step "2.IH"[OF d] gone[OF True] using True by simp
  next
    case False
    have eq: "map_of ?out ch = map_of out ch"
      using hit False by (auto simp: map_of_assoc_put split: option.split)
    show ?thesis unfolding step "2.IH"[OF d] eq using False by simp
  qed
qed simp

section \<open>A live edit\<close>

lemma notify_no_send: "SendRaw c l \<notin> set (persistAndNotify env p e)"
  by (auto simp: persistAndNotify_def save_params_def notifyNetwork_def split: option.splits)

lemma diff_sets:
  "ch \<in> set (fst (diffChannels old upd)) \<longleftrightarrow> ch \<noteq> [] \<and> ch \<in> set upd \<and> \<not> has_channel old ch"
  "ch \<in> set (snd (diffChannels old upd)) \<longleftrightarrow> ch \<noteq> [] \<and> ch \<in> set old \<and> \<not> has_channel upd ch"
  by (auto simp: diffChannels_def)

text \<open>
  C28. An edit that touches no connection parameter is applied to the running connection: exactly the
  channels that are new to the auto-join list are joined and exactly those dropped from it are parted,
  both up to the case folding of names; no line is sent for a channel that stays; the stored join keys
  survive for the channels that stay, under the spelling of the new list, and no other key does.\<close>

theorem live_edit_joins_and_parts:
  fixes p :: networkParams
  defines "ident \<equiv> p_ID p"
  assumes "find_net e ident = Some n" "n_State n = StateRegistered" "e_conns e ident = Some c"
    and "\<not> needsReconnect (n_Params n) p" "distinct (map (\<lambda>kv. FoldIRC (fst kv)) (p_ChannelKeys (n_Params n)))"
  shows "\<exists>e' out m. UpdateNetwork env p e = (None, e', out) \<and> find_net e' ident = Some m \<and> n_State m = StateRegistered
    \<and> buffers m = buffers n \<and> p_Channels (n_Params m) = p_Channels p
    \<and> (\<forall>ch. SendRaw c (''JOIN '' @ ch) \<in> set out \<longleftrightarrow>
          ch \<noteq> [] \<and> ch \<in> set (p_Channels p) \<and> \<not> has_channel (p_Channels (n_Params n)) ch)
    \<and> (\<forall>ch. SendRaw c (''PART '' @ ch) \<in> set out \<longleftrightarrow>
          ch \<noteq> [] \<and> ch \<in> set (p_Channels (n_Params n)) \<and> \<not> has_channel (p_Channels p) ch)
    \<and> (\<forall>ch. map_of (p_ChannelKeys (n_Params m)) ch =
          (if find (\<lambda>x. EqualIRC x ch) (p_Channels p) = Some ch
           then map_option snd (find (\<lambda>kv. EqualIRC ch (fst kv)) (p_ChannelKeys (n_Params n))) else None))"
proof -
  define q where "q = p\<lparr>p_ChannelKeys := reconcileKeys (p_ChannelKeys (n_Params n)) (p_Channels p)\<rparr>"
  define e' where "e' = set_net ident (n\<lparr>n_Params := q, n_Name := p_Name q\<rparr>) e"
  define out where "out = (if p_Nick (n_Params n) \<noteq> p_Nick q then [SendRaw c (''NICK '' @ p_Nick q)] else [])
     @ map (\<lambda>ch. SendRaw c (''PART '' @ ch)) (snd (diffChannels (p_Channels (n_Params n)) (p_Channels q)))
     @ map (\<lambda>ch. SendRaw c (''JOIN '' @ ch)) (fst (diffChannels (p_Channels (n_Params n)) (p_Channels q)))"
  have q: "p_Channels q = p_Channels p" "p_ID q = ident" "\<not> needsReconnect (n_Params n) q"
    using assms(5) by (simp_all add: q_def ident_def needsReconnect_def)
  have conns: "e_conns e' = e_conns e" by (simp add: e'_def set_net_def)
  have run: "UpdateNetwork env p e = (None, e', out @ persistAndNotify env q e')"
    using assms(2-4) q conns
    by (simp add: UpdateNetwork_def ident_def[symmetric] q_def[symmetric] Let_def split_beta e'_def[symmetric] out_def)
  have found: "find_net e' ident = Some (n\<lparr>n_Params := q, n_Name := p_Name q\<rparr>)"
    unfolding e'_def using assms(2) find_net_ID[OF assms(2)] by (intro find_set_same) simp_all
  have keys: "map_of (p_ChannelKeys q) ch =
      (if find (\<lambda>x. EqualIRC x ch) (p_Channels p) = Some ch
       then map_option snd (find (\<lambda>kv. EqualIRC ch (fst kv)) (p_ChannelKeys (n_Params n))) else None)" for ch
    unfolding q_def reconcileKeys_def using map_of_reconcile_loop[OF assms(6), of "p_Channels p" "[]" ch]
    by (simp split: option.splits)
  have joins: "SendRaw c (''JOIN '' @ ch) \<in> set (out @ persistAndNotify env q e') \<longleftrightarrow>
      ch \<noteq> [] \<and> ch \<in> set (p_Channels p) \<and> \<not> has_channel (p_Channels (n_Params n)) ch" for ch
    using notify_no_send[of c "''JOIN '' @ ch" env q e'] diff_sets(1)[of ch "p_Channels (n_Params n)" "p_Channels p"]
    by (auto simp: out_def q(1))
  have parts: "SendRaw c (''PART '' @ ch) \<in> set (out @ persistAndNotify env q e') \<longleftrightarrow>
      ch \<noteq> [] \<and> ch \<in> set (p_Channels (n_Params n)) \<and> \<not> has_channel (p_Channels p) ch" for ch
    using notify_no_send[of c "''PART '' @ ch" env q e'] diff_sets(2)[of ch "p_Channels (n_Params n)" "p_Channels p"]
    by (auto simp: out_def q(1))
  have m: "n_State (n\<lparr>n_Params := q, n_Name := p_Name q\<rparr>) = StateRegistered"
    "buffers (n\<lparr>n_Params := q, n_Name := p_Name q\<rparr>) = buffers n"
    using assms(3) by (simp_all add: buffers_def chan_at_def)
  show ?thesis
    by (intro exI[of _ e'] exI[of _ "out @ persistAndNotify env q e'"] exI[of _ "n\<lparr>n_Params := q, n_Name := p_Name q\<rparr>"])
       (simp only: run found m joins parts keys q network.simps simp_thms; simp add: keys q)
qed

definition edited_params :: networkParams where
  "edited_params = sample_params\<lparr>p_Channels := [''#GO'', ''#hol'']\<rparr>"

lemma registered_found:
  "find_net registered_engine ''libera'' = Some ((new_network sample_params)\<lparr>n_State := StateRegistered\<rparr>)"
  "e_conns registered_engine ''libera'' = Some 1"
  by (simp_all add: registered_engine_def find_net_def set_net_def sample_engine_def AddNetwork_def
      empty_engine_def New_engine_def new_network_def sample_params_def)

theorem live_edit_joins_and_parts_witness:
  "\<exists>e' out m. UpdateNetwork sample_env edited_params registered_engine = (None, e', out)
    \<and> find_net e' ''libera'' = Some m \<and> SendRaw 1 (''JOIN '' @ ''#hol'') \<in> set out \<and> SendRaw 1 (''JOIN '' @ ''#GO'') \<notin> set out
    \<and> SendRaw 1 (''PART '' @ ''#Isabelle'') \<in> set out \<and> SendRaw 1 (''PART '' @ ''#go'') \<notin> set out
    \<and> map_of (p_ChannelKeys (n_Params m)) ''#GO'' = Some ''k1''"
proof -
  have p: "p_ID edited_params = ''libera''" "p_Channels edited_params = [''#GO'', ''#hol'']"
    "\<not> needsReconnect sample_params edited_params"
    "p_Channels sample_params = [''#Isabelle'', ''#go'']" "p_ChannelKeys sample_params = [(''#go'', ''k1'')]"
    by (simp_all add: edited_params_def sample_params_def needsReconnect_def)
  have n: "n_Params ((new_network sample_params)\<lparr>n_State := StateRegistered\<rparr>) = sample_params" by (simp add: new_network_def)
  have has: "\<not> has_channel [''#Isabelle'', ''#go''] ''#hol''" "has_channel [''#Isabelle'', ''#go''] ''#GO''"
    "\<not> has_channel [''#GO'', ''#hol''] ''#Isabelle''" "has_channel [''#GO'', ''#hol''] ''#go''"
    "find (\<lambda>x. EqualIRC x ''#GO'') [''#GO'', ''#hol''] = Some ''#GO''"
    "find (\<lambda>kv. EqualIRC ''#GO'' (fst kv)) [(''#go'', ''k1'')] = Some (''#go'', ''k1'')"
    by code_simp+
  show ?thesis
    using live_edit_joins_and_parts[of registered_engine edited_params, unfolded p(1), OF registered_found(1) _ registered_found(2),
        of sample_env] p n has by fastforce
qed

section \<open>Bouncer attributes\<close>

text \<open>
  C29. The line that adds a network to the bouncer says what was asked, whatever characters the fields
  and the password hold: its attribute list is a single word, and read back by the bouncer's grammar it
  gives the network's own name, host, port, TLS flag and nick (trimmed) and nothing else, so no field
  can smuggle in another attribute or another line.\<close>

theorem bouncer_add_is_read_back:
  assumes "bouncerConn env net e = Inr c" "trim_space (b_Host b) \<noteq> []" "b_Port b < 2 ^ 63"
  shows "\<exists>attrs rest. snd (BouncerAdd env net b pass e) = SendRaw c (''BOUNCER ADDNETWORK '' @ attrs) # rest
    \<and> set attrs \<inter> {CHR '' '', CHR 0x0D, CHR 0x0A} = {}
    \<and> fst (ParseBouncerAttrs ident attrs) = \<lparr>b_ID = ident, b_Name = trim_space (b_Name b), b_Host = trim_space (b_Host b),
        b_Port = max 0 (b_Port b), b_TLS = b_TLS b, b_Nick = trim_space (b_Nick b), b_State = [], b_Error = []\<rparr>
    \<and> distinct (snd (ParseBouncerAttrs ident attrs))
    \<and> set (snd (ParseBouncerAttrs ident attrs)) \<subseteq> {''host'', ''name'', ''port'', ''tls'', ''nickname'', ''pass''}"
proof -
  have "snd (BouncerAdd env net b pass e) = SendRaw c (''BOUNCER ADDNETWORK '' @ bouncer_attrs b pass)
      # tl (snd (BouncerAdd env net b pass e))"
    using assms by (simp add: BouncerAdd_def then_list_def split: option.splits)
  moreover have "distinct (map fst (attr_pairs b pass))" by (simp add: attr_pairs_def)
  moreover have "set (map fst (attr_pairs b pass)) \<subseteq> {''host'', ''name'', ''port'', ''tls'', ''nickname'', ''pass''}"
    using attr_keys[of _ b pass] by (auto dest!: attr_keys)
  ultimately show ?thesis
    using attrs_one_word[of b pass] ParseBouncerAttrs_attrs[OF assms(3), of ident pass]
    by (intro exI[of _ "bouncer_attrs b pass"] exI[of _ "tl (snd (BouncerAdd env net b pass e))"]) simp
qed

definition soju_env :: env where "soju_env = sample_env\<lparr>env_caps := (\<lambda>_. [capBouncerNetworks])\<rparr>"

definition sly_network :: bouncerNetwork where
  "sly_network = (zero_bouncer [])\<lparr>b_Host := ''irc.example.org;tls=0'', b_Name := '' ex ample '', b_Port := 6697, b_TLS := True\<rparr>"

theorem bouncer_add_is_read_back_witness:
  "\<exists>attrs rest. snd (BouncerAdd soju_env ''libera'' sly_network ''p;host=evil'' registered_engine)
      = SendRaw 1 (''BOUNCER ADDNETWORK '' @ attrs) # rest
    \<and> set attrs \<inter> {CHR '' '', CHR 0x0D, CHR 0x0A} = {}
    \<and> fst (ParseBouncerAttrs ''9'' attrs) = \<lparr>b_ID = ''9'', b_Name = ''ex ample'', b_Host = ''irc.example.org;tls=0'',
        b_Port = 6697, b_TLS = True, b_Nick = [], b_State = [], b_Error = []\<rparr>"
proof -
  have c: "bouncerConn soju_env ''libera'' registered_engine = Inr 1"
    by (simp add: bouncerConn_def registered_found soju_env_def)
  have t: "trim_space ''irc.example.org;tls=0'' = ''irc.example.org;tls=0''" "trim_space '' ex ample '' = ''ex ample''"
    "trim_space [] = []" by code_simp+
  have b: "b_Host sly_network = ''irc.example.org;tls=0''" "b_Name sly_network = '' ex ample ''" "b_Port sly_network = 6697"
    "b_TLS sly_network" "b_Nick sly_network = []" by (simp_all add: sly_network_def zero_bouncer_def)
  show ?thesis
    using bouncer_add_is_read_back[OF c, of sly_network "''p;host=evil''" "''9''"] b t by fastforce
qed

end
