(* ===== verification/Input_Properties.thy ===== *)
theory Input_Properties
  imports Join_Properties "HOL-Library.Sublist"
begin

text \<open>
  Properties of what the user types and of the history the engine fetches by itself: a typed line is
  sent once and shown once, aliases always end, and a catch-up asks for a bounded number of pages.
\<close>

section \<open>Typed lines\<close>

definition is_command :: "string \<Rightarrow> bool" where
  "is_command text \<longleftrightarrow> has_prefix text ''/'' \<and> \<not> has_prefix text ''//''
     \<and> fst (str_cut (trim_prefix text ''/'') CHR '' '') \<noteq> []"

lemma sendInput_plain: "\<not> is_command text \<Longrightarrow> sendInput env net buf text d e = send_plain env net buf text e"
  by (subst sendInput.simps) (auto simp: is_command_def split_beta Let_def)

text \<open>
  C31. Every input ends, however the aliases refer to each other, with exactly one outcome: one event
  queued for the network it was typed in (a command with a name, for the buffer it was typed in, or a
  message, which needs a registered connection) or an error with nothing queued.\<close>

theorem input_ends_once:
  "(\<exists>ev. sendInput env net buf text d e = (None, [Enqueue ev]) \<and> ev_Network ev = net
      \<and> (ev_Type ev = EvCommand \<and> ev_Command ev \<noteq> [] \<and> ev_Buffer ev = buf
         \<or> ev_Type ev = EvMessageOut \<and> (\<exists>n\<in>set_option (find_net e net). n_State n = StateRegistered)))
   \<or> (\<exists>err. sendInput env net buf text d e = (Some err, []))"
proof (induction env net buf "text" d e rule: sendInput.induct)
  case (1 env net buf inp d e)
  let ?name = "fst (str_cut (trim_prefix inp ''/'') CHR '' '')"
  let ?args = "fst (snd (str_cut (trim_prefix inp ''/'') CHR '' ''))"
  have plain: "(\<exists>ev. send_plain env net buf inp e = (None, [Enqueue ev]) \<and> ev_Network ev = net
      \<and> ev_Type ev = EvMessageOut \<and> (\<exists>n\<in>set_option (find_net e net). n_State n = StateRegistered))
    \<or> (\<exists>err. send_plain env net buf inp e = (Some err, []))"
    by (auto simp: send_plain_def input_message_def split: option.splits)
  have cmd: "ev_Network (input_command env net buf ?name ?args) = net" "ev_Type (input_command env net buf ?name ?args) = EvCommand"
    "ev_Command (input_command env net buf ?name ?args) = ?name" "ev_Buffer (input_command env net buf ?name ?args) = buf"
    by (simp_all add: input_command_def)
  consider "\<not> is_command inp" | tmpl where "is_command inp" "e_aliases e (env_lower env ?name) = Some tmpl" "d < 8"
    | "is_command inp" "\<not> (\<exists>tmpl. e_aliases e (env_lower env ?name) = Some tmpl \<and> d < 8)" by blast
  then show ?case
  proof cases
    case 1
    then show ?thesis using plain by (auto simp: sendInput_plain)
  next
    case 2
    then have eq: "sendInput env net buf inp d e = sendInput env net buf (expandAlias tmpl (fields ?args)) (d + 1) e"
      by (subst sendInput.simps) (simp add: is_command_def split_beta Let_def)
    show ?thesis unfolding eq
      using 2 "1.IH"[OF refl prod.collapse prod.collapse, of tmpl] by (simp add: is_command_def)
  next
    case 3
    then have "sendInput env net buf inp d e = (None, [Enqueue (input_command env net buf ?name ?args)])"
      by (subst sendInput.simps) (auto simp: is_command_def split_beta Let_def split: option.splits)
    then show ?thesis using cmd 3(1) by (auto simp: is_command_def)
  qed
qed



section \<open>Catching up\<close>

text \<open>The batches that come back for one buffer, handled one after another.\<close>

fun history_run :: "env \<Rightarrow> event list \<Rightarrow> engine \<Rightarrow> result" where
  "history_run env [] e = (e, [])"
| "history_run env (ev # evs) e =
     (let (e, out) = onHistoryBatch env ev e; (e, outs) = history_run env evs e in (e, out @ outs))"

definition page_request :: "env \<Rightarrow> nat \<Rightarrow> event \<Rightarrow> effect" where
  "page_request env c ev = SendRaw c (after_line env (ev_Buffer ev) (ev_Time ev))"

lemma history_idle:
  "e_catchUps e key = None \<Longrightarrow> \<forall>ev\<in>set evs. catchUpKey (ev_Network ev) (ev_Buffer ev) = key \<Longrightarrow> history_run env evs e = (e, [])"
  by (induction evs) (simp_all add: onHistoryBatch_def)

lemma history_pages:
  assumes "e_conns e net = Some c" "e_catchUps e key = Some ch"
    and "\<forall>ev\<in>set evs. ev_Network ev = net \<and> catchUpKey net (ev_Buffer ev) = key"
  shows "\<exists>sent. subseq sent evs \<and> snd (history_run env evs e) = map (page_request env c) sent
    \<and> int (length sent) \<le> max 0 (catchUpMaxPages - cu_pages ch)
    \<and> sorted_wrt (<) (cu_since ch # map ev_Time sent) \<and> (\<forall>ev\<in>set sent. catchUpLimit \<le> ev_Count ev)"
  using assms
proof (induction evs arbitrary: e ch)
  case (Cons ev evs)
  let ?k = "catchUpKey (ev_Network ev) (ev_Buffer ev)"
  have k: "?k = key" "ev_Network ev = net" using Cons.prems(3) by simp_all
  show ?case
  proof (cases "ev_Count ev < catchUpLimit \<or> catchUpMaxPages \<le> cu_pages ch \<or> \<not> cu_since ch < ev_Time ev")
    case True
    have "onHistoryBatch env ev e = (e\<lparr>e_catchUps := (e_catchUps e)(key := None)\<rparr>, [])"
      using True Cons.prems(1,2) k by (simp add: onHistoryBatch_def Let_def)
    moreover have "history_run env evs (e\<lparr>e_catchUps := (e_catchUps e)(key := None)\<rparr>) = (e\<lparr>e_catchUps := (e_catchUps e)(key := None)\<rparr>, [])"
      using Cons.prems(3) by (intro history_idle[where key = key]) auto
    ultimately show ?thesis by (intro exI[of _ "[]"]) simp
  next
    case False
    let ?ch = "\<lparr>cu_pages = cu_pages ch + 1, cu_since = ev_Time ev\<rparr>"
    let ?e = "e\<lparr>e_catchUps := (e_catchUps e)(key \<mapsto> ?ch)\<rparr>"
    have one: "onHistoryBatch env ev e = (?e, [page_request env c ev])"
      using False Cons.prems(1,2) k by (simp add: onHistoryBatch_def Let_def page_request_def)
    from Cons.IH[of ?e ?ch] Cons.prems obtain sent where sent: "subseq sent evs"
      "snd (history_run env evs ?e) = map (page_request env c) sent"
      "int (length sent) \<le> max 0 (catchUpMaxPages - (cu_pages ch + 1))"
      "sorted_wrt (<) (ev_Time ev # map ev_Time sent)" "\<forall>ev\<in>set sent. catchUpLimit \<le> ev_Count ev"
      by auto
    show ?thesis
      using sent False by (intro exI[of _ "ev # sent"]) (auto simp: one split_beta Let_def)
  qed
qed (intro exI[of _ "[]"], simp)

text \<open>
  C30. Catching up on a buffer is bounded. From the moment the catch-up starts, whatever batches come
  back, at most ten pages are requested in all; the references of the requests rise strictly, so no page
  is asked for twice; and a further page is requested only after a full one.\<close>

theorem catch_up_is_bounded:
  assumes "catchup_turn env net buf newest fallback c e = (e1, [req])"
    and "history_run env evs e1 = (e2, out)"
    and "\<forall>ev\<in>set evs. ev_Network ev = net \<and> EqualIRC (ev_Buffer ev) buf"
  shows "\<exists>since sent. 0 \<noteq> since \<and> req = SendRaw c (after_line env buf since) \<and> subseq sent evs
    \<and> out = map (page_request env c) sent \<and> int (length (req # out)) \<le> catchUpMaxPages
    \<and> sorted_wrt (<) (since # map ev_Time sent) \<and> (\<forall>ev\<in>set sent. catchUpLimit \<le> ev_Count ev)"
proof -
  let ?key = "catchUpKey net buf"
  obtain since where s: "since \<noteq> 0" "req = SendRaw c (after_line env buf since)" "e_conns e1 net = Some c"
    "e_catchUps e1 ?key = Some \<lparr>cu_pages = 1, cu_since = since\<rparr>"
    using assms(1) by (auto simp: catchup_turn_def Let_def split: option.splits if_splits)
  have "\<forall>ev\<in>set evs. ev_Network ev = net \<and> catchUpKey net (ev_Buffer ev) = ?key"
    using assms(3) by (simp add: catchUpKey_def EqualIRC_def)
  from history_pages[OF s(3,4) this, of env] obtain sent where "subseq sent evs" "out = map (page_request env c) sent"
    "int (length sent) \<le> max 0 (catchUpMaxPages - 1)" "sorted_wrt (<) (since # map ev_Time sent)"
    "\<forall>ev\<in>set sent. catchUpLimit \<le> ev_Count ev"
    using assms(2) by auto
  then show ?thesis using s(1,2)
    by (intro exI[of _ since] exI[of _ sent]) (simp_all add: catchUpMaxPages_def)
qed

definition history_env :: env where
  "history_env = sample_env\<lparr>env_last_chat := Some (\<lambda>_ _. Some 5)\<rparr>"

definition full_page :: "int \<Rightarrow> event" where
  "full_page t = (zero_event EvHistoryBatch ''libera'')\<lparr>ev_Buffer := ''#GO'', ev_Count := 100, ev_Time := t\<rparr>"

theorem catch_up_is_bounded_witness:
  "int (length (snd (history_run history_env [full_page 6, full_page 8, full_page 8]
      (fst (catchup_turn history_env ''libera'' ''#go'' 0 0 1 registered_engine))))) < catchUpMaxPages"
proof -
  define r where "r = catchup_turn history_env ''libera'' ''#go'' 0 0 1 registered_engine"
  have conn: "e_conns registered_engine ''libera'' = Some 1"
    by (simp add: registered_engine_def set_net_def sample_engine_def AddNetwork_def empty_engine_def New_engine_def sample_params_def)
  then have "\<exists>req. snd r = [req]"
    by (simp add: r_def catchup_turn_def last_chat_def history_env_def Let_def)
  then obtain req where r: "catchup_turn history_env ''libera'' ''#go'' 0 0 1 registered_engine = (fst r, [req])"
    by (metis r_def prod.collapse)
  have "EqualIRC ''#GO'' ''#go''" by code_simp
  then have "\<forall>ev\<in>set [full_page 6, full_page 8, full_page 8]. ev_Network ev = ''libera'' \<and> EqualIRC (ev_Buffer ev) ''#go''"
    by (simp add: full_page_def)
  from catch_up_is_bounded[OF r prod.collapse[symmetric] this] show ?thesis by (auto simp: r_def)
qed

end
