(* ===== verification/Irc_Translate.thy ===== *)
theory Irc_Translate
  imports Core_Bouncer Engine_Link
begin

text \<open>
  Model of \<^verbatim>\<open>internal/irc/translate.go\<close>: how a line, parsed by the girc library, becomes an event of the core.
  The library's event is a record of its fields; what its methods answer (\<^verbatim>\<open>Last\<close>, \<^verbatim>\<open>IsAction\<close> with
  \<^verbatim>\<open>StripAction\<close>, \<^verbatim>\<open>IsCTCP\<close>, \<^verbatim>\<open>Tags.Get\<close>, \<^verbatim>\<open>Source.IsServer\<close>) and the clock and the RFC 3339 parser are the
  fields of the record \<open>wire\<close>.
\<close>

section \<open>Parsed lines\<close>

record source =
  src_Name :: string
  src_Ident :: string
  src_Host :: string

text \<open>\<^verbatim>\<open>Tags\<close> is None when the map is nil; its order is an iteration order.\<close>

record gevent =
  g_Source :: "source option"
  g_Tags :: "(string \<times> string) list option"
  g_Timestamp :: int
  g_Command :: string
  g_Params :: "string list"
  g_Echo :: bool

record wire =
  w_Last :: "gevent \<Rightarrow> string"
  w_Action :: "gevent \<Rightarrow> string option"
  w_CTCP :: "gevent \<Rightarrow> (string \<times> string) option"
  w_Get :: "(string \<times> string) list \<Rightarrow> string \<Rightarrow> string option"
  w_IsServer :: "source \<Rightarrow> bool"
  w_now :: int
  w_parse_time :: "string \<Rightarrow> int option"

text \<open>A handler may emit an event, emit nothing, or panic (girc recovers it).\<close>

datatype translated = Emits event | Dropped | Panics

definition tag_get :: "wire \<Rightarrow> gevent \<Rightarrow> string \<Rightarrow> string option" where
  "tag_get W e key = (case g_Tags e of None \<Rightarrow> None | Some ts \<Rightarrow> w_Get W ts key)"

definition tag :: "wire \<Rightarrow> gevent \<Rightarrow> string \<Rightarrow> string" where
  "tag W e key = (case tag_get W e key of Some v \<Rightarrow> v | None \<Rightarrow> [])"

text \<open>A nil map and an empty one are the same value here.\<close>

definition copyTags :: "(string \<times> string) list option \<Rightarrow> (string \<times> string) list" where
  "copyTags t = (case t of None \<Rightarrow> [] | Some kvs \<Rightarrow> filter (\<lambda>kv. \<not> has_prefix (fst kv) TagPrefix) kvs)"

definition isChannel :: "string \<Rightarrow> bool" where
  "isChannel target = (case target of [] \<Rightarrow> False | c # _ \<Rightarrow> c \<in> set ''#&+!'')"

definition isServerSource :: "wire \<Rightarrow> source \<Rightarrow> bool" where
  "isServerSource W s \<longleftrightarrow> w_IsServer W s \<and> (src_Name s = [] \<or> CHR ''.'' \<in> set (src_Name s))"

definition when_of :: "wire \<Rightarrow> gevent \<Rightarrow> int" where
  "when_of W e = (if g_Timestamp e = 0 then w_now W else g_Timestamp e)"

definition from_of :: "gevent \<Rightarrow> string" where
  "from_of e = (case g_Source e of Some s \<Rightarrow> src_Name s | None \<Rightarrow> [])"

definition param_at :: "gevent \<Rightarrow> nat \<Rightarrow> string" where
  "param_at e i = (if i < length (g_Params e) then g_Params e ! i else [])"

section \<open>Member lists\<close>

definition membershipPrefixes :: string where "membershipPrefixes = ''~&@%+''"

definition splitPrefixes :: "string \<Rightarrow> string \<Rightarrow> string \<times> string" where
  "splitPrefixes tok prefixes = (takeWhile (\<lambda>c. c \<in> set prefixes) tok, dropWhile (\<lambda>c. c \<in> set prefixes) tok)"

definition prefixSymbols :: "string \<Rightarrow> string" where
  "prefixSymbols prefix =
     (case index_byte prefix CHR '')'' of
        Some i \<Rightarrow> if i + 1 < length prefix then drop (i + 1) prefix else membershipPrefixes
      | None \<Rightarrow> membershipPrefixes)"

definition before_bang :: "string \<Rightarrow> string" where
  "before_bang s = (case index_byte s CHR ''!'' of Some i \<Rightarrow> take i s | None \<Rightarrow> s)"

definition names_member :: "string \<Rightarrow> string \<Rightarrow> member list" where
  "names_member prefixes tok =
     (let (modes, rest) = splitPrefixes tok prefixes; nick = before_bang rest
      in if nick \<noteq> [] then [\<lparr>m_Nick = nick, m_Account = [], m_Modes = modes, m_Away = False\<rparr>] else [])"

definition namesEvent :: "wire \<Rightarrow> string \<Rightarrow> gevent \<Rightarrow> string \<Rightarrow> event option" where
  "namesEvent W net e prefixes =
     (if length (g_Params e) < 4 then None
      else (let members = concat (map (names_member prefixes) (Core_Command.fields (w_Last W e)))
            in if members = [] then None
               else Some ((zero_event EvNames net)\<lparr>ev_Time := when_of W e, ev_Buffer := g_Params e ! 2, ev_Members := members\<rparr>)))"

section \<open>Channel modes\<close>

definition splitPrefixSpec :: "string \<Rightarrow> string \<times> string" where
  "splitPrefixSpec prefix =
     (let dflt = (''ov'', ''@+'') in
      if has_prefix prefix ''('' then
        (case index_byte prefix CHR '')'' of
           Some i \<Rightarrow>
             (let letters = drop 1 (take i prefix); symbols = drop (i + 1) prefix
              in if 1 < i \<and> length letters = length symbols then (letters, symbols) else dflt)
         | None \<Rightarrow> dflt)
      else dflt)"

text \<open>\<^verbatim>\<open>strings.SplitN\<close> with at most \<open>n + 1\<close> parts.\<close>

fun splitn :: "nat \<Rightarrow> string \<Rightarrow> char \<Rightarrow> string list" where
  "splitn 0 s c = [s]"
| "splitn (Suc n) s c =
     (case index_byte s c of None \<Rightarrow> [s] | Some i \<Rightarrow> take i s # splitn n (drop (i + 1) s) c)"

definition part_at :: "string list \<Rightarrow> nat \<Rightarrow> string" where
  "part_at ps i = (if i < length ps then ps ! i else [])"

definition splitChanmodes :: "string \<Rightarrow> string \<times> string \<times> string \<times> string" where
  "splitChanmodes chanmodes =
     (let ps = splitn 3 chanmodes CHR '','' in (part_at ps 0, part_at ps 1, part_at ps 2, part_at ps 3))"

text \<open>\<^verbatim>\<open>string(b)\<close> of a byte is the UTF-8 form of the code point with its number.\<close>

definition byte_string :: "char \<Rightarrow> string" where
  "byte_string c = (let n = of_char c :: nat in
     if n < 128 then [c] else [char_of (192 + n div 64), char_of (128 + n mod 64)])"

fun mode_scan ::
    "string \<times> string \<Rightarrow> string \<times> string \<times> string \<Rightarrow> bool \<Rightarrow> string \<Rightarrow> string list \<Rightarrow> memberMode list" where
  "mode_scan spec cls add [] args = []"
| "mode_scan spec cls add (c # flags) args =
     (if c = CHR ''+'' then mode_scan spec cls True flags args
      else if c = CHR ''-'' then mode_scan spec cls False flags args
      else (let (letters, symbols) = spec; (listArgs, alwaysArgs, setArgs) = cls;
                takesArg = (c \<in> set letters \<or> c \<in> set listArgs \<or> c \<in> set alwaysArgs \<or> add \<and> c \<in> set setArgs);
                (arg, rest) = (if takesArg \<and> args \<noteq> [] then (hd args, tl args) else ([], args));
                out = (case index_byte letters c of
                    Some i \<Rightarrow> if i < length symbols \<and> arg \<noteq> [] then [\<lparr>mm_Nick = arg, mm_Symbol = byte_string (symbols ! i), mm_Add = add\<rparr>] else []
                  | None \<Rightarrow> [])
            in out @ mode_scan spec cls add flags rest))"

definition membershipModeChanges :: "string \<Rightarrow> string \<Rightarrow> string \<Rightarrow> string list \<Rightarrow> memberMode list" where
  "membershipModeChanges prefix chanmodes flags args =
     (let (listArgs, alwaysArgs, setArgs, _) = splitChanmodes chanmodes
      in mode_scan (splitPrefixSpec prefix) (listArgs, alwaysArgs, setArgs) True flags args)"

definition channelSettingFlags :: "string \<Rightarrow> string \<Rightarrow> string \<Rightarrow> string" where
  "channelSettingFlags prefix chanmodes flags =
     (let letters = fst (splitPrefixSpec prefix); listArgs = fst (splitChanmodes chanmodes)
      in (if \<not> has_prefix flags ''+'' \<and> \<not> has_prefix flags ''-'' then ''+'' else [])
         @ filter (\<lambda>c. \<not> (c \<noteq> CHR ''+'' \<and> c \<noteq> CHR ''-'' \<and> (c \<in> set letters \<or> c \<in> set listArgs))) flags)"

definition channelModeEvent :: "wire \<Rightarrow> string \<Rightarrow> gevent \<Rightarrow> string \<Rightarrow> string \<Rightarrow> event option" where
  "channelModeEvent W net e prefix chanmodes =
     (if length (g_Params e) < 2 \<or> \<not> isChannel (g_Params e ! 0) then None
      else (let flags = g_Params e ! 1; args = drop 2 (g_Params e)
            in Some ((zero_event EvMode net)\<lparr>ev_Time := when_of W e, ev_Buffer := g_Params e ! 0, ev_Nick := from_of e,
                 ev_Text := trim_space (flags @ '' '' @ join_with args '' ''),
                 ev_MemberModes := membershipModeChanges prefix chanmodes flags args,
                 ev_ChanModes := channelSettingFlags prefix chanmodes flags\<rparr>)))"

section \<open>Messages\<close>

text \<open>The buffer of a message: \<open>reply\<close> says that it is a CTCP reply.\<close>

definition outbound :: "gevent \<Rightarrow> string \<Rightarrow> bool" where
  "outbound e self \<longleftrightarrow> g_Echo e \<or> self \<noteq> [] \<and> from_of e = self"

definition message_buffer :: "wire \<Rightarrow> gevent \<Rightarrow> string \<Rightarrow> bool \<Rightarrow> string" where
  "message_buffer W e self reply =
     (let target = g_Params e ! 0 in
      if isChannel target then target
      else if (case g_Source e of Some s \<Rightarrow> isServerSource W s | None \<Rightarrow> False) then StatusBuffer
      else if g_Command e = ''NOTICE'' \<and> \<not> outbound e self \<and> \<not> reply then StatusBuffer
      else if \<not> outbound e self \<and> from_of e \<noteq> [] then from_of e
      else target)"

definition message_event :: "wire \<Rightarrow> string \<Rightarrow> gevent \<Rightarrow> string \<Rightarrow> bool \<Rightarrow> msgKind \<Rightarrow> string \<Rightarrow> event" where
  "message_event W net e self reply kind text =
     (let account = tag W e ''account''
      in (zero_event EvMessageIn net)\<lparr>ev_Time := when_of W e, ev_Message := Some (blank_message\<lparr>msg_ID := tag W e ''msgid'',
           msg_Network := net, msg_Buffer := message_buffer W e self reply, msg_Time := when_of W e, msg_From := from_of e,
           msg_Account := (if account = ''*'' then [] else account), msg_Kind := kind, msg_Text := text,
           msg_Tags := copyTags (g_Tags e), msg_Self := g_Echo e\<rparr>)\<rparr>)"

definition translate_message :: "wire \<Rightarrow> string \<Rightarrow> gevent \<Rightarrow> string \<Rightarrow> event option" where
  "translate_message W net e self =
     (if g_Params e = [] then None
      else (case w_Action W e of
          Some text \<Rightarrow> Some (message_event W net e self False MsgAction text)
        | None \<Rightarrow>
            (case w_CTCP W e of
               Some (cmd, text) \<Rightarrow>
                 if g_Command e \<noteq> ''NOTICE'' then None
                 else Some (message_event W net e self True MsgSystem
                        (trim_space (''CTCP '' @ cmd @ '' reply: '' @ text)))
             | None \<Rightarrow> Some (message_event W net e self False
                   (if g_Command e = ''NOTICE'' then MsgNotice else MsgPrivmsg) (w_Last W e)))))"

section \<open>Other commands\<close>

definition translate_join :: "wire \<Rightarrow> string \<Rightarrow> gevent \<Rightarrow> event" where
  "translate_join W net e =
     (let account = tag W e ''account'';
          account = (if account = [] \<and> 3 \<le> length (g_Params e) \<and> g_Params e ! 1 \<noteq> ''*'' then g_Params e ! 1 else account)
      in (zero_event EvJoin net)\<lparr>ev_Time := when_of W e, ev_Nick := from_of e, ev_Buffer := param_at e 0, ev_Account := account\<rparr>)"

definition last_after :: "wire \<Rightarrow> gevent \<Rightarrow> nat \<Rightarrow> string" where
  "last_after W e n = (if n < length (g_Params e) then w_Last W e else [])"

definition translate_bouncer :: "wire \<Rightarrow> string \<Rightarrow> gevent \<Rightarrow> event option" where
  "translate_bouncer W net e =
     (if length (g_Params e) < 3 \<or> \<not> equal_fold (g_Params e ! 0) ''NETWORK'' then None
      else if g_Params e ! 2 = ''*''
      then Some ((zero_event EvBouncerNetwork net)\<lparr>ev_Time := when_of W e, ev_Target := g_Params e ! 1\<rparr>)
      else (let (b, keys) = ParseBouncerAttrs (g_Params e ! 1) (g_Params e ! 2)
            in Some ((zero_event EvBouncerNetwork net)\<lparr>ev_Time := when_of W e, ev_Bouncer := Some b, ev_Args := Some keys\<rparr>)))"

definition translate_chathistory :: "wire \<Rightarrow> string \<Rightarrow> gevent \<Rightarrow> event option" where
  "translate_chathistory W net e =
     (if length (g_Params e) < 3 \<or> \<not> equal_fold (g_Params e ! 0) ''TARGETS'' then None
      else (case w_parse_time W (trim_prefix (g_Params e ! 2) ''timestamp='') of
          None \<Rightarrow> None
        | Some ts \<Rightarrow> Some ((zero_event EvHistoryTarget net)\<lparr>ev_Time := ts, ev_Buffer := g_Params e ! 1\<rparr>)))"

definition translate_tagmsg :: "wire \<Rightarrow> string \<Rightarrow> gevent \<Rightarrow> string \<Rightarrow> event option" where
  "translate_tagmsg W net e self =
     (if from_of e = [] \<or> g_Params e = [] then None
      else (let target = g_Params e ! 0;
                buffer = (if \<not> isChannel target \<and> \<not> outbound e self then from_of e else target);
                base = (\<lambda>t. (zero_event t net)\<lparr>ev_Time := when_of W e, ev_Nick := from_of e, ev_Buffer := buffer\<rparr>);
                react = tag W e ''+draft/react'' in
            if react \<noteq> [] then
              (let msgid = tag W e ''+draft/reply''
               in if msgid = [] then None else Some ((base EvReact)\<lparr>ev_Target := msgid, ev_Text := react\<rparr>))
            else (case tag_get W e ''+typing'' of
                None \<Rightarrow> None
              | Some st \<Rightarrow> if from_of e = self then None else Some ((base EvTyping)\<lparr>ev_Text := st\<rparr>))))"

definition translate_redact :: "wire \<Rightarrow> string \<Rightarrow> gevent \<Rightarrow> string \<Rightarrow> event option" where
  "translate_redact W net e self =
     (if length (g_Params e) < 2 then None
      else (let target = g_Params e ! 0;
                buffer = (if isChannel target \<or> from_of e = [] \<or> outbound e self then target else from_of e)
            in Some ((zero_event EvRedact net)\<lparr>ev_Time := when_of W e, ev_Nick := from_of e, ev_Buffer := buffer,
                 ev_Target := g_Params e ! 1, ev_Text := last_after W e 2\<rparr>)))"

definition formatStandardReply :: "wire \<Rightarrow> gevent \<Rightarrow> string" where
  "formatStandardReply W e =
     (let head = ''['' @ g_Command e @ '']''; desc = w_Last W e;
          label = (if g_Params e \<noteq> [] \<and> last (g_Params e) = desc then butlast (g_Params e) else g_Params e)
      in if label = [] then trim_space (head @ '' '' @ desc)
         else trim_space (head @ '' '' @ join_with label '' '' @ '': '' @ desc))"

section \<open>Numeric replies\<close>

datatype numeric = Line string string int | NoNumeric | NumericPanic

definition who_line :: "wire \<Rightarrow> gevent \<Rightarrow> string" where
  "who_line W e = param_at e 5 @ '' ['' @ param_at e 6 @ ''] ('' @ param_at e 2 @ ''@'' @ param_at e 3 @ '') on ''
     @ param_at e 1 @ '' via '' @ param_at e 4 @ '': '' @ w_Last W e"

definition actually_line :: "wire \<Rightarrow> gevent \<Rightarrow> string" where
  "actually_line W e = join_with ([param_at e 1]
     @ (if 3 \<le> length (g_Params e) then butlast (drop 2 (g_Params e)) else [])
     @ (if w_Last W e \<noteq> [] then [w_Last W e] else [])) '' ''"

definition formatNumeric :: "wire \<Rightarrow> gevent \<Rightarrow> numeric" where
  "formatNumeric W e =
     (let s = param_at e 1; l = w_Last W e; c = g_Command e; line = (\<lambda>text. Line text s (atoi_value c));
          user = s @ '' ('' @ param_at e 2 @ ''@'' @ param_at e 3 @ ''): '' @ l in
      if c = ''301'' then line (s @ '' is away: '' @ l)
      else if c = ''307'' then line (s @ '' is a registered nick'')
      else if c = ''311'' then line user
      else if c = ''312'' then line (s @ '' on '' @ param_at e 2 @ '' ('' @ l @ '')'')
      else if c = ''317'' then line (s @ '': idle '' @ param_at e 2 @ ''s, signon '' @ param_at e 3)
      else if c = ''319'' then line (s @ '' on: '' @ l)
      else if c = ''330'' then line (s @ '' is logged in as '' @ param_at e 2)
      else if c = ''338'' then line (actually_line W e)
      else if c \<in> {''313'', ''320'', ''378'', ''379'', ''671'', ''276''} then line (s @ '' '' @ l)
      else if c = ''318'' then line (''End of WHOIS for '' @ s)
      else if c = ''314'' then line (''(was) '' @ user)
      else if c = ''369'' then line (''End of WHOWAS for '' @ s)
      else if c = ''352'' then line (who_line W e)
      else if c = ''354'' then (if g_Params e = [] then NumericPanic else line (join_with (tl (g_Params e)) '' ''))
      else if c = ''315'' then line (''End of WHO for '' @ s)
      else if c = ''366'' then line (''End of NAMES for '' @ s)
      else if c = ''341'' then line (''inviting '' @ s @ '' to '' @ param_at e 2)
      else if c = ''401'' then line (''no such nick: '' @ s)
      else if c = ''402'' then line (''no such server: '' @ s)
      else if c = ''403'' then line (''no such channel: '' @ s)
      else if c = ''404'' then line (''cannot send to '' @ s @ '': '' @ l)
      else if c = ''433'' then line (''nickname in use: '' @ s)
      else if c = ''441'' then line (s @ '' is not in '' @ param_at e 2)
      else if c = ''442'' then line (''not on channel: '' @ s)
      else if c = ''461'' then line (s @ '': '' @ l)
      else if c = ''473'' then line (s @ '': invite-only channel'')
      else if c = ''474'' then line (s @ '': banned from channel'')
      else if c = ''475'' then line (s @ '': bad channel key'')
      else if c = ''482'' then line (s @ '': you're not a channel operator'')
      else NoNumeric)"

definition numericReplies :: "string list" where
  "numericReplies = [''301'', ''307'', ''311'', ''312'', ''313'', ''317'', ''318'', ''319'', ''320'', ''330'', ''338'', ''378'', ''379'',
     ''671'', ''276'', ''314'', ''369'', ''352'', ''354'', ''315'', ''366'', ''341'', ''401'', ''402'', ''403'', ''404'', ''433'',
     ''441'', ''442'', ''461'', ''473'', ''474'', ''475'', ''482'']"

section \<open>The translation\<close>

definition emit_opt :: "event option \<Rightarrow> translated" where
  "emit_opt r = (case r of Some ev \<Rightarrow> Emits ev | None \<Rightarrow> Dropped)"

definition at_least :: "nat \<Rightarrow> gevent \<Rightarrow> event \<Rightarrow> translated" where
  "at_least n e ev = (if length (g_Params e) < n then Dropped else Emits ev)"

definition translate_topic_time :: "wire \<Rightarrow> string \<Rightarrow> gevent \<Rightarrow> event" where
  "translate_topic_time W net e =
     (let sec = atoi_value (g_Params e ! 3)
      in (zero_event EvTopic net)\<lparr>ev_Time := (if 0 < sec then sec * 10 ^ 9 else when_of W e),
           ev_Buffer := g_Params e ! 1, ev_Nick := g_Params e ! 2, ev_TopicMeta := True\<rparr>)"

definition translate_account :: "wire \<Rightarrow> string \<Rightarrow> gevent \<Rightarrow> event" where
  "translate_account W net e = (zero_event EvAccount net)\<lparr>ev_Time := when_of W e, ev_Nick := from_of e,
     ev_Account := (if g_Params e ! 0 = ''*'' then [] else g_Params e ! 0)\<rparr>"

definition toEvent :: "wire \<Rightarrow> string \<Rightarrow> gevent \<Rightarrow> string \<Rightarrow> translated" where
  "toEvent W net e self =
     (let c = g_Command e; ps = g_Params e; l = w_Last W e;
          ev = (\<lambda>t. (zero_event t net)\<lparr>ev_Time := when_of W e, ev_Nick := from_of e\<rparr>);
          server = (\<lambda>t. (zero_event t net)\<lparr>ev_Time := when_of W e\<rparr>) in
      if c = ''PRIVMSG'' \<or> c = ''NOTICE'' then emit_opt (translate_message W net e self)
      else if c = ''JOIN'' then Emits (translate_join W net e)
      else if c = ''PART'' then Emits ((ev EvPart)\<lparr>ev_Buffer := param_at e 0, ev_Text := last_after W e 1\<rparr>)
      else if c = ''KICK'' then at_least 2 e ((ev EvKick)\<lparr>ev_Nick := ps ! 1, ev_Kicker := from_of e,
             ev_Buffer := ps ! 0, ev_Text := last_after W e 2\<rparr>)
      else if c = ''QUIT'' then Emits ((ev EvQuit)\<lparr>ev_Text := l\<rparr>)
      else if c = ''NICK'' then Emits ((ev EvNick)\<lparr>ev_NewNick := l\<rparr>)
      else if c = ''AWAY'' then Emits ((ev EvAway)\<lparr>ev_Away := (l \<noteq> [])\<rparr>)
      else if c = ''ACCOUNT'' then at_least 1 e (translate_account W net e)
      else if c = ''CHGHOST'' then
        (if length ps \<noteq> 2 then Dropped else Emits ((ev EvChgHost)\<lparr>ev_Text := ps ! 0 @ ''@'' @ ps ! 1\<rparr>))
      else if c = ''BOUNCER'' then emit_opt (translate_bouncer W net e)
      else if c = ''CHATHISTORY'' then emit_opt (translate_chathistory W net e)
      else if c = ''SETNAME'' then Emits ((ev EvSetName)\<lparr>ev_Text := l\<rparr>)
      else if c = ''INVITE'' then at_least 2 e ((ev EvInvite)\<lparr>ev_NewNick := ps ! 0, ev_Buffer := l\<rparr>)
      else if c = ''322'' then at_least 3 e ((server EvListItem)\<lparr>ev_Buffer := ps ! 1, ev_Count := atoi_value (ps ! 2), ev_Text := l\<rparr>)
      else if c = ''323'' then Emits (server EvListEnd)
      else if c = ''TAGMSG'' then emit_opt (translate_tagmsg W net e self)
      else if c = ''REDACT'' then emit_opt (translate_redact W net e self)
      else if c = ''FAIL'' \<or> c = ''WARN'' \<or> c = ''NOTE'' then Emits ((server EvNumeric)\<lparr>ev_Text := formatStandardReply W e\<rparr>)
      else if c = ''353'' then emit_opt (namesEvent W net e membershipPrefixes)
      else if c = ''TOPIC'' then Emits ((ev EvTopic)\<lparr>ev_Buffer := param_at e 0, ev_Text := l\<rparr>)
      else if c = ''332'' then at_least 2 e ((server EvTopic)\<lparr>ev_Buffer := ps ! 1, ev_Text := l\<rparr>)
      else if c = ''331'' then at_least 2 e ((server EvTopic)\<lparr>ev_Buffer := ps ! 1\<rparr>)
      else if c = ''333'' then at_least 4 e (translate_topic_time W net e)
      else if c = ''324'' then at_least 3 e ((server EvMode)\<lparr>ev_Buffer := ps ! 1, ev_Text := join_with (drop 2 ps) '' ''\<rparr>)
      else (case formatNumeric W e of
          Line text subject code \<Rightarrow> Emits ((server EvNumeric)\<lparr>ev_Nick := subject, ev_Text := text, ev_Count := code\<rparr>)
        | NoNumeric \<Rightarrow> Dropped
        | NumericPanic \<Rightarrow> Panics))"

text \<open>Every event is for the network of the connection.\<close>

lemma namesEvent_network: "namesEvent W net e prefixes = Some ev \<Longrightarrow> ev_Network ev = net \<and> ev_Type ev = EvNames"
  by (auto simp: namesEvent_def zero_event_def Let_def split: if_splits)

lemma channelModeEvent_network: "channelModeEvent W net e prefix chanmodes = Some ev \<Longrightarrow> ev_Network ev = net"
  by (auto simp: channelModeEvent_def zero_event_def Let_def split: if_splits)

end
