(* ===== verification/Irc_Conn.thy ===== *)
theory Irc_Conn
  imports Irc_Translate
begin

text \<open>
  Model of a network connection (\<^verbatim>\<open>internal/irc/conn.go\<close> and \<^verbatim>\<open>relay.go\<close>): the outbound queue, auto-join and
  MONITOR lines, inbound batches, the handlers registered with girc, fallback servers, and the state of a
  connection that runs through the connection engine. girc calls the handlers of one line before it
  starts on the next; handlers for all events come before those of a command, and an echo of our own line
  reaches only the former.
\<close>

section \<open>The outbound queue\<close>

record outboundRequest =
  or_raw :: string
  or_target :: string
  or_text :: string

record outboundWriter =
  ow_queue :: "outboundRequest list"
  ow_bg :: "outboundRequest list"
  ow_closed :: bool
  ow_waiting :: bool
  ow_ended :: bool

definition outboundQueueSize :: nat where "outboundQueueSize = 256"
definition backgroundQueueSize :: nat where "backgroundQueueSize = 64"

definition newOutboundWriter :: outboundWriter where
  "newOutboundWriter = \<lparr>ow_queue = [], ow_bg = [], ow_closed = False, ow_waiting = False, ow_ended = False\<rparr>"

definition raw_request :: "string \<Rightarrow> outboundRequest" where
  "raw_request line = \<lparr>or_raw = line, or_target = [], or_text = []\<rparr>"

datatype send_error = ErrNotConnected | ErrQueueFull

definition enqueue :: "outboundRequest \<Rightarrow> outboundWriter \<Rightarrow> send_error option \<times> outboundWriter" where
  "enqueue req w =
     (if ow_closed w then (Some ErrNotConnected, w)
      else if outboundQueueSize \<le> length (ow_queue w) then (Some ErrQueueFull, w)
      else (None, w\<lparr>ow_queue := ow_queue w @ [req]\<rparr>))"

text \<open>None while the caller waits for room.\<close>

definition enqueueBackground :: "outboundRequest \<Rightarrow> outboundWriter \<Rightarrow> (send_error option \<times> outboundWriter) option" where
  "enqueueBackground req w =
     (if ow_closed w then Some (Some ErrNotConnected, w)
      else if backgroundQueueSize \<le> length (ow_bg w) then None
      else Some (None, w\<lparr>ow_bg := ow_bg w @ [req]\<rparr>))"

text \<open>
  The loop of \<^verbatim>\<open>run\<close>: it first looks for a normal line without waiting; if there is none it waits for a line
  of either queue. When several cases of a select are ready, the closing of the writer among them, Go takes
  any of them; \<open>pick\<close> is that choice, and a choice that is not ready is no step.
\<close>

datatype ready = PickDone | PickQueue | PickBg

definition take_line :: "ready \<Rightarrow> outboundWriter \<Rightarrow> outboundRequest option \<times> outboundWriter" where
  "take_line pick w =
     (case pick of
        PickDone \<Rightarrow> (None, if ow_closed w then w\<lparr>ow_ended := True\<rparr> else w)
      | PickQueue \<Rightarrow> (case ow_queue w of r # rs \<Rightarrow> (Some r, w\<lparr>ow_queue := rs, ow_waiting := False\<rparr>) | [] \<Rightarrow> (None, w))
      | PickBg \<Rightarrow> (case ow_bg w of b # bs \<Rightarrow> (Some b, w\<lparr>ow_bg := bs, ow_waiting := False\<rparr>) | [] \<Rightarrow> (None, w)))"

definition run_turn :: "ready \<Rightarrow> outboundWriter \<Rightarrow> outboundRequest option \<times> outboundWriter" where
  "run_turn pick w =
     (if ow_ended w then (None, w)
      else if ow_waiting w then take_line pick w
      else if \<not> ow_closed w \<and> ow_queue w = [] then (None, w\<lparr>ow_waiting := True\<rparr>)
      else if pick = PickBg then (None, w)
      else take_line pick w)"

definition close_writer :: "outboundWriter \<Rightarrow> outboundWriter" where
  "close_writer w = w\<lparr>ow_closed := True\<rparr>"

section \<open>Sending\<close>

text \<open>What girc is told to send.\<close>

datatype girc_cmd = CmdRaw string | CmdMessage string string

definition newline :: char where "newline = CHR 0x0A"

definition messageNow :: "bool \<Rightarrow> string \<Rightarrow> string \<Rightarrow> nat \<Rightarrow> girc_cmd list \<times> nat" where
  "messageNow multiline target text sq =
     (if newline \<notin> set text then ([CmdMessage target text], sq)
      else (let lines = split_on text newline in
            if \<not> multiline then (map (CmdMessage target) lines, sq)
            else (let sq = (sq + 1) mod 2 ^ 64; ref = ''ml'' @ format_uint sq
                  in ([CmdRaw (''BATCH +'' @ ref @ '' draft/multiline '' @ target)]
                      @ map (\<lambda>ln. CmdRaw (''@batch='' @ ref @ '' PRIVMSG '' @ target @ '' :'' @ ln)) lines
                      @ [CmdRaw (''BATCH -'' @ ref)], sq))))"

text \<open>
  None while it waits: for the client to be connected, and for a replay to be over. A writer that is closed meanwhile
  drops the request.
\<close>

definition dispatchOutbound :: "bool \<Rightarrow> bool \<Rightarrow> bool \<Rightarrow> bool \<Rightarrow> outboundRequest \<Rightarrow> nat \<Rightarrow> (girc_cmd list \<times> nat) option" where
  "dispatchOutbound connected restoring closed multiline req sq =
     (if \<not> connected \<or> restoring then (if closed then Some ([], sq) else None)
      else Some (if or_raw req \<noteq> [] then ([CmdRaw (or_raw req)], sq) else messageNow multiline (or_target req) (or_text req) sq))"

section \<open>Auto-join and friends\<close>

definition planAutojoin :: "string list \<Rightarrow> (string \<rightharpoonup> string) \<Rightarrow> (string \<times> string) list \<times> string list" where
  "planAutojoin channels keys =
     (let key = (\<lambda>ch. case keys ch of Some k \<Rightarrow> k | None \<Rightarrow> [])
      in (map (\<lambda>ch. (ch, key ch)) (filter (\<lambda>ch. key ch \<noteq> []) channels), filter (\<lambda>ch. key ch = []) channels))"

definition joinLineBudget :: nat where "joinLineBudget = 400"

definition batch_line :: "string list \<Rightarrow> string list" where
  "batch_line batch = (if batch \<noteq> [] then [''JOIN '' @ join_with batch '',''] else [])"

fun join_batches :: "string list \<Rightarrow> string list \<Rightarrow> nat \<Rightarrow> string list" where
  "join_batches [] batch used = batch_line batch"
| "join_batches (ch # chs) batch used =
     (if batch \<noteq> [] \<and> joinLineBudget < used + 1 + length ch
      then batch_line batch @ join_batches chs [ch] (length ch + 1)
      else join_batches chs (batch @ [ch]) (used + length ch + 1))"

definition autojoinLines :: "string list \<Rightarrow> (string \<rightharpoonup> string) \<Rightarrow> string list" where
  "autojoinLines channels keys =
     (let (keyed, keyless) = planAutojoin channels keys
      in map (\<lambda>(ch, key). ''JOIN '' @ ch @ '' '' @ key) keyed @ join_batches keyless [] 0)"

definition monitorChunk :: nat where "monitorChunk = 15"

function monitor_lines :: "string list \<Rightarrow> string list" where
  "monitor_lines nicks =
     (if nicks = [] then []
      else (''MONITOR + '' @ join_with (take monitorChunk nicks) '','') # monitor_lines (drop monitorChunk nicks))"
  by pat_completeness auto
termination by (relation "measure length") (auto simp: monitorChunk_def)

declare monitor_lines.simps [simp del]

definition monitor_nicks :: "string \<Rightarrow> string list" where
  "monitor_nicks l = filter (\<lambda>n. n \<noteq> []) (map (\<lambda>tok. before_bang (trim_space tok)) (split_on l CHR '',''))"

definition emitMonitor :: "wire \<Rightarrow> string \<Rightarrow> gevent \<Rightarrow> bool \<Rightarrow> event list" where
  "emitMonitor W net e online =
     (if w_Last W e = [] \<or> monitor_nicks (w_Last W e) = [] then []
      else [(zero_event EvMonitor net)\<lparr>ev_Online := online, ev_Args := Some (monitor_nicks (w_Last W e))\<rparr>])"

section \<open>State of a connection\<close>

record histBatch =
  hb_target :: string
  hb_count :: int
  hb_last :: int

record multilineBatch =
  mb_notice :: bool
  mb_target :: string
  mb_source :: "source option"
  mb_tags :: "(string \<times> string) list option"
  mb_ts :: int
  mb_echo :: bool
  mb_lines :: "string list"
  mb_concat :: "bool list"

record resumeState =
  rs_info :: info
  rs_marker :: string

text \<open>The options that shape how a socket registers, and the others.\<close>

record registration =
  rg_TLS :: bool
  rg_Insecure :: bool
  rg_User :: string
  rg_Realname :: string
  rg_SASLUser :: string
  rg_SASLPass :: string
  rg_ServerPass :: string
  rg_SASLExternal :: bool
  rg_CertPEM :: string
  rg_SASLScram :: bool

record conn_options =
  co_Network :: string
  co_Addr :: string
  co_Fallbacks :: "string list"
  co_registration :: registration
  co_Nick :: string
  co_Channels :: "string list"
  co_ChannelKeys :: "string \<rightharpoonup> string"
  co_Monitor :: "string list"
  co_relay :: bool
  co_RelayID :: string

record conn =
  cn_opts :: conn_options
  cn_addrs :: "string list"
  cn_addrIdx :: nat
  cn_batches :: "string \<rightharpoonup> multilineBatch"
  cn_histBatches :: "string \<rightharpoonup> histBatch"
  cn_batchSeq :: nat
  cn_authFailed :: bool
  cn_outbound :: outboundWriter
  cn_sess :: bool
  cn_restoring :: bool
  cn_resume :: "resumeState option"
  cn_skipConnected :: bool
  cn_lastSeq :: nat
  cn_processed :: nat
  cn_closing :: bool
  cn_mech :: bool
  cn_sasl :: bool
  cn_configNick :: string

text \<open>
  What a handler does besides: events for the core, the goroutine that refreshes channels, and what \<^verbatim>\<open>Close\<close> asks of
  the relay session and of girc.
\<close>

datatype conn_effect = Emit event | SpawnRefresh "string list" | TerminateSession | CloseClient

type_synonym handled = "conn \<times> conn_effect list"

definition cn_net :: "conn \<Rightarrow> string" where "cn_net c = co_Network (cn_opts c)"

definition SendRaw_conn :: "bool \<Rightarrow> string \<Rightarrow> conn \<Rightarrow> send_error option \<times> conn" where
  "SendRaw_conn connected line c =
     (if \<not> connected then (Some ErrNotConnected, c)
      else (let (err, w) = enqueue (raw_request line) (cn_outbound c) in (err, c\<lparr>cn_outbound := w\<rparr>)))"

definition Message_conn :: "bool \<Rightarrow> string \<Rightarrow> string \<Rightarrow> conn \<Rightarrow> send_error option \<times> conn" where
  "Message_conn connected target text c =
     (if \<not> connected then (Some ErrNotConnected, c)
      else (let (err, w) = enqueue \<lparr>or_raw = [], or_target = target, or_text = text\<rparr> (cn_outbound c)
            in (err, c\<lparr>cn_outbound := w\<rparr>)))"

text \<open>The first line that is refused ends it.\<close>

fun send_until :: "bool \<Rightarrow> string list \<Rightarrow> conn \<Rightarrow> conn" where
  "send_until connected [] c = c"
| "send_until connected (l # ls) c =
     (let (err, c) = SendRaw_conn connected l c in if err \<noteq> None then c else send_until connected ls c)"

definition Autojoin_conn :: "bool \<Rightarrow> conn \<Rightarrow> conn" where
  "Autojoin_conn connected c =
     send_until connected (autojoinLines (co_Channels (cn_opts c)) (co_ChannelKeys (cn_opts c))) c"

definition Close_conn :: "conn \<Rightarrow> handled" where
  "Close_conn c = (c\<lparr>cn_closing := True, cn_outbound := close_writer (cn_outbound c)\<rparr>,
     (if cn_sess c then [TerminateSession] else []) @ [CloseClient])"

definition Detach_conn :: "conn \<Rightarrow> handled" where
  "Detach_conn c = (if \<not> co_relay (cn_opts c) then Close_conn c
     else (c\<lparr>cn_outbound := close_writer (cn_outbound c)\<rparr>, [CloseClient]))"

definition knownCaps :: "string list" where
  "knownCaps = [''echo-message'', ''server-time'', ''away-notify'', ''account-notify'', ''message-tags'', ''multi-prefix'', ''extended-join'',
     ''userhost-in-names'', ''invite-notify'', ''draft/chathistory'', ''chathistory'', ''account-tag'', ''labeled-response'',
     ''standard-replies'', ''draft/message-redaction'', ''draft/multiline'', ''chghost'', ''setname'', ''soju.im/bouncer-networks'',
     ''soju.im/bouncer-networks-notify'']"

definition Caps_conn :: "(string \<Rightarrow> bool) \<Rightarrow> string list" where
  "Caps_conn HasCapability = filter HasCapability knownCaps"

definition queue_line :: "string \<Rightarrow> conn \<Rightarrow> conn" where
  "queue_line line c = c\<lparr>cn_outbound := snd (enqueue (raw_request line) (cn_outbound c))\<rparr>"

definition armMonitor :: "conn \<Rightarrow> conn" where
  "armMonitor c = fold queue_line (monitor_lines (co_Monitor (cn_opts c))) c"

section \<open>Batches\<close>

definition isHistoryBatch :: "string \<Rightarrow> bool" where
  "isHistoryBatch typ \<longleftrightarrow> typ = ''chathistory'' \<or> typ = ''draft/chathistory''"

text \<open>The flag says whether the event is to be emitted.\<close>

definition filterHistory :: "wire \<Rightarrow> gevent \<Rightarrow> event \<Rightarrow> conn \<Rightarrow> bool \<times> conn" where
  "filterHistory W e ev c =
     (let ref = tag W e ''batch'' in
      case cn_histBatches c ref of
        None \<Rightarrow> (True, c)
      | Some b \<Rightarrow>
          if ev_Type ev \<noteq> EvMessageIn then (False, c)
          else (let last = (case ev_Message ev of
                       Some m \<Rightarrow> if hb_last b < msg_Time m then msg_Time m else hb_last b | None \<Rightarrow> hb_last b)
                in (True, c\<lparr>cn_histBatches := (cn_histBatches c)(ref \<mapsto> b\<lparr>hb_count := hb_count b + 1, hb_last := last\<rparr>)\<rparr>)))"

fun join_rest :: "string list \<Rightarrow> bool list \<Rightarrow> string" where
  "join_rest [] cs = []"
| "join_rest (ln # lns) cs =
     (case cs of
        [] \<Rightarrow> newline # ln @ join_rest lns []
      | c # cs \<Rightarrow> (if c then [] else [newline]) @ ln @ join_rest lns cs)"

definition joinMultiline :: "string list \<Rightarrow> bool list \<Rightarrow> string" where
  "joinMultiline lines cs = (case lines of [] \<Rightarrow> [] | ln # lns \<Rightarrow> ln @ join_rest lns (drop 1 cs))"

definition absorbMultiline :: "wire \<Rightarrow> gevent \<Rightarrow> conn \<Rightarrow> conn option" where
  "absorbMultiline W e c =
     (if g_Command e \<noteq> ''PRIVMSG'' \<and> g_Command e \<noteq> ''NOTICE'' then None
      else (case cn_batches c (tag W e ''batch'') of
          None \<Rightarrow> None
        | Some b \<Rightarrow> Some (c\<lparr>cn_batches := (cn_batches c)(tag W e ''batch'' \<mapsto>
              b\<lparr>mb_notice := (g_Command e = ''NOTICE''), mb_echo := (mb_echo b \<or> g_Echo e),
                mb_lines := mb_lines b @ [w_Last W e],
                mb_concat := mb_concat b @ [tag_get W e ''draft/multiline-concat'' \<noteq> None]\<rparr>)\<rparr>)))"

definition batch_event :: "multilineBatch \<Rightarrow> gevent" where
  "batch_event b = \<lparr>g_Source = mb_source b, g_Tags = mb_tags b, g_Timestamp = mb_ts b,
     g_Command = (if mb_notice b then ''NOTICE'' else ''PRIVMSG''),
     g_Params = [mb_target b, joinMultiline (mb_lines b) (mb_concat b)], g_Echo = mb_echo b\<rparr>"

definition emits :: "translated \<Rightarrow> conn_effect list" where
  "emits r = (case r of Emits ev \<Rightarrow> [Emit ev] | _ \<Rightarrow> [])"

definition finishBatch :: "wire \<Rightarrow> string \<Rightarrow> multilineBatch \<Rightarrow> conn \<Rightarrow> conn_effect list" where
  "finishBatch W nick b c = emits (toEvent W (cn_net c) (batch_event b) nick)"

definition open_batch :: "gevent \<Rightarrow> string \<Rightarrow> conn \<Rightarrow> handled" where
  "open_batch e ref c =
     (let ps = g_Params e; typ = param_at e 1;
          out = (if 2 \<le> length ps \<and> typ = ''soju.im/bouncer-networks'' then [Emit (zero_event EvBouncerNetwork (cn_net c))] else []);
          c = (if 3 \<le> length ps \<and> isHistoryBatch typ
               then c\<lparr>cn_histBatches := (cn_histBatches c)(ref \<mapsto> \<lparr>hb_target = ps ! 2, hb_count = 0, hb_last = 0\<rparr>)\<rparr> else c);
          c = (if 3 \<le> length ps \<and> typ = ''draft/multiline''
               then c\<lparr>cn_batches := (cn_batches c)(ref \<mapsto> \<lparr>mb_notice = False, mb_target = ps ! 2, mb_source = g_Source e,
                        mb_tags = g_Tags e, mb_ts = g_Timestamp e, mb_echo = False, mb_lines = [], mb_concat = []\<rparr>)\<rparr> else c)
      in (c, out))"

definition close_batch :: "wire \<Rightarrow> string \<Rightarrow> string \<Rightarrow> conn \<Rightarrow> handled" where
  "close_batch W nick ref c =
     (let (c, out) = (case cn_histBatches c ref of
            None \<Rightarrow> (c, [])
          | Some h \<Rightarrow> (c\<lparr>cn_histBatches := (cn_histBatches c)(ref := None)\<rparr>,
              [Emit ((zero_event EvHistoryBatch (cn_net c))\<lparr>ev_Time := hb_last h, ev_Buffer := hb_target h, ev_Count := hb_count h\<rparr>)]))
      in case cn_batches c ref of
           None \<Rightarrow> (c, out)
         | Some b \<Rightarrow> (let c = c\<lparr>cn_batches := (cn_batches c)(ref := None)\<rparr> in (c, out @ finishBatch W nick b c)))"

definition handleBatch :: "wire \<Rightarrow> string \<Rightarrow> gevent \<Rightarrow> conn \<Rightarrow> handled" where
  "handleBatch W nick e c =
     (if g_Params e = [] \<or> length (g_Params e ! 0) < 2 then (c, [])
      else (let ref = tl (g_Params e ! 0); sign = hd (g_Params e ! 0) in
            if sign = CHR ''+'' then open_batch e ref c
            else if sign = CHR ''-'' then close_batch W nick ref c
            else (c, [])))"

end
