(* ===== verification/Irc_Relay.thy ===== *)
theory Irc_Relay
  imports Irc_Conn Engine_Server
begin

text \<open>
  The handlers a connection registers with girc (\<^verbatim>\<open>registerHandlers\<close> in \<^verbatim>\<open>internal/irc/conn.go\<close>), the fallback
  servers and the outcome of \<^verbatim>\<open>Connect\<close>, and what \<^verbatim>\<open>relay.go\<close> adds when the socket lives in the connection
  engine: the processed watermark and its acknowledgements, and resuming.
\<close>

section \<open>Addresses\<close>

text \<open>\<^verbatim>\<open>net.SplitHostPort\<close>; None for its errors.\<close>

definition SplitHostPort :: "string \<Rightarrow> (string \<times> string) option" where
  "SplitHostPort hp =
     (case last_index_byte hp CHR '':'' of
        None \<Rightarrow> None
      | Some i \<Rightarrow>
          (let inner = (if hp ! 0 = CHR ''['' then
                 (case index_byte hp CHR '']'' of
                    None \<Rightarrow> None
                  | Some j \<Rightarrow> if j + 1 = i then Some (drop 1 (take j hp), 1, j + 1) else None)
               else if CHR '':'' \<in> set (take i hp) then None else Some (take i hp, 0, 0))
           in case inner of
                None \<Rightarrow> None
              | Some (host, j, k) \<Rightarrow>
                  if CHR ''['' \<in> set (drop j hp) \<or> CHR '']'' \<in> set (drop k hp) then None
                  else Some (host, drop (i + 1) hp)))"

definition splitAddr :: "string \<Rightarrow> bool \<Rightarrow> (string \<times> int) option" where
  "splitAddr addr tls =
     (if addr = [] then None
      else (case SplitHostPort addr of
          None \<Rightarrow> Some (addr, if tls then 6697 else 6667)
        | Some (host, port) \<Rightarrow> (case atoi port of None \<Rightarrow> None | Some p \<Rightarrow> Some (host, p))))"

definition advanceAddr :: "conn \<Rightarrow> conn" where
  "advanceAddr c = (if 1 < length (cn_addrs c) then c\<lparr>cn_addrIdx := (cn_addrIdx c + 1) mod length (cn_addrs c)\<rparr> else c)"

definition stableConn :: int where "stableConn = 30000"

datatype connect_result = ContextDone | AuthRejected | ConnectionEnded

text \<open>The end of \<^verbatim>\<open>Connect\<close> once girc has returned, after \<open>lasted\<close> milliseconds.\<close>

definition connect_end :: "bool \<Rightarrow> int \<Rightarrow> conn \<Rightarrow> connect_result \<times> conn" where
  "connect_end cancelled lasted c =
     (if cancelled then (ContextDone, c)
      else if cn_authFailed c then (AuthRejected, c)
      else (ConnectionEnded, if lasted < stableConn then advanceAddr c else c))"

definition status_line :: "wire \<Rightarrow> conn \<Rightarrow> string \<Rightarrow> conn_effect" where
  "status_line W c text = Emit ((zero_event EvNumeric (cn_net c))\<lparr>ev_Time := w_now W, ev_Text := text\<rparr>)"

definition via :: "conn \<Rightarrow> string" where
  "via c = (if rg_TLS (co_registration (cn_opts c)) then ''TLS'' else ''plaintext'')"

definition ellipsis :: string where "ellipsis = [CHR 0xE2, CHR 0x80, CHR 0xA6]"

text \<open>
  \<^verbatim>\<open>New\<close>: the errors it reports, and the connection it builds; \<open>cert_ok\<close> says whether a certificate parses.
\<close>

datatype new_error = BadAddr | NoRelayID | BadCertificate

definition firstNonEmpty :: "string list \<Rightarrow> string" where
  "firstNonEmpty vals = (case find (\<lambda>v. v \<noteq> []) vals of Some v \<Rightarrow> v | None \<Rightarrow> [])"

definition New_conn :: "(string \<Rightarrow> bool) \<Rightarrow> conn_options \<Rightarrow> new_error + conn" where
  "New_conn cert_ok opts =
     (let r = co_registration opts in
      if splitAddr (co_Addr opts) (rg_TLS r) = None then Inl BadAddr
      else if co_relay opts \<and> co_RelayID opts = [] then Inl NoRelayID
      else if rg_CertPEM r \<noteq> [] \<and> \<not> cert_ok (rg_CertPEM r) then Inl BadCertificate
      else (let mech = (rg_SASLExternal r \<or> rg_SASLUser r \<noteq> []) in
        Inr \<lparr>cn_opts = opts, cn_addrs = co_Addr opts # filter (\<lambda>a. a \<noteq> []) (map trim_space (co_Fallbacks opts)), cn_addrIdx = 0,
          cn_batches = Map.empty, cn_histBatches = Map.empty, cn_batchSeq = 0, cn_authFailed = False,
          cn_outbound = newOutboundWriter, cn_sess = False, cn_restoring = False, cn_resume = None, cn_skipConnected = False,
          cn_lastSeq = 0, cn_processed = 0, cn_closing = False, cn_mech = mech, cn_sasl = mech,
          cn_configNick = firstNonEmpty [co_Nick opts, ''stugan'']\<rparr>))"

text \<open>The start of \<^verbatim>\<open>Connect\<close>, for a connection without a relay: None when the current address is unusable.\<close>

definition connect_begin :: "wire \<Rightarrow> conn \<Rightarrow> ((string \<times> int) option) \<times> handled" where
  "connect_begin W c =
     (let c = c\<lparr>cn_batches := Map.empty, cn_histBatches := Map.empty\<rparr> in
      case splitAddr (cn_addrs c ! cn_addrIdx c) (rg_TLS (co_registration (cn_opts c))) of
        None \<Rightarrow> (None, advanceAddr c, [])
      | Some (host, port) \<Rightarrow> (Some (host, port), c\<lparr>cn_sasl := (cn_mech c \<or> cn_sasl c), cn_authFailed := False\<rparr>,
          [status_line W c (''connecting to '' @ host @ '':'' @ format_int port @ '' ('' @ via c @ '')'' @ ellipsis)]))"

section \<open>Acknowledging\<close>

text \<open>
  The bookkeeping handler: an ack probe says that everything through its number is handled; a numbered
  line says so of the line before it.
\<close>

definition relay_mark :: "wire \<Rightarrow> gevent \<Rightarrow> conn \<Rightarrow> conn" where
  "relay_mark W e c =
     (case relayTag (tag_get W e TagAck) of
        Some n \<Rightarrow> c\<lparr>cn_processed := markProcessed n (cn_processed c)\<rparr>
      | None \<Rightarrow>
          (case relayTag (tag_get W e TagSeq) of
             None \<Rightarrow> c
           | Some n \<Rightarrow> c\<lparr>cn_lastSeq := n,
               cn_processed := (if 0 < cn_lastSeq c then markProcessed (cn_lastSeq c) (cn_processed c) else cn_processed c)\<rparr>))"

text \<open>A tick of \<^verbatim>\<open>ackLoop\<close>: the number to acknowledge once the core has committed what is queued.\<close>

definition ack_tick :: "nat \<Rightarrow> conn \<Rightarrow> nat option \<times> nat" where
  "ack_tick queued c = (if queued < cn_processed c then (Some (cn_processed c), cn_processed c) else (None, queued))"

definition isReplay :: "wire \<Rightarrow> gevent \<Rightarrow> bool" where
  "isReplay W e \<longleftrightarrow> tag_get W e TagReplay \<noteq> None"

section \<open>Resuming\<close>

text \<open>\<^verbatim>\<open>connectRelay\<close> once the engine has answered: whether the session was held, and its marker.\<close>

definition relay_open :: "info \<Rightarrow> string \<Rightarrow> conn \<Rightarrow> conn" where
  "relay_open i marker c =
     (let c = c\<lparr>cn_lastSeq := 0, cn_processed := 0,
            cn_configNick := (if in_attached i \<and> in_nick i \<noteq> [] then in_nick i else firstNonEmpty [co_Nick (cn_opts c), ''stugan''])\<rparr>;
          c = (if in_attached i
               then c\<lparr>cn_restoring := True, cn_skipConnected := \<not> in_unattended i,
                      cn_resume := Some \<lparr>rs_info = i, rs_marker = marker\<rparr>\<rparr>
               else c\<lparr>cn_restoring := False, cn_skipConnected := False, cn_resume := None\<rparr>)
      in c\<lparr>cn_sasl := (cn_mech c \<or> cn_sasl c), cn_authFailed := False\<rparr>)"

text \<open>The outcome of \<^verbatim>\<open>Relay.Open\<close>, and \<^verbatim>\<open>connectRelay\<close> up to the point where girc runs.\<close>

datatype open_result = OpenCancelled | OpenUpstream | OpenFailed | Opened info string

definition relay_opened :: "open_result \<Rightarrow> conn \<Rightarrow> connect_result option \<times> handled" where
  "relay_opened r c =
     (case r of
        OpenCancelled \<Rightarrow> (Some ContextDone, c, [])
      | OpenUpstream \<Rightarrow> (Some ConnectionEnded, advanceAddr c, [])
      | OpenFailed \<Rightarrow> (Some ConnectionEnded, c, [])
      | Opened i marker \<Rightarrow>
          (let c = c\<lparr>cn_sess := True\<rparr>
           in if cn_closing c then (Some ConnectionEnded, c, [TerminateSession]) else (None, relay_open i marker c, [])))"

text \<open>\<^verbatim>\<open>OnRestored\<close>: the session has swallowed the client's registration.\<close>

definition on_restored :: "conn \<Rightarrow> conn" where
  "on_restored c = c\<lparr>cn_restoring := False\<rparr>"

text \<open>The end of \<^verbatim>\<open>connectRelay\<close>: the last number to acknowledge, and whether the socket is to be ended.\<close>

definition relay_end :: "bool \<Rightarrow> int \<Rightarrow> conn \<Rightarrow> connect_result \<times> nat option \<times> bool \<times> conn" where
  "relay_end cancelled lasted c =
     (let last = (if 0 < cn_lastSeq c then Some (cn_lastSeq c) else None);
          c = c\<lparr>cn_restoring := False, cn_resume := None\<rparr>
      in if \<not> cancelled \<and> cn_authFailed c then (AuthRejected, last, True, c)
         else if cancelled then (ContextDone, last, False, c)
         else (ConnectionEnded, last, False, if lasted < stableConn then advanceAddr c else c))"

text \<open>\<^verbatim>\<open>Duration.Round(time.Second)\<close> of milliseconds, half away from zero, printed.\<close>

definition detached_text :: "int \<Rightarrow> string" where
  "detached_text ms = duration_string (sgn ms * ((abs ms + 500) div 1000 * 1000))"

definition finishResume :: "wire \<Rightarrow> string \<Rightarrow> resumeState \<Rightarrow> conn \<Rightarrow> handled" where
  "finishResume W nick r c =
     (let i = rs_info r;
          out = [status_line W c (''resumed connection held by stugan-engine (detached '' @ detached_text (in_detachedMs i)
                   @ '', '' @ format_uint (in_backlog i) @ '' buffered line(s))'')]
                @ (if 0 < in_lost i
                   then [status_line W c (''warning: stugan-engine's buffer filled while stugan was down; ''
                           @ format_uint (in_lost i) @ '' earlier line(s) were lost'')] else [])
      in if in_unattended i then (c, out)
         else (armMonitor c,
               out @ [Emit ((zero_event EvConnect (cn_net c))\<lparr>ev_Nick := (if in_nick i = [] then nick else in_nick i),
                        ev_Resumed := True, ev_Args := Some (in_channels i)\<rparr>)]
                   @ (if in_channels i \<noteq> [] then [SpawnRefresh (in_channels i)] else [])))"

definition refresh_lines :: "string list \<Rightarrow> string list" where
  "refresh_lines chans = concat (map (\<lambda>ch. [''NAMES '' @ ch, ''TOPIC '' @ ch]) chans)"

section \<open>Handlers\<close>

record serverOptions =
  so_PREFIX :: "string option"
  so_CHANMODES :: "string option"
  so_DefaultPrefixes :: string
  so_ModeDefaults :: string

definition on_connected :: "string \<Rightarrow> conn \<Rightarrow> handled" where
  "on_connected nick c =
     (if cn_skipConnected c then (c\<lparr>cn_skipConnected := False\<rparr>, [])
      else (armMonitor c, [Emit ((zero_event EvConnect (cn_net c))\<lparr>ev_Nick := nick\<rparr>)]))"

definition on_disconnected :: "wire \<Rightarrow> gevent \<Rightarrow> conn \<Rightarrow> handled" where
  "on_disconnected W e c = (c, [Emit ((zero_event EvDisconnect (cn_net c))\<lparr>ev_Text := w_Last W e\<rparr>)])"

definition on_ping :: "wire \<Rightarrow> string \<Rightarrow> gevent \<Rightarrow> conn \<Rightarrow> handled" where
  "on_ping W nick e c =
     (case cn_resume c of
        Some r \<Rightarrow> if w_Last W e = rs_marker r then finishResume W nick r (c\<lparr>cn_resume := None\<rparr>) else (c, [])
      | None \<Rightarrow> (c, []))"

definition handled_commands :: "string list" where
  "handled_commands = [''PRIVMSG'', ''NOTICE'', ''JOIN'', ''PART'', ''KICK'', ''QUIT'', ''NICK'', ''TOPIC'', ''332'', ''331'', ''AWAY'',
     ''INVITE'', ''ACCOUNT'', ''CHGHOST'', ''SETNAME'', ''CHATHISTORY'', ''BOUNCER'', ''322'', ''323'', ''TAGMSG'',
     ''REDACT'', ''FAIL'', ''WARN'', ''NOTE''] @ numericReplies"

definition on_command :: "wire \<Rightarrow> string \<Rightarrow> gevent \<Rightarrow> conn \<Rightarrow> handled" where
  "on_command W nick e c =
     (if isReplay W e then (c, [])
      else (case absorbMultiline W e c of
          Some c \<Rightarrow> (c, [])
        | None \<Rightarrow>
            (case toEvent W (cn_net c) e nick of
               Emits ev \<Rightarrow> (let (keep, c) = filterHistory W e ev c in (c, if keep then [Emit ev] else []))
             | _ \<Rightarrow> (c, []))))"

definition on_names :: "wire \<Rightarrow> serverOptions \<Rightarrow> gevent \<Rightarrow> conn \<Rightarrow> handled" where
  "on_names W so e c =
     (if isReplay W e then (c, [])
      else (let prefix = (case so_PREFIX so of Some p \<Rightarrow> p | None \<Rightarrow> so_DefaultPrefixes so)
            in (c, case namesEvent W (cn_net c) e (prefixSymbols prefix) of Some ev \<Rightarrow> [Emit ev] | None \<Rightarrow> [])))"

definition on_mode :: "wire \<Rightarrow> serverOptions \<Rightarrow> gevent \<Rightarrow> conn \<Rightarrow> handled" where
  "on_mode W so e c =
     (if isReplay W e then (c, [])
      else (let prefix = (case so_PREFIX so of Some p \<Rightarrow> p | None \<Rightarrow> so_DefaultPrefixes so);
                chanmodes = (case so_CHANMODES so of Some m \<Rightarrow> m | None \<Rightarrow> so_ModeDefaults so)
            in (c, case channelModeEvent W (cn_net c) e prefix chanmodes of Some ev \<Rightarrow> [Emit ev] | None \<Rightarrow> [])))"

definition on_echo :: "wire \<Rightarrow> string \<Rightarrow> gevent \<Rightarrow> conn \<Rightarrow> handled" where
  "on_echo W nick e c =
     (if \<not> g_Echo e \<or> isReplay W e then (c, [])
      else (case absorbMultiline W e c of
          Some c \<Rightarrow> (c, [])
        | None \<Rightarrow> (c, emits (toEvent W (cn_net c) e nick))))"

text \<open>\<^verbatim>\<open>ERR_SASLFAIL\<close>, \<^verbatim>\<open>ERR_SASLTOOLONG\<close>, \<^verbatim>\<open>ERR_SASLABORTED\<close>, \<^verbatim>\<open>RPL_NICKLOCKED\<close>.\<close>

definition sasl_failures :: "string list" where
  "sasl_failures = [''904'', ''905'', ''906'', ''902'']"

definition on_line :: "wire \<Rightarrow> serverOptions \<Rightarrow> string \<Rightarrow> gevent \<Rightarrow> conn \<Rightarrow> handled" where
  "on_line W so nick e c =
     (let c = relay_mark W e c; cmd = g_Command e in
      if g_Echo e then on_echo W nick e c
      else if cmd = ''PING'' then on_ping W nick e c
      else if cmd = ''730'' then (c, map Emit (emitMonitor W (cn_net c) e True))
      else if cmd = ''731'' then (c, map Emit (emitMonitor W (cn_net c) e False))
      else if cmd = ''903'' then (if cn_mech c then c\<lparr>cn_sasl := False\<rparr> else c, [])
      else if cmd = ''BATCH'' then handleBatch W nick e c
      else if cmd = ''353'' then on_names W so e c
      else if cmd = ''MODE'' then on_mode W so e c
      else if cmd \<in> set sasl_failures then (if isReplay W e then c else c\<lparr>cn_authFailed := True\<rparr>, [])
      else if cmd \<in> set handled_commands then on_command W nick e c
      else (c, []))"

end
