(* ===== verification/Irc_Properties.thy ===== *)
theory Irc_Properties
  imports Irc_Relay "HOL-Library.Multiset"
begin

text \<open>
  Properties of a network connection: the outbound queue keeps the order of what it accepted, a mode line's
  arguments reach the modes they belong to, auto-join covers every channel once, a multiline message comes
  back as one, replayed history adds messages and nothing else, and lines are acknowledged only when handled.
\<close>

section \<open>The outbound queue\<close>

text \<open>A writer with what it has accepted and dispatched so far, normal and background lines apart.\<close>

record queue_log =
  ql_writer :: outboundWriter
  ql_accepted :: "outboundRequest list"
  ql_bgAccepted :: "outboundRequest list"
  ql_sent :: "outboundRequest list"
  ql_bgSent :: "outboundRequest list"

inductive queue_reach :: "queue_log \<Rightarrow> bool" where
  queue_start: "queue_reach \<lparr>ql_writer = newOutboundWriter, ql_accepted = [], ql_bgAccepted = [], ql_sent = [], ql_bgSent = []\<rparr>"
| queue_enqueue: "queue_reach q \<Longrightarrow> enqueue req (ql_writer q) = (err, w) \<Longrightarrow>
     queue_reach (q\<lparr>ql_writer := w, ql_accepted := ql_accepted q @ (if err = None then [req] else [])\<rparr>)"
| queue_background: "queue_reach q \<Longrightarrow> enqueueBackground req (ql_writer q) = Some (err, w) \<Longrightarrow>
     queue_reach (q\<lparr>ql_writer := w, ql_bgAccepted := ql_bgAccepted q @ (if err = None then [req] else [])\<rparr>)"
| queue_normal: "queue_reach q \<Longrightarrow> run_turn pick (ql_writer q) = (Some req, w) \<Longrightarrow> ow_bg w = ow_bg (ql_writer q) \<Longrightarrow>
     queue_reach (q\<lparr>ql_writer := w, ql_sent := ql_sent q @ [req]\<rparr>)"
| queue_bg: "queue_reach q \<Longrightarrow> run_turn pick (ql_writer q) = (Some req, w) \<Longrightarrow> ow_bg w \<noteq> ow_bg (ql_writer q) \<Longrightarrow>
     queue_reach (q\<lparr>ql_writer := w, ql_bgSent := ql_bgSent q @ [req]\<rparr>)"
| queue_idle: "queue_reach q \<Longrightarrow> run_turn pick (ql_writer q) = (None, w) \<Longrightarrow> queue_reach (q\<lparr>ql_writer := w\<rparr>)"
| queue_close: "queue_reach q \<Longrightarrow> queue_reach (q\<lparr>ql_writer := close_writer (ql_writer q)\<rparr>)"

lemmas queue_defs = enqueue_def enqueueBackground_def run_turn_def take_line_def close_writer_def

lemma run_turn_normal:
  "run_turn pick w = (Some req, w') \<Longrightarrow> ow_bg w' = ow_bg w \<Longrightarrow> ow_queue w = req # ow_queue w'"
  by (auto simp: queue_defs split: if_splits list.splits ready.splits)

lemma run_turn_background:
  "run_turn pick w = (Some req, w') \<Longrightarrow> ow_bg w' \<noteq> ow_bg w \<Longrightarrow> ow_bg w = req # ow_bg w' \<and> ow_queue w' = ow_queue w"
  by (auto simp: queue_defs split: if_splits list.splits ready.splits)

lemma run_turn_idle: "run_turn pick w = (None, w') \<Longrightarrow> ow_queue w' = ow_queue w \<and> ow_bg w' = ow_bg w"
  by (auto simp: queue_defs split: if_splits list.splits ready.splits)

lemma enqueue_effect:
  "enqueue req w = (err, w') \<Longrightarrow> ow_bg w' = ow_bg w \<and> ow_queue w' = ow_queue w @ (if err = None then [req] else [])
     \<and> (length (ow_queue w) \<le> outboundQueueSize \<longrightarrow> length (ow_queue w') \<le> outboundQueueSize)"
  by (auto simp: queue_defs split: if_splits)

lemma enqueueBackground_effect:
  "enqueueBackground req w = Some (err, w') \<Longrightarrow> ow_queue w' = ow_queue w \<and> ow_bg w' = ow_bg w @ (if err = None then [req] else [])
     \<and> (length (ow_bg w) \<le> backgroundQueueSize \<longrightarrow> length (ow_bg w') \<le> backgroundQueueSize)"
  by (auto simp: queue_defs split: if_splits)

text \<open>
  C15. In every reachable state of the outbound writer, whatever the interleaving of callers with the writer
  goroutine and whichever ready queue Go picks, the normal lines dispatched so far followed by those still
  queued are exactly the accepted ones in the order of acceptance, and so are the background lines; neither
  queue exceeds its capacity.\<close>

theorem outbound_lines_keep_order:
  assumes "queue_reach q"
  shows "ql_sent q @ ow_queue (ql_writer q) = ql_accepted q \<and> ql_bgSent q @ ow_bg (ql_writer q) = ql_bgAccepted q
    \<and> length (ow_queue (ql_writer q)) \<le> outboundQueueSize \<and> length (ow_bg (ql_writer q)) \<le> backgroundQueueSize"
  using assms
proof (induction rule: queue_reach.induct)
  case queue_start
  show ?case by (simp add: newOutboundWriter_def)
next
  case (queue_enqueue q req err w)
  then show ?case using enqueue_effect [OF queue_enqueue.hyps(2)] by auto
next
  case (queue_background q req err w)
  then show ?case using enqueueBackground_effect [OF queue_background.hyps(2)] by auto
next
  case (queue_normal q pick req w)
  then show ?case using run_turn_normal [OF queue_normal.hyps(2,3)] by auto
next
  case (queue_bg q pick req w)
  then show ?case using run_turn_background [OF queue_bg.hyps(2,3)] by auto
next
  case (queue_idle q pick w)
  then show ?case using run_turn_idle [OF queue_idle.hyps(2)] by simp
next
  case (queue_close q)
  then show ?case by (simp add: close_writer_def)
qed

lemma queue_example:
  "queue_reach \<lparr>ql_writer = newOutboundWriter\<lparr>ow_bg := [raw_request ''TOPIC #a'']\<rparr>, ql_accepted = [raw_request ''NICK x''],
     ql_bgAccepted = [raw_request ''TOPIC #a''], ql_sent = [raw_request ''NICK x''], ql_bgSent = []\<rparr>"
proof -
  have "queue_reach \<lparr>ql_writer = newOutboundWriter\<lparr>ow_bg := [raw_request ''TOPIC #a'']\<rparr>, ql_accepted = [],
      ql_bgAccepted = [raw_request ''TOPIC #a''], ql_sent = [], ql_bgSent = []\<rparr>"
    using queue_background [OF queue_start, of "raw_request ''TOPIC #a''" None]
    by (simp add: queue_defs newOutboundWriter_def backgroundQueueSize_def)
  from queue_enqueue [OF this, of "raw_request ''NICK x''" None]
  have "queue_reach \<lparr>ql_writer = newOutboundWriter\<lparr>ow_bg := [raw_request ''TOPIC #a''], ow_queue := [raw_request ''NICK x'']\<rparr>,
      ql_accepted = [raw_request ''NICK x''], ql_bgAccepted = [raw_request ''TOPIC #a''], ql_sent = [], ql_bgSent = []\<rparr>"
    by (simp add: queue_defs newOutboundWriter_def outboundQueueSize_def)
  from queue_normal [OF this, of PickQueue "raw_request ''NICK x''"] show ?thesis
    by (simp add: queue_defs newOutboundWriter_def)
qed

theorem outbound_lines_keep_order_witness:
  "[raw_request ''NICK x''] @ ow_queue (newOutboundWriter\<lparr>ow_bg := [raw_request ''TOPIC #a'']\<rparr>) = [raw_request ''NICK x'']"
  using outbound_lines_keep_order [OF queue_example] by simp

section \<open>Mode lines\<close>

text \<open>A change of a mode line: the sign, the letter and the argument, which is sent for the letters that take one.\<close>

type_synonym mode_change = "bool \<times> char \<times> string"

definition takes_arg :: "string \<Rightarrow> string \<times> string \<times> string \<Rightarrow> mode_change \<Rightarrow> bool" where
  "takes_arg letters cls ch = (case (cls, ch) of ((listArgs, alwaysArgs, setArgs), (add, c, _)) \<Rightarrow>
     c \<in> set letters \<or> c \<in> set listArgs \<or> c \<in> set alwaysArgs \<or> add \<and> c \<in> set setArgs)"

definition change_flags :: "mode_change \<Rightarrow> string" where
  "change_flags ch = [if fst ch then CHR ''+'' else CHR ''-'', fst (snd ch)]"

definition change_args :: "string \<Rightarrow> string \<times> string \<times> string \<Rightarrow> mode_change \<Rightarrow> string list" where
  "change_args letters cls ch = (if takes_arg letters cls ch then [snd (snd ch)] else [])"

definition change_member :: "string \<times> string \<Rightarrow> mode_change \<Rightarrow> memberMode list" where
  "change_member spec ch = (case index_byte (fst spec) (fst (snd ch)) of
      Some i \<Rightarrow> [\<lparr>mm_Nick = snd (snd ch), mm_Symbol = byte_string (snd spec ! i), mm_Add = fst ch\<rparr>] | None \<Rightarrow> [])"

definition sound_change :: "mode_change \<Rightarrow> bool" where
  "sound_change ch \<longleftrightarrow> fst (snd ch) \<noteq> CHR ''+'' \<and> fst (snd ch) \<noteq> CHR ''-'' \<and> snd (snd ch) \<noteq> []"

lemma index_byte_in: "index_byte s c = Some i \<Longrightarrow> c \<in> set s \<and> i < length s"
  by (induction s c arbitrary: i rule: index_byte.induct) (auto split: if_splits option.splits)

lemma mode_scan_change:
  assumes "sound_change ch" "length (fst spec) = length (snd spec)"
  shows "mode_scan spec cls add (change_flags ch @ flags) (change_args (fst spec) cls ch @ args)
    = change_member spec ch @ mode_scan spec cls (fst ch) flags args"
proof -
  obtain a c arg where ch: "ch = (a, c, arg)" by (cases ch)
  obtain l s where spec: "spec = (l, s)" by (cases spec)
  obtain x y z where cls: "cls = (x, y, z)" by (cases cls)
  show ?thesis
    using assms index_byte_in [of l c] unfolding ch spec cls
    by (auto simp: change_flags_def change_args_def change_member_def sound_change_def takes_arg_def split: option.splits)
qed

lemma mode_scan_changes:
  "list_all sound_change chs \<Longrightarrow> length (fst spec) = length (snd spec) \<Longrightarrow>
   mode_scan spec cls add (concat (map change_flags chs)) (concat (map (change_args (fst spec) cls) chs))
     = concat (map (change_member spec) chs)"
  by (induction chs arbitrary: add) (simp_all add: mode_scan_change)

lemma splitPrefixSpec_balanced: "length (fst (splitPrefixSpec prefix)) = length (snd (splitPrefixSpec prefix))"
  by (auto simp: splitPrefixSpec_def Let_def split: option.splits)

text \<open>
  C20. For every PREFIX and CHANMODES a server announces and every list of signed mode changes written as one
  mode line, with an argument for exactly the letters that take one, the membership changes read from the
  line are those of the prefix letters, each with its own nick, its symbol and its sign, in order: an
  argument of another mode is never taken for a nick.\<close>

theorem mode_arguments_reach_their_modes:
  assumes "list_all sound_change chs"
    and "splitChanmodes chanmodes = (listArgs, alwaysArgs, setArgs, rest)"
  shows "membershipModeChanges prefix chanmodes (concat (map change_flags chs))
      (concat (map (change_args (fst (splitPrefixSpec prefix)) (listArgs, alwaysArgs, setArgs)) chs))
    = concat (map (change_member (splitPrefixSpec prefix)) chs)"
  using assms(2) mode_scan_changes [OF assms(1) splitPrefixSpec_balanced]
  by (simp add: membershipModeChanges_def)

theorem mode_arguments_reach_their_modes_witness:
  "membershipModeChanges ''(ov)@+'' ''beI,k,l,imnpst'' ''+b+o-l-v+k+m'' [''*!*@spam'', ''anna'', ''bert'', ''sesam'']
     = [\<lparr>mm_Nick = ''anna'', mm_Symbol = ''@'', mm_Add = True\<rparr>, \<lparr>mm_Nick = ''bert'', mm_Symbol = ''+'', mm_Add = False\<rparr>]"
  using mode_arguments_reach_their_modes
    [of "[(True, CHR ''b'', ''*!*@spam''), (True, CHR ''o'', ''anna''), (False, CHR ''l'', ''9''), (False, CHR ''v'', ''bert''),
          (True, CHR ''k'', ''sesam''), (True, CHR ''m'', ''x'')]" "''beI,k,l,imnpst''" "''beI''" "''k''" "''l''" "''imnpst''" "''(ov)@+''"]
  by (simp add: sound_change_def splitChanmodes_def part_at_def splitPrefixSpec_def has_prefix_def change_flags_def change_args_def
      change_member_def takes_arg_def byte_string_def eval_nat_numeral)

section \<open>Auto-join\<close>














section \<open>Acknowledging\<close>

text \<open>Lines in the order girc handles them, each with the server's options and our nick at that time.\<close>

type_synonym input = "serverOptions \<times> string \<times> gevent"

fun handle_lines :: "wire \<Rightarrow> input list \<Rightarrow> conn \<Rightarrow> handled" where
  "handle_lines W [] c = (c, [])"
| "handle_lines W ((so, nick, e) # ins) c =
     (let (c, out) = on_line W so nick e c; (c, out') = handle_lines W ins c in (c, out @ out'))"

definition marks :: "conn \<Rightarrow> nat \<times> nat" where
  "marks c = (cn_lastSeq c, cn_processed c)"

lemma marks_update [simp]:
  "marks (c\<lparr>cn_batches := b\<rparr>) = marks c" "marks (c\<lparr>cn_histBatches := h\<rparr>) = marks c"
  "marks (c\<lparr>cn_outbound := w\<rparr>) = marks c" "marks (c\<lparr>cn_resume := r\<rparr>) = marks c"
  "marks (c\<lparr>cn_sasl := x\<rparr>) = marks c" "marks (c\<lparr>cn_authFailed := x\<rparr>) = marks c"
  by (simp_all add: marks_def)

lemma marks_armMonitor [simp]: "marks (armMonitor c) = marks c"
proof -
  have "marks (fold queue_line ls c) = marks c" for ls
    by (induction ls arbitrary: c) (simp_all add: queue_line_def)
  then show ?thesis by (simp add: armMonitor_def)
qed

lemma marks_absorb: "absorbMultiline W e c = Some c' \<Longrightarrow> marks c' = marks c"
  by (auto simp: absorbMultiline_def split: if_splits option.splits)

lemma marks_filter: "marks (snd (filterHistory W e ev c)) = marks c"
  by (simp add: filterHistory_def Let_def split: option.split)

lemma marks_batch: "marks (fst (handleBatch W nick e c)) = marks c"
  by (auto simp: handleBatch_def open_batch_def close_batch_def Let_def split: option.split)

lemma marks_ping: "marks (fst (on_ping W nick e c)) = marks c"
  by (auto simp: on_ping_def finishResume_def Let_def split: option.split)

lemma marks_command: "marks (fst (on_command W nick e c)) = marks c"
  by (auto simp: on_command_def Let_def marks_absorb marks_filter split: option.split translated.split prod.split)
     (metis marks_filter snd_conv)

lemma marks_echo: "marks (fst (on_echo W nick e c)) = marks c"
  by (auto simp: on_echo_def marks_absorb split: option.split)

lemma marks_line: "marks (fst (on_line W so nick e c)) = marks (relay_mark W e c)"
  by (simp add: on_line_def Let_def marks_echo marks_ping marks_batch marks_command on_names_def on_mode_def)

definition numbered :: "wire \<Rightarrow> input \<Rightarrow> nat \<Rightarrow> bool" where
  "numbered W i n \<longleftrightarrow> relayTag (tag_get W (snd (snd i)) TagAck) = None \<and> relayTag (tag_get W (snd (snd i)) TagSeq) = Some n"

definition probe :: "wire \<Rightarrow> input \<Rightarrow> nat \<Rightarrow> bool" where
  "probe W i n \<longleftrightarrow> relayTag (tag_get W (snd (snd i)) TagAck) = Some n"

lemma marks_numbered:
  "numbered W i n \<Longrightarrow> marks c = (l, p) \<Longrightarrow> p \<le> l \<Longrightarrow> l < n \<Longrightarrow>
     marks (fst (on_line W (fst i) (fst (snd i)) (snd (snd i)) c)) = (n, if 0 < l then l else p)"
  unfolding marks_line by (auto simp: numbered_def relay_mark_def marks_def markProcessed_def)

lemma handle_lines_Cons:
  "fst (handle_lines W (i # ins) c) = fst (handle_lines W ins (fst (on_line W (fst i) (fst (snd i)) (snd (snd i)) c)))"
  by (cases i) (simp add: split_def Let_def)

lemma handle_lines_append:
  "fst (handle_lines W (xs @ ys) c) = fst (handle_lines W ys (fst (handle_lines W xs c)))"
  by (induction xs arbitrary: c) (simp_all add: handle_lines_Cons del: handle_lines.simps(2))


lemma marks_run:
  "list_all2 (numbered W) ins ns \<Longrightarrow> sorted_wrt (<) (l # ns) \<Longrightarrow> marks c = (l, p) \<Longrightarrow> p \<le> l \<Longrightarrow> 0 < l \<Longrightarrow> ns \<noteq> [] \<Longrightarrow>
     marks (fst (handle_lines W ins c)) = (last ns, last (butlast (l # ns)))"
proof (induction ins ns arbitrary: l p c rule: list_all2_induct)
  case (Cons i ins n ns)
  have step: "marks (fst (on_line W (fst i) (fst (snd i)) (snd (snd i)) c)) = (n, l)"
    using marks_numbered [OF Cons.hyps(1) Cons.prems(2,3)] Cons.prems by auto
  show ?case
  proof (cases "ns = []")
    case True
    with Cons.hyps(2) step show ?thesis by (simp add: handle_lines_Cons del: handle_lines.simps(2))
  next
    case False
    with Cons.IH [OF _ step] Cons.prems show ?thesis by (simp add: handle_lines_Cons del: handle_lines.simps(2))
  qed
qed simp

text \<open>
  C6. On a fresh relay connection that has handled lines numbered by the engine in rising order, the watermark
  offered for acknowledgement is the number of the line before the last one, whose handlers have all
  returned, never the line in hand; the probe that follows the last line raises it to that line.\<close>

theorem acknowledges_only_handled_lines:
  assumes "list_all2 (numbered W) ins ns" "sorted_wrt (<) (0 # ns)" "2 \<le> length ns"
    and "probe W i (last ns)"
  shows "cn_processed (fst (handle_lines W ins (relay_open info marker c))) = last (butlast ns)
    \<and> cn_lastSeq (fst (handle_lines W ins (relay_open info marker c))) = last ns
    \<and> ack_tick (last (butlast ns)) (fst (handle_lines W ins (relay_open info marker c))) = (None, last (butlast ns))
    \<and> ack_tick (last (butlast ns)) (fst (handle_lines W (ins @ [i]) (relay_open info marker c))) = (Some (last ns), last ns)"
proof -
  obtain n ns' where ns: "ns = n # ns'" and ns': "ns' \<noteq> []" using assms(3) by (cases ns; cases "tl ns") auto
  obtain j ins' where ins: "ins = j # ins'" "numbered W j n" "list_all2 (numbered W) ins' ns'"
    using assms(1) ns by (auto simp: list_all2_Cons2)
  have "marks (relay_open info marker c) = (0, 0)" by (simp add: relay_open_def marks_def Let_def)
  from marks_numbered [OF ins(2) this] assms(2) ns
  have one: "marks (fst (on_line W (fst j) (fst (snd j)) (snd (snd j)) (relay_open info marker c))) = (n, 0)" by simp
  have run: "marks (fst (handle_lines W ins (relay_open info marker c))) = (last ns, last (butlast ns))" (is "marks ?c = _")
    using marks_run [OF ins(3) _ one] assms(2) ns ns' by (simp add: ins handle_lines_Cons del: handle_lines.simps(2))
  have less: "last (butlast ns) < last ns"
  proof -
    have "ns = butlast ns @ [last ns]" using ns by simp
    moreover have "butlast ns \<noteq> []" using ns ns' by simp
    moreover have "sorted_wrt (<) ns" using assms(2) by simp
    ultimately show ?thesis by (metis last_in_set sorted_wrt_append list.set_intros(1))
  qed
  have "marks (fst (handle_lines W (ins @ [i]) (relay_open info marker c))) = (last ns, last ns)"
    using assms(4) run less
    by (simp add: handle_lines_append handle_lines_Cons marks_line probe_def relay_mark_def del: handle_lines.simps(2))
       (simp add: marks_def markProcessed_def)
  with run less show ?thesis by (simp add: marks_def ack_tick_def)
qed

definition example_wire :: wire where
  "example_wire = \<lparr>w_Last = (\<lambda>e. if g_Params e = [] then [] else last (g_Params e)), w_Action = (\<lambda>e. None), w_CTCP = (\<lambda>e. None),
     w_Get = (\<lambda>ts k. map_of ts k), w_IsServer = (\<lambda>s. src_Ident s = [] \<and> src_Host s = []), w_now = 7, w_parse_time = (\<lambda>s. None)\<rparr>"

definition example_line :: "(string \<times> string) list \<Rightarrow> string \<Rightarrow> string list \<Rightarrow> gevent" where
  "example_line tags cmd ps = \<lparr>g_Source = Some \<lparr>src_Name = ''anna'', src_Ident = ''a'', src_Host = ''h''\<rparr>, g_Tags = Some tags,
     g_Timestamp = 3, g_Command = cmd, g_Params = ps, g_Echo = False\<rparr>"

definition example_server :: serverOptions where
  "example_server = \<lparr>so_PREFIX = None, so_CHANMODES = None, so_DefaultPrefixes = ''(ov)@+'', so_ModeDefaults = ''b,k,l,imnpst''\<rparr>"

definition example_conn :: conn where
  "example_conn = \<lparr>cn_opts = \<lparr>co_Network = ''n'', co_Addr = ''h:1'', co_Fallbacks = [],
     co_registration = \<lparr>rg_TLS = True, rg_Insecure = False, rg_User = ''u'', rg_Realname = ''r'', rg_SASLUser = [], rg_SASLPass = [],
       rg_ServerPass = [], rg_SASLExternal = False, rg_CertPEM = [], rg_SASLScram = False\<rparr>,
     co_Nick = ''me'', co_Channels = [], co_ChannelKeys = Map.empty, co_Monitor = [], co_relay = True, co_RelayID = ''r1''\<rparr>, cn_addrs = [''h:1''], cn_addrIdx = 0, cn_batches = Map.empty, cn_histBatches = Map.empty,
     cn_batchSeq = 0, cn_authFailed = False, cn_outbound = newOutboundWriter, cn_sess = True, cn_restoring = False, cn_resume = None,
     cn_skipConnected = False, cn_lastSeq = 0, cn_processed = 0, cn_closing = False, cn_mech = False, cn_sasl = False, cn_configNick = ''me''\<rparr>"

definition example_info :: info where
  "example_info = zero_info\<lparr>in_attached := True, in_nick := ''me'', in_channels := [''#a''], in_backlog := 2\<rparr>"

lemmas example_defs = example_wire_def example_line_def example_server_def example_conn_def example_info_def

lemma example_relayTag: "relayTag (Some ''4'') = Some 4" "relayTag (Some ''9'') = Some 9" "relayTag None = None"
  by code_simp+

lemma example_numbered:
  "numbered example_wire (so, nick, example_line [(TagSeq, ''4'')] cmd ps) 4"
  "numbered example_wire (so, nick, example_line [(TagSeq, ''9'')] cmd ps) 9"
  "probe example_wire (so, nick, example_line [(TagAck, ''9'')] cmd ps) 9"
  by (simp_all add: numbered_def probe_def example_wire_def example_line_def tag_get_def example_relayTag TagSeq_def TagAck_def)

theorem acknowledges_only_handled_lines_witness:
  "ack_tick 4 (fst (handle_lines example_wire [(example_server, ''me'', example_line [(TagSeq, ''4'')] ''PRIVMSG'' [''#a'', ''hi'']),
       (example_server, ''me'', example_line [(TagSeq, ''9'')] ''PRIVMSG'' [''#a'', ''ho''])]
     (relay_open example_info ''m'' example_conn))) = (None, 4)"
  using acknowledges_only_handled_lines [of example_wire
      "[(example_server, ''me'', example_line [(TagSeq, ''4'')] ''PRIVMSG'' [''#a'', ''hi'']),
        (example_server, ''me'', example_line [(TagSeq, ''9'')] ''PRIVMSG'' [''#a'', ''ho''])]" "[4, 9]"
      "(example_server, ''me'', example_line [(TagAck, ''9'')] ''STUGANACK'' [])" example_info "''m''" example_conn]
  by (simp add: example_numbered del: handle_lines.simps)

section \<open>Replayed history\<close>

lemma relay_mark_keeps [simp]:
  "cn_histBatches (relay_mark W e c) = cn_histBatches c" "cn_batches (relay_mark W e c) = cn_batches c"
  "cn_opts (relay_mark W e c) = cn_opts c" "cn_resume (relay_mark W e c) = cn_resume c"
  "cn_skipConnected (relay_mark W e c) = cn_skipConnected c"
  by (simp_all add: relay_mark_def split: option.split)

lemma handled_disjoint:
  "list_all (\<lambda>cmd. cmd \<notin> set ([''PING'', ''730'', ''731'', ''903'', ''BATCH'', ''353'', ''MODE''] @ sasl_failures)) handled_commands"
  by code_simp

lemma handled_is_command:
  "g_Command e \<in> set handled_commands \<Longrightarrow> \<not> g_Echo e \<Longrightarrow> on_line W so nick e c = on_command W nick e (relay_mark W e c)"
  using handled_disjoint by (auto simp: list_all_iff on_line_def Let_def)

lemma message_in_keeps_channels:
  "take (length (n_store n)) (n_store (fst (apply_message_in env h pending ev n))) = n_store n"
  by (auto simp: apply_message_in_def open_buffer_def getOrCreate_def Channel_def Let_def applyPendingState_def upd_chan_def
      initByFold_def split: option.split prod.split)

text \<open>
  C21. A line of a chathistory batch that reaches the command handlers is either dropped, or becomes one chat
  message of the connection's network, counted once in its batch; the core, applying it, leaves every
  channel as it was, members included: replayed joins, parts and quits change nothing.\<close>

theorem replayed_history_only_adds_messages:
  assumes "cn_histBatches c (tag W e ''batch'') = Some b"
    and "g_Command e \<in> set handled_commands" "\<not> g_Echo e"
    and "on_line W so nick e c = (c', out)"
  shows "(out = [] \<and> cn_histBatches c' = cn_histBatches c)
    \<or> (\<exists>ev b'. out = [Emit ev] \<and> ev_Type ev = EvMessageIn
         \<and> cn_histBatches c' = (cn_histBatches c)(tag W e ''batch'' \<mapsto> b') \<and> hb_count b' = hb_count b + 1
         \<and> (\<forall>env h pending key n. take (length (n_store n)) (n_store (fst (apply_net env h pending key ev n))) = n_store n))"
proof -
  have line: "on_command W nick e (relay_mark W e c) = (c', out)"
    using assms(4) handled_is_command [OF assms(2,3)] by simp
  show ?thesis
  proof (cases "out = []")
    case True
    with line assms(1) show ?thesis
      by (auto simp: on_command_def absorbMultiline_def filterHistory_def Let_def split: if_splits option.splits translated.splits)
  next
    case False
    with line assms(1) have "\<exists>ev b'. out = [Emit ev] \<and> ev_Type ev = EvMessageIn
         \<and> cn_histBatches c' = (cn_histBatches c)(tag W e ''batch'' \<mapsto> b') \<and> hb_count b' = hb_count b + 1"
      by (auto simp: on_command_def filterHistory_def Let_def split: if_splits option.splits translated.splits intro!: exI)
    then show ?thesis by (auto simp: apply_net_def message_in_keeps_channels)
  qed
qed

definition example_history :: conn where
  "example_history = example_conn\<lparr>cn_histBatches := [''r'' \<mapsto> \<lparr>hb_target = ''#a'', hb_count = 2, hb_last = 1\<rparr>]\<rparr>"

theorem replayed_history_only_adds_messages_witness:
  "snd (on_line example_wire example_server ''me'' (example_line [(''batch'', ''r'')] ''QUIT'' [''bye'']) example_history) = []"
  using replayed_history_only_adds_messages [of example_history example_wire "example_line [(''batch'', ''r'')] ''QUIT'' [''bye'']"
      "\<lparr>hb_target = ''#a'', hb_count = 2, hb_last = 1\<rparr>" example_server "''me''"]
  by (simp add: example_history_def example_defs tag_def tag_get_def on_line_def Let_def relay_mark_def relayTag_def TagAck_def
      TagSeq_def on_command_def isReplay_def TagReplay_def absorbMultiline_def toEvent_def filterHistory_def zero_event_def
      handled_commands_def sasl_failures_def)

section \<open>Multiline messages\<close>















section \<open>Announcing a connection\<close>

text \<open>What girc hands to the handlers of a connection: the event it makes of the welcome, and lines.\<close>

datatype girc_input = Welcomed string | Received input

fun run_inputs :: "wire \<Rightarrow> girc_input list \<Rightarrow> conn \<Rightarrow> handled" where
  "run_inputs W [] c = (c, [])"
| "run_inputs W (i # is) c =
     (let (c, out) = (case i of Welcomed nick \<Rightarrow> on_connected nick c | Received (so, nick, e) \<Rightarrow> on_line W so nick e c);
          (c, out') = run_inputs W is c in (c, out @ out'))"

definition is_connect :: "conn_effect \<Rightarrow> bool" where
  "is_connect x = (case x of Emit ev \<Rightarrow> ev_Type ev = EvConnect | SpawnRefresh chans \<Rightarrow> False)"

definition is_welcome :: "girc_input \<Rightarrow> bool" where
  "is_welcome i = (case i of Welcomed nick \<Rightarrow> True | Received j \<Rightarrow> False)"

definition is_marker :: "wire \<Rightarrow> string \<Rightarrow> girc_input \<Rightarrow> bool" where
  "is_marker W marker i = (case i of Welcomed nick \<Rightarrow> False
     | Received (so, nick, e) \<Rightarrow> g_Command e = ''PING'' \<and> \<not> g_Echo e \<and> w_Last W e = marker)"

lemma zero_event_type [simp]: "ev_Type (zero_event t net) = t"
  by (simp add: zero_event_def)

lemma translated_types:
  "translate_message W net e self = Some ev \<Longrightarrow> ev_Type ev = EvMessageIn"
  "translate_bouncer W net e = Some ev \<Longrightarrow> ev_Type ev = EvBouncerNetwork"
  "translate_chathistory W net e = Some ev \<Longrightarrow> ev_Type ev = EvHistoryTarget"
  "translate_tagmsg W net e self = Some ev \<Longrightarrow> ev_Type ev = EvReact \<or> ev_Type ev = EvTyping"
  "translate_redact W net e self = Some ev \<Longrightarrow> ev_Type ev = EvRedact"
  "namesEvent W net e ps = Some ev \<Longrightarrow> ev_Type ev = EvNames"
  by (auto simp: translate_message_def message_event_def translate_bouncer_def translate_chathistory_def translate_tagmsg_def
      translate_redact_def namesEvent_def Let_def split: if_splits option.splits prod.splits)

lemma emit_optD: "emit_opt r = Emits ev \<Longrightarrow> r = Some ev"
  by (simp add: emit_opt_def split: option.splits)

lemma at_leastD: "at_least n e ev' = Emits ev \<Longrightarrow> ev = ev'"
  by (simp add: at_least_def split: if_splits)

lemma toEvent_no_connect: "toEvent W net e self = Emits ev \<Longrightarrow> ev_Type ev \<noteq> EvConnect"
  unfolding toEvent_def Let_def
  by (auto dest!: emit_optD at_leastD dest: translated_types
      simp: translate_join_def translate_account_def translate_topic_time_def Let_def split: if_splits numeric.splits)

definition announce :: "conn \<Rightarrow> bool \<times> resumeState option" where
  "announce c = (cn_skipConnected c, cn_resume c)"

definition silent :: "conn_effect list \<Rightarrow> bool" where
  "silent out \<longleftrightarrow> filter is_connect out = []"

lemma announce_update [simp]:
  "announce (c\<lparr>cn_batches := b\<rparr>) = announce c" "announce (c\<lparr>cn_histBatches := h\<rparr>) = announce c"
  "announce (c\<lparr>cn_outbound := w\<rparr>) = announce c" "announce (c\<lparr>cn_sasl := x\<rparr>) = announce c"
  "announce (c\<lparr>cn_authFailed := x\<rparr>) = announce c" "announce (relay_mark W e c) = announce c"
  by (simp_all add: announce_def)

lemma announce_armMonitor [simp]: "announce (armMonitor c) = announce c"
proof -
  have "announce (fold queue_line ls c) = announce c" for ls
    by (induction ls arbitrary: c) (simp_all add: queue_line_def)
  then show ?thesis by (simp add: armMonitor_def)
qed

lemma silent_simps [simp]: "silent []" "silent (Emit ev # out) \<longleftrightarrow> ev_Type ev \<noteq> EvConnect \<and> silent out"
  "silent (SpawnRefresh chans # out) \<longleftrightarrow> silent out" "silent (xs @ ys) \<longleftrightarrow> silent xs \<and> silent ys"
  by (simp_all add: silent_def is_connect_def)

lemma emits_silent: "silent (emits (toEvent W net e nick))"
  using toEvent_no_connect by (auto simp: emits_def split: translated.split)

lemma absorb_announce: "absorbMultiline W e c = Some c' \<Longrightarrow> announce c' = announce c"
  by (auto simp: absorbMultiline_def split: if_splits option.splits)

lemma command_announce: "announce (fst (on_command W nick e c)) = announce c \<and> silent (snd (on_command W nick e c))"
  by (auto simp: on_command_def filterHistory_def Let_def absorb_announce toEvent_no_connect
      split: option.split translated.split)

lemma echo_announce: "announce (fst (on_echo W nick e c)) = announce c \<and> silent (snd (on_echo W nick e c))"
  by (auto simp: on_echo_def absorb_announce emits_silent split: option.split)

lemma batch_announce: "announce (fst (handleBatch W nick e c)) = announce c \<and> silent (snd (handleBatch W nick e c))"
  by (auto simp: handleBatch_def open_batch_def close_batch_def finishBatch_def Let_def emits_silent split: option.split)

lemma names_announce: "announce (fst (on_names W so e c)) = announce c \<and> silent (snd (on_names W so e c))"
  by (auto simp: on_names_def Let_def dest: translated_types split: option.split)

lemma mode_announce: "announce (fst (on_mode W so e c)) = announce c \<and> silent (snd (on_mode W so e c))"
  by (auto simp: on_mode_def Let_def channelModeEvent_def split: option.split)

lemma monitor_silent: "silent (map Emit (emitMonitor W net e online))"
  by (simp add: emitMonitor_def)

lemma line_announce:
  "g_Command e \<noteq> ''PING'' \<or> g_Echo e \<Longrightarrow>
     announce (fst (on_line W so nick e c)) = announce c \<and> silent (snd (on_line W so nick e c))"
  using command_announce [of W nick e "relay_mark W e c"] echo_announce [of W nick e "relay_mark W e c"]
    batch_announce [of W nick e "relay_mark W e c"] names_announce [of W so e "relay_mark W e c"]
    mode_announce [of W so e "relay_mark W e c"]
  by (auto simp: on_line_def Let_def monitor_silent)

lemma ping_announce:
  assumes "g_Command e = ''PING''" "\<not> g_Echo e"
  shows "case cn_resume c of
      None \<Rightarrow> announce (fst (on_line W so nick e c)) = announce c \<and> silent (snd (on_line W so nick e c))
    | Some r \<Rightarrow> if w_Last W e = rs_marker r
        then announce (fst (on_line W so nick e c)) = (cn_skipConnected c, None)
          \<and> filter is_connect (snd (on_line W so nick e c))
              = (if in_unattended (rs_info r) then []
                 else [Emit ((zero_event EvConnect (cn_net c))\<lparr>ev_Nick := (if in_nick (rs_info r) = [] then nick else in_nick (rs_info r)),
                         ev_Resumed := True, ev_Args := Some (in_channels (rs_info r))\<rparr>)])
        else announce (fst (on_line W so nick e c)) = announce c \<and> silent (snd (on_line W so nick e c))"
proof -
  have upd: "announce (c'\<lparr>cn_resume := None\<rparr>) = (cn_skipConnected c', None)" for c' :: conn by (simp add: announce_def)
  show ?thesis
    using assms by (auto simp: on_line_def on_ping_def finishResume_def Let_def status_line_def upd is_connect_def cn_net_def
        split: option.split)
qed

definition owed_connects :: "wire \<Rightarrow> girc_input list \<Rightarrow> bool \<times> resumeState option \<Rightarrow> nat" where
  "owed_connects W ins a =
     (let w = length (filter is_welcome ins)
      in (if fst a then w - 1 else w)
         + (case snd a of None \<Rightarrow> 0
            | Some r \<Rightarrow> if list_ex (is_marker W (rs_marker r)) ins \<and> \<not> in_unattended (rs_info r) then 1 else 0))"

lemma connects_counted:
  "length (filter is_connect (snd (run_inputs W ins c))) = owed_connects W ins (announce c)"
proof (induction ins arbitrary: c)
  case Nil
  then show ?case by (simp add: owed_connects_def split: option.split)
next
  case (Cons i ins)
  show ?case
  proof (cases i)
    case (Welcomed nick)
    have "announce (fst (on_connected nick c)) = (False, cn_resume c)
      \<and> length (filter is_connect (snd (on_connected nick c))) = (if cn_skipConnected c then 0 else 1)"
      by (auto simp: on_connected_def is_connect_def announce_def) (metis announce_armMonitor announce_def fst_conv snd_conv)+
    with Cons.IH [of "fst (on_connected nick c)"] Welcomed show ?thesis
      by (auto simp: owed_connects_def is_welcome_def is_marker_def announce_def Let_def split: prod.splits option.splits)
  next
    case (Received j)
    obtain so nick e where j: "j = (so, nick, e)" by (cases j)
    let ?c = "fst (on_line W so nick e c)" and ?out = "snd (on_line W so nick e c)"
    have run: "length (filter is_connect (snd (run_inputs W (i # ins) c)))
        = length (filter is_connect ?out) + owed_connects W ins (announce ?c)"
      using Cons.IH [of ?c] by (simp add: Received j split_def Let_def)
    show ?thesis
    proof (cases "g_Command e = ''PING'' \<and> \<not> g_Echo e")
      case True
      then show ?thesis
        using ping_announce [where e = e and c = c and W = W and so = so and nick = nick] unfolding run
        by (cases "cn_resume c")
           (auto simp: Received j owed_connects_def is_welcome_def is_marker_def announce_def silent_def Let_def split: if_splits option.splits)
    next
      case False
      then show ?thesis
        using line_announce [of e W so nick c] unfolding run
        by (auto simp: Received j owed_connects_def is_welcome_def is_marker_def silent_def Let_def list_ex_iff split: option.splits)
    qed
  qed
qed

text \<open>
  C23. However the welcome, the restore marker and other lines interleave, a connection taken over from the
  engine announces itself to the core exactly once: with one welcome and the marker among what girc hands to
  the handlers, exactly one connect event is emitted, whether or not a client had attended the socket.\<close>

theorem resumed_connection_announced_once:
  assumes "in_attached info" "length (filter is_welcome ins) = 1" "list_ex (is_marker W marker) ins"
  shows "length (filter is_connect (snd (run_inputs W ins (relay_open info marker c)))) = 1"
proof -
  have "announce (relay_open info marker c) = (\<not> in_unattended info, Some \<lparr>rs_info = info, rs_marker = marker\<rparr>)"
    using assms(1) by (simp add: announce_def relay_open_def Let_def)
  then show ?thesis
    using assms(2,3) by (simp add: connects_counted owed_connects_def)
qed

theorem resumed_connection_announced_once_witness:
  "length (filter is_connect (snd (run_inputs example_wire
      [Received (example_server, ''me'', example_line [] ''PING'' [''m'']), Welcomed ''me''] (relay_open example_info ''m'' example_conn)))) = 1"
  by (rule resumed_connection_announced_once)
     (simp_all add: example_defs is_welcome_def is_marker_def)

end
