(* ===== verification/Go_Crypto.thy ===== *)
theory Go_Crypto
  imports Go_Strings "HOL-Library.Word"
begin

text \<open>
  The parts of Go's standard library that SASL and the relay fingerprint use: base64 and hexadecimal text
  (\<^verbatim>\<open>encoding/base64\<close>, \<^verbatim>\<open>encoding/hex\<close>), SHA-256 and SHA-512, HMAC and PBKDF2. Byte slices are strings.
\<close>

unbundle bit_operations_syntax

section \<open>Base64\<close>

definition base64_alphabet :: string where
  "base64_alphabet = ''ABCDEFGHIJKLMNOPQRSTUVWXYZabcdefghijklmnopqrstuvwxyz0123456789+/''"

definition b64_char :: "nat \<Rightarrow> char" where "b64_char n = base64_alphabet ! n"

definition b64_value :: "char \<Rightarrow> nat option" where "b64_value c = index_byte base64_alphabet c"

definition byte :: "char \<Rightarrow> nat" where "byte c = of_char c"

fun base64_encode :: "string \<Rightarrow> string" where
  "base64_encode [] = []"
| "base64_encode [a] = [b64_char (byte a div 4), b64_char (byte a mod 4 * 16), CHR ''='', CHR ''='']"
| "base64_encode [a, b] = [b64_char (byte a div 4), b64_char (byte a mod 4 * 16 + byte b div 16),
     b64_char (byte b mod 16 * 4), CHR ''='']"
| "base64_encode (a # b # c # rest) = [b64_char (byte a div 4), b64_char (byte a mod 4 * 16 + byte b div 16),
     b64_char (byte b mod 16 * 4 + byte c div 64), b64_char (byte c mod 64)] @ base64_encode rest"

text \<open>\<^verbatim>\<open>StdEncoding.DecodeString\<close>: carriage returns and newlines are skipped, padding is required, unused bits are not checked.\<close>

fun base64_quanta :: "string \<Rightarrow> string option" where
  "base64_quanta [] = Some []"
| "base64_quanta (a # b # c # d # rest) =
     (case (b64_value a, b64_value b) of
        (Some x, Some y) \<Rightarrow>
          if c = CHR ''='' \<and> d = CHR ''='' then (if rest = [] then Some [char_of (x * 4 + y div 16)] else None)
          else (case b64_value c of
              None \<Rightarrow> None
            | Some z \<Rightarrow>
                if d = CHR ''='' then (if rest = [] then Some [char_of (x * 4 + y div 16), char_of (y mod 16 * 16 + z div 4)] else None)
                else (case (b64_value d, base64_quanta rest) of
                    (Some v, Some bs) \<Rightarrow> Some ([char_of (x * 4 + y div 16), char_of (y mod 16 * 16 + z div 4), char_of (z mod 4 * 64 + v)] @ bs)
                  | _ \<Rightarrow> None))
      | _ \<Rightarrow> None)"
| "base64_quanta _ = None"

definition base64_decode :: "string \<Rightarrow> string option" where
  "base64_decode s = base64_quanta (filter (\<lambda>c. c \<noteq> CHR 0x0D \<and> c \<noteq> CHR 0x0A) s)"

definition hex_digit :: "nat \<Rightarrow> char" where "hex_digit n = ''0123456789abcdef'' ! n"

definition hex_encode :: "string \<Rightarrow> string" where
  "hex_encode bs = concat (map (\<lambda>b. [hex_digit (byte b div 16), hex_digit (byte b mod 16)]) bs)"

section \<open>SHA-2\<close>

text \<open>The rotations and shifts of a variant.\<close>

record sha_rotations =
  r_S0 :: "nat \<times> nat \<times> nat"
  r_S1 :: "nat \<times> nat \<times> nat"
  r_s0 :: "nat \<times> nat \<times> nat"
  r_s1 :: "nat \<times> nat \<times> nat"

definition big_sigma :: "nat \<times> nat \<times> nat \<Rightarrow> 'a::len word \<Rightarrow> 'a word" where
  "big_sigma r x = (case r of (a, b, c) \<Rightarrow> word_rotr a x XOR word_rotr b x XOR word_rotr c x)"

definition small_sigma :: "nat \<times> nat \<times> nat \<Rightarrow> 'a::len word \<Rightarrow> 'a word" where
  "small_sigma r x = (case r of (a, b, c) \<Rightarrow> word_rotr a x XOR word_rotr b x XOR drop_bit c x)"

text \<open>The message schedule, newest word first.\<close>

fun sha_schedule :: "sha_rotations \<Rightarrow> nat \<Rightarrow> 'a::len word list \<Rightarrow> 'a word list" where
  "sha_schedule R 0 w = w"
| "sha_schedule R (Suc k) w =
     sha_schedule R k ((small_sigma (r_s1 R) (w ! 1) + w ! 6 + small_sigma (r_s0 R) (w ! 14) + w ! 15) # w)"

type_synonym 'a sha_state = "'a word \<times> 'a word \<times> 'a word \<times> 'a word \<times> 'a word \<times> 'a word \<times> 'a word \<times> 'a word"

definition sha_round :: "sha_rotations \<Rightarrow> 'a::len word \<times> 'a word \<Rightarrow> 'a sha_state \<Rightarrow> 'a sha_state" where
  "sha_round R kw st =
     (case (kw, st) of ((k, w), (a, b, c, d, e, f, g, h)) \<Rightarrow>
        (let t1 = h + big_sigma (r_S1 R) e + ((e AND f) XOR (NOT e AND g)) + k + w;
             t2 = big_sigma (r_S0 R) a + ((a AND b) XOR (a AND c) XOR (b AND c))
         in (t1 + t2, a, b, c, d + t1, e, f, g)))"

definition sha_block :: "sha_rotations \<Rightarrow> 'a::len word list \<Rightarrow> 'a word list \<Rightarrow> 'a sha_state \<Rightarrow> 'a sha_state" where
  "sha_block R K block st =
     (case (st, fold (sha_round R) (zip K (rev (sha_schedule R (length K - 16) (rev block)))) st) of
        ((a, b, c, d, e, f, g, h), (a', b', c', d', e', f', g', h')) \<Rightarrow>
          (a + a', b + b', c + c', d + d', e + e', f + f', g + g', h + h'))"

function chunks_of :: "nat \<Rightarrow> 'a list \<Rightarrow> 'a list list" where
  "chunks_of n xs = (if n = 0 \<or> xs = [] then [] else take n xs # chunks_of n (drop n xs))"
  by pat_completeness auto
termination by (relation "measure (\<lambda>(n, xs). length xs)") auto

declare chunks_of.simps [simp del]

definition be_nat :: "string \<Rightarrow> nat" where "be_nat bs = foldl (\<lambda>n c. n * 256 + byte c) 0 bs"

definition be_bytes :: "nat \<Rightarrow> nat \<Rightarrow> string" where
  "be_bytes k n = map (\<lambda>i. char_of (n div 256 ^ (k - 1 - i))) [0..<k]"

definition sha_pad :: "nat \<Rightarrow> nat \<Rightarrow> string \<Rightarrow> string" where
  "sha_pad bsize lsize m =
     (let used = (length m + 1 + lsize) mod bsize
      in m @ [CHR 0x80] @ replicate ((bsize - used) mod bsize) (CHR 0x00) @ be_bytes lsize (8 * length m))"

definition sha_digest :: "nat \<Rightarrow> 'a::len sha_state \<Rightarrow> string" where
  "sha_digest wsize st = (case st of (a, b, c, d, e, f, g, h) \<Rightarrow>
     concat (map (\<lambda>w. be_bytes wsize (unat w)) [a, b, c, d, e, f, g, h]))"

definition sha2 :: "nat \<Rightarrow> sha_rotations \<Rightarrow> 'a::len word list \<Rightarrow> 'a sha_state \<Rightarrow> string \<Rightarrow> string" where
  "sha2 wsize R K iv m =
     sha_digest wsize (fold (\<lambda>block. sha_block R K (map (\<lambda>bs. word_of_nat (be_nat bs)) (chunks_of wsize block)))
       (chunks_of (16 * wsize) (sha_pad (16 * wsize) (2 * wsize) m)) iv)"

definition sha256_k :: "32 word list" where
  "sha256_k =
    [1116352408, 1899447441, 3049323471, 3921009573, 961987163, 1508970993, 2453635748, 2870763221, 3624381080,
     310598401, 607225278, 1426881987, 1925078388, 2162078206, 2614888103, 3248222580, 3835390401, 4022224774,
     264347078, 604807628, 770255983, 1249150122, 1555081692, 1996064986, 2554220882, 2821834349, 2952996808,
     3210313671, 3336571891, 3584528711, 113926993, 338241895, 666307205, 773529912, 1294757372, 1396182291,
     1695183700, 1986661051, 2177026350, 2456956037, 2730485921, 2820302411, 3259730800, 3345764771, 3516065817,
     3600352804, 4094571909, 275423344, 430227734, 506948616, 659060556, 883997877, 958139571, 1322822218,
     1537002063, 1747873779, 1955562222, 2024104815, 2227730452, 2361852424, 2428436474, 2756734187, 3204031479,
     3329325298]"

definition sha512_k :: "64 word list" where
  "sha512_k =
    [4794697086780616226, 8158064640168781261, 13096744586834688815, 16840607885511220156, 4131703408338449720,
     6480981068601479193, 10538285296894168987, 12329834152419229976, 15566598209576043074, 1334009975649890238,
     2608012711638119052, 6128411473006802146, 8268148722764581231, 9286055187155687089, 11230858885718282805,
     13951009754708518548, 16472876342353939154, 17275323862435702243, 1135362057144423861, 2597628984639134821,
     3308224258029322869, 5365058923640841347, 6679025012923562964, 8573033837759648693, 10970295158949994411,
     12119686244451234320, 12683024718118986047, 13788192230050041572, 14330467153632333762, 15395433587784984357,
     489312712824947311, 1452737877330783856, 2861767655752347644, 3322285676063803686, 5560940570517711597,
     5996557281743188959, 7280758554555802590, 8532644243296465576, 9350256976987008742, 10552545826968843579,
     11727347734174303076, 12113106623233404929, 14000437183269869457, 14369950271660146224, 15101387698204529176,
     15463397548674623760, 17586052441742319658, 1182934255886127544, 1847814050463011016, 2177327727835720531,
     2830643537854262169, 3796741975233480872, 4115178125766777443, 5681478168544905931, 6601373596472566643,
     7507060721942968483, 8399075790359081724, 8693463985226723168, 9568029438360202098, 10144078919501101548,
     10430055236837252648, 11840083180663258601, 13761210420658862357, 14299343276471374635, 14566680578165727644,
     15097957966210449927, 16922976911328602910, 17689382322260857208, 500013540394364858, 748580250866718886,
     1242879168328830382, 1977374033974150939, 2944078676154940804, 3659926193048069267, 4368137639120453308,
     4836135668995329356, 5532061633213252278, 6448918945643986474, 6902733635092675308, 7801388544844847127]"

definition sha256_sum :: "string \<Rightarrow> string" where
  "sha256_sum = sha2 4 \<lparr>r_S0 = (2, 13, 22), r_S1 = (6, 11, 25), r_s0 = (7, 18, 3), r_s1 = (17, 19, 10)\<rparr> sha256_k
     (1779033703, 3144134277, 1013904242, 2773480762, 1359893119, 2600822924, 528734635, 1541459225)"

definition sha512_sum :: "string \<Rightarrow> string" where
  "sha512_sum = sha2 8 \<lparr>r_S0 = (28, 34, 39), r_S1 = (14, 18, 41), r_s0 = (1, 8, 7), r_s1 = (19, 61, 6)\<rparr> sha512_k
     (7640891576956012808, 13503953896175478587, 4354685564936845355, 11912009170470909681, 5840696475078001361,
     11170449401992604703, 2270897969802886507, 6620516959819538809)"

section \<open>HMAC and PBKDF2\<close>

text \<open>A hash function with its output and block sizes in bytes.\<close>

record hash =
  h_sum :: "string \<Rightarrow> string"
  h_size :: nat
  h_block :: nat

definition sha256 :: hash where "sha256 = \<lparr>h_sum = sha256_sum, h_size = 32, h_block = 64\<rparr>"
definition sha512 :: hash where "sha512 = \<lparr>h_sum = sha512_sum, h_size = 64, h_block = 128\<rparr>"

definition xor_byte :: "char \<Rightarrow> char \<Rightarrow> char" where
  "xor_byte a b = char_of (unat (word_of_nat (byte a) XOR word_of_nat (byte b) :: 8 word))"

definition xor_bytes :: "string \<Rightarrow> string \<Rightarrow> string" where
  "xor_bytes xs ys = map2 xor_byte xs ys"

definition hmac_key :: "hash \<Rightarrow> string \<Rightarrow> string" where
  "hmac_key H key = (let k = (if h_block H < length key then h_sum H key else key)
     in k @ replicate (h_block H - length k) (CHR 0x00))"

definition hmac :: "hash \<Rightarrow> string \<Rightarrow> string \<Rightarrow> string" where
  "hmac H key m = (let k = hmac_key H key
     in h_sum H (map (xor_byte (CHR 0x5C)) k @ h_sum H (map (xor_byte (CHR 0x36)) k @ m)))"

fun pbkdf2_loop :: "hash \<Rightarrow> string \<Rightarrow> nat \<Rightarrow> string \<Rightarrow> string \<Rightarrow> string" where
  "pbkdf2_loop H pass 0 u t = t"
| "pbkdf2_loop H pass (Suc n) u t = (let u = hmac H pass u in pbkdf2_loop H pass n u (xor_bytes t u))"

definition pbkdf2_block :: "hash \<Rightarrow> string \<Rightarrow> string \<Rightarrow> nat \<Rightarrow> nat \<Rightarrow> string" where
  "pbkdf2_block H pass salt iter i = (let u = hmac H pass (salt @ be_bytes 4 i) in pbkdf2_loop H pass (iter - 1) u u)"

definition pbkdf2 :: "hash \<Rightarrow> string \<Rightarrow> string \<Rightarrow> nat \<Rightarrow> nat \<Rightarrow> string" where
  "pbkdf2 H pass salt iter keyLen =
     take keyLen (concat (map (pbkdf2_block H pass salt iter) [1..<Suc ((keyLen + h_size H - 1) div h_size H)]))"

section \<open>Facts\<close>

lemma byte_bound [simp]: "byte c < 256"
  by (simp add: byte_def)

lemma char_of_byte [simp]: "char_of (byte c) = c"
  by (simp add: byte_def)

lemma index_byte_nth: "distinct s \<Longrightarrow> n < length s \<Longrightarrow> index_byte s (s ! n) = Some n"
proof (induction s arbitrary: n)
  case (Cons x s)
  then show ?case by (cases n) auto
qed simp

lemma b64_alphabet [simp]: "distinct base64_alphabet" "length base64_alphabet = 64"
  by (simp_all add: base64_alphabet_def)

lemma b64_alphabet_plain [simp]:
  "CHR ''='' \<notin> set base64_alphabet" "CHR 0x0D \<notin> set base64_alphabet" "CHR 0x0A \<notin> set base64_alphabet"
  "CHR '','' \<notin> set base64_alphabet" "CHR 0x00 \<notin> set base64_alphabet"
  by (simp_all add: base64_alphabet_def)

lemma b64_char_in: "n < 64 \<Longrightarrow> b64_char n \<in> set base64_alphabet"
  by (simp add: b64_char_def)

lemma b64_inverse [simp]: "n < 64 \<Longrightarrow> b64_value (b64_char n) = Some n"
  by (simp add: b64_char_def b64_value_def index_byte_nth)

lemma b64_plain [simp]:
  "n < 64 \<Longrightarrow> b64_char n \<noteq> CHR ''=''" "n < 64 \<Longrightarrow> b64_char n \<noteq> CHR 0x0D" "n < 64 \<Longrightarrow> b64_char n \<noteq> CHR 0x0A"
  "n < 64 \<Longrightarrow> b64_char n \<noteq> CHR '',''" "n < 64 \<Longrightarrow> b64_char n \<noteq> CHR 0x00"
  using b64_char_in b64_alphabet_plain by metis+

lemma sextets [simp]:
  "byte a div 16 < 16"
  "byte a div 4 < 64" "byte a mod 4 * 16 < 64" "byte a mod 4 * 16 + byte b div 16 < 64" "byte b mod 16 * 4 < 64"
  "byte b mod 16 * 4 + byte c div 64 < 64" "byte c mod 64 < 64"
  using byte_bound [of a] byte_bound [of b] byte_bound [of c] by linarith+

lemma octets [simp]:
  "byte b div 16 div 16 = 0" "byte b div 16 mod 16 = byte b div 16" "byte c div 64 div 4 = 0" "byte c div 64 mod 4 = byte c div 64"
proof -
  have "byte b div 16 < 16" "byte c div 64 < 4" using byte_bound [of b] byte_bound [of c] by linarith+
  then show "byte b div 16 div 16 = 0" "byte b div 16 mod 16 = byte b div 16" "byte c div 64 div 4 = 0" "byte c div 64 mod 4 = byte c div 64"
    by simp_all
qed

lemma base64_quanta_encode: "base64_quanta (base64_encode bs) = Some bs"
  by (induction bs rule: base64_encode.induct) simp_all

lemma base64_encode_chars:
  "x \<in> set (base64_encode bs) \<Longrightarrow> x \<noteq> CHR 0x0D \<and> x \<noteq> CHR 0x0A \<and> x \<noteq> CHR '','' \<and> x \<noteq> CHR 0x00"
  by (induction bs rule: base64_encode.induct) auto

declare base64_encode.simps [simp del]

text \<open>Decoding undoes encoding.\<close>

lemma base64_roundtrip [simp]: "base64_decode (base64_encode bs) = Some bs"
proof -
  have "filter (\<lambda>c. c \<noteq> CHR 0x0D \<and> c \<noteq> CHR 0x0A) (base64_encode bs) = base64_encode bs"
    using base64_encode_chars by (auto intro!: filter_True)
  then show ?thesis by (simp add: base64_decode_def base64_quanta_encode)
qed

lemma base64_comma [simp]: "CHR '','' \<notin> set (base64_encode bs)"
  using base64_encode_chars by blast

lemma hex_digit_inj: "n < 16 \<Longrightarrow> m < 16 \<Longrightarrow> hex_digit n = hex_digit m \<Longrightarrow> n = m"
proof -
  have "distinct ''0123456789abcdef''" "length ''0123456789abcdef'' = 16" by simp_all
  then show "n < 16 \<Longrightarrow> m < 16 \<Longrightarrow> hex_digit n = hex_digit m \<Longrightarrow> n = m"
    unfolding hex_digit_def by (metis nth_eq_iff_index_eq)
qed

lemma hex_encode_inj: "hex_encode xs = hex_encode ys \<Longrightarrow> xs = ys"
proof (induction xs arbitrary: ys)
  case Nil
  then show ?case by (cases ys) (auto simp: hex_encode_def)
next
  case (Cons x xs)
  then obtain y ys' where ys: "ys = y # ys'" by (cases ys) (auto simp: hex_encode_def)
  have "byte x div 16 = byte y div 16" "byte x mod 16 = byte y mod 16" "hex_encode xs = hex_encode ys'"
    using Cons.prems ys by (auto simp: hex_encode_def intro!: hex_digit_inj)
  moreover from this(1,2) have "byte x = byte y" by (metis div_mult_mod_eq)
  ultimately show ?case using Cons.IH ys by (metis char_of_byte)
qed

lemma be_bytes_length [simp]: "length (be_bytes k n) = k"
  by (simp add: be_bytes_def)

lemma sha2_length: "length (sha2 wsize R K iv m) = 8 * wsize"
  by (simp add: sha2_def sha_digest_def split: prod.split)

definition hash_ok :: "hash \<Rightarrow> bool" where
  "hash_ok H \<longleftrightarrow> (\<forall>m. length (h_sum H m) = h_size H) \<and> 0 < h_size H"

lemma sha_ok: "hash_ok sha256" "hash_ok sha512"
  by (simp_all add: hash_ok_def sha256_def sha512_def sha256_sum_def sha512_sum_def sha2_length)

lemma hmac_length: "hash_ok H \<Longrightarrow> length (hmac H key m) = h_size H"
  by (simp add: hash_ok_def hmac_def Let_def)

lemma xor_byte_cancel [simp]: "xor_byte (xor_byte a b) b = a"
proof -
  have wb: "word_of_nat (byte (char_of (unat w))) = w" for w :: "8 word"
  proof -
    have "unat w < 256" by (rule less_le_trans [OF unsigned_less]) simp
    then show ?thesis by (simp add: byte_def)
  qed
  have bw: "unat (word_of_nat (byte a) :: 8 word) = byte a"
    using byte_bound [of a] by (simp add: unat_of_nat)
  show ?thesis by (simp add: xor_byte_def wb xor.assoc bw)
qed

lemma xor_bytes_cancel: "length xs = length ys \<Longrightarrow> xor_bytes (xor_bytes xs ys) ys = xs"
  by (induction xs ys rule: list_induct2) (simp_all add: xor_bytes_def)

lemma xor_bytes_length [simp]: "length (xor_bytes xs ys) = min (length xs) (length ys)"
  by (simp add: xor_bytes_def)

end
