(* ===== verification/Irc_Sasl.thy ===== *)
theory Irc_Sasl
  imports Go_Crypto Irc_Relay
begin

text \<open>
  Model of the SASL mechanisms of a connection (\<^verbatim>\<open>internal/irc/sasl.go\<close>, \<^verbatim>\<open>scram.go\<close>) and of the fingerprint
  that decides whether a held socket fits the settings (\<^verbatim>\<open>registrationFingerprint\<close> in \<^verbatim>\<open>relay.go\<close>). girc calls
  \<^verbatim>\<open>Encode\<close> for every AUTHENTICATE line and writes what it returns; an empty answer ends the connection. The
  PRECIS profile is a parameter (None: it rejects the string), and so are the random bytes (None: no entropy).
\<close>

section \<open>Chunks\<close>

definition saslChunk :: nat where "saslChunk = 400"

text \<open>The chunks written and the one returned.\<close>

function sendChunked :: "string \<Rightarrow> string list \<times> string" where
  "sendChunked payload =
     (if saslChunk < length payload
      then (let (sent, last) = sendChunked (drop saslChunk payload) in (take saslChunk payload # sent, last))
      else ([], payload))"
  by pat_completeness auto
termination by (relation "measure length") (auto simp: saslChunk_def)

declare sendChunked.simps [simp del]

definition plain_Encode :: "string \<Rightarrow> string \<Rightarrow> string list \<Rightarrow> string list \<times> string" where
  "plain_Encode user pass params =
     (if params = [''+''] then sendChunked (base64_encode ([CHR 0x00] @ user @ [CHR 0x00] @ pass)) else ([], []))"

section \<open>SCRAM\<close>

definition scramMaxIter :: int where "scramMaxIter = 2 ^ 20"

record scramHash =
  sh_name :: string
  sh_New :: hash

definition scram512 :: scramHash where "scram512 = \<lparr>sh_name = ''SCRAM-SHA-512'', sh_New = sha512\<rparr>"
definition scram256 :: scramHash where "scram256 = \<lparr>sh_name = ''SCRAM-SHA-256'', sh_New = sha256\<rparr>"

definition scramHashes :: "scramHash list" where "scramHashes = [scram512, scram256]"

datatype scram_step = ScramStart | ScramSentFirst | ScramSentFinal | ScramDone

text \<open>\<open>sc_hash\<close> is None for the zero value; \<open>sc_mechs\<close> lists the keys of the map.\<close>

record saslScram =
  sc_user :: string
  sc_pass :: string
  sc_mechs :: "string list"
  sc_hash :: "scramHash option"
  sc_step :: scram_step
  sc_cnonce :: string
  sc_clientFirst :: string
  sc_serverSig :: string

definition advertise_token :: "string \<Rightarrow> saslScram \<Rightarrow> saslScram" where
  "advertise_token tok s =
     (if has_prefix tok ''sasl=''
      then s\<lparr>sc_mechs := sc_mechs s @ map to_upper (split_on (trim_prefix tok ''sasl='') CHR '','')\<rparr> else s)"

definition advertise :: "string \<Rightarrow> saslScram \<Rightarrow> saslScram" where
  "advertise caps s = fold advertise_token (Core_Command.fields caps) s"

definition Method :: "saslScram \<Rightarrow> string \<times> saslScram" where
  "Method s =
     (let h = (case find (\<lambda>h. sh_name h \<in> set (sc_mechs s)) scramHashes of Some h \<Rightarrow> h | None \<Rightarrow> last scramHashes)
      in (sh_name h, s\<lparr>sc_hash := Some h\<rparr>))"

definition variant :: "saslScram \<Rightarrow> scramHash \<times> saslScram" where
  "variant s = (case sc_hash s of Some h \<Rightarrow> (h, s) | None \<Rightarrow> (last scramHashes, s\<lparr>sc_hash := Some (last scramHashes)\<rparr>))"

definition scram_reset :: "saslScram \<Rightarrow> saslScram" where
  "scram_reset s = s\<lparr>sc_mechs := [], sc_hash := None, sc_step := ScramStart, sc_cnonce := [], sc_clientFirst := [], sc_serverSig := []\<rparr>"

definition scramAttrs :: "string \<Rightarrow> string \<rightharpoonup> string" where
  "scramAttrs msg = fold (\<lambda>part out. case str_cut part CHR ''='' of
      (k, v, ok) \<Rightarrow> if ok \<and> length k = 1 then out(k \<mapsto> v) else out) (split_on msg CHR '','') Map.empty"

definition attr :: "(string \<rightharpoonup> string) \<Rightarrow> string \<Rightarrow> string" where
  "attr m k = (case m k of Some v \<Rightarrow> v | None \<Rightarrow> [])"

definition scramEscape :: "string \<Rightarrow> string" where
  "scramEscape u = concat (map (\<lambda>c. if c = CHR ''='' then ''=3D'' else if c = CHR '','' then ''=2C'' else [c]) u)"

definition saslPrep :: "(string \<Rightarrow> string option) \<Rightarrow> string \<Rightarrow> string" where
  "saslPrep precis s = (case precis s of Some p \<Rightarrow> p | None \<Rightarrow> s)"

type_synonym scram_answer = "saslScram \<times> string list \<times> string"

definition scram_first :: "(string \<Rightarrow> string option) \<Rightarrow> string option \<Rightarrow> saslScram \<Rightarrow> scram_answer" where
  "scram_first precis rand s =
     (case rand of
        None \<Rightarrow> (s, [], [])
      | Some b \<Rightarrow>
          (let cnonce = base64_encode b; first = ''n='' @ scramEscape (saslPrep precis (sc_user s)) @ '',r='' @ cnonce
           in (s\<lparr>sc_cnonce := cnonce, sc_clientFirst := first, sc_step := ScramSentFirst\<rparr>, sendChunked (base64_encode (''n,,'' @ first)))))"

text \<open>What a server's first message must hold: a nonce that extends ours, a salt and an iteration count.\<close>

definition scram_challenge :: "string \<Rightarrow> string \<Rightarrow> (string \<times> string \<times> nat) option" where
  "scram_challenge cnonce serverFirst =
     (let attrs = scramAttrs serverFirst; nonce = attr attrs ''r'' in
      if \<not> has_prefix nonce cnonce \<or> length nonce = length cnonce then None
      else (case base64_decode (attr attrs ''s'') of
          None \<Rightarrow> None
        | Some salt \<Rightarrow>
            if salt = [] then None
            else (case atoi (attr attrs ''i'') of
                None \<Rightarrow> None
              | Some iter \<Rightarrow> if iter < 1 \<or> scramMaxIter < iter then None else Some (nonce, salt, nat iter))))"

definition scram_final :: "(string \<Rightarrow> string option) \<Rightarrow> string \<Rightarrow> saslScram \<Rightarrow> scram_answer" where
  "scram_final precis arg s =
     (case base64_decode arg of
        None \<Rightarrow> (s, [], [])
      | Some serverFirst \<Rightarrow>
          (case scram_challenge (sc_cnonce s) serverFirst of
             None \<Rightarrow> (s, [], [])
           | Some (nonce, salt, iter) \<Rightarrow>
               (let (v, s) = variant s; H = sh_New v;
                    salted = pbkdf2 H (saslPrep precis (sc_pass s)) salt iter (h_size H);
                    clientKey = hmac H salted ''Client Key'';
                    noProof = ''c=biws,r='' @ nonce;
                    authMsg = sc_clientFirst s @ '','' @ serverFirst @ '','' @ noProof;
                    clientSig = hmac H (h_sum H clientKey) authMsg;
                    proof = xor_bytes clientKey clientSig
                in (s\<lparr>sc_serverSig := hmac H (hmac H salted ''Server Key'') authMsg, sc_step := ScramSentFinal\<rparr>,
                    sendChunked (base64_encode (noProof @ '',p='' @ base64_encode proof))))))"

definition scram_verify :: "string \<Rightarrow> saslScram \<Rightarrow> scram_answer" where
  "scram_verify arg s =
     (case base64_decode arg of
        None \<Rightarrow> (s, [], [])
      | Some raw \<Rightarrow>
          (case base64_decode (attr (scramAttrs raw) ''v'') of
             None \<Rightarrow> (s, [], [])
           | Some sig \<Rightarrow> if sig \<noteq> sc_serverSig s then (s, [], []) else (s\<lparr>sc_step := ScramDone\<rparr>, [], ''+'')))"

definition scram_Encode :: "(string \<Rightarrow> string option) \<Rightarrow> string option \<Rightarrow> string list \<Rightarrow> saslScram \<Rightarrow> scram_answer" where
  "scram_Encode precis rand params s =
     (case params of
        [p] \<Rightarrow>
          (case sc_step s of
             ScramStart \<Rightarrow> if p \<noteq> ''+'' then (s, [], []) else scram_first precis rand s
           | ScramSentFirst \<Rightarrow> scram_final precis p s
           | ScramSentFinal \<Rightarrow> scram_verify p s
           | ScramDone \<Rightarrow> (s, [], []))
      | _ \<Rightarrow> (s, [], []))"

section \<open>The fingerprint of a registration\<close>

definition format_bool :: "bool \<Rightarrow> string" where
  "format_bool b = (if b then ''true'' else ''false'')"

definition fingerprint_parts :: "registration \<Rightarrow> string list \<Rightarrow> string list" where
  "fingerprint_parts r addrs =
     [''v1'', join_with addrs '','', format_bool (rg_TLS r), format_bool (rg_Insecure r), rg_User r, rg_Realname r,
      rg_SASLUser r, rg_SASLPass r, rg_ServerPass r, format_bool (rg_SASLExternal r), rg_CertPEM r]
     @ (if rg_SASLScram r \<and> \<not> rg_SASLExternal r \<and> rg_SASLUser r \<noteq> [] then [''scram''] else [])"

definition registrationFingerprint :: "registration \<Rightarrow> string list \<Rightarrow> string" where
  "registrationFingerprint r addrs = hex_encode (sha256_sum (join_with (fingerprint_parts r addrs) [CHR 0x00]))"

section \<open>Handlers that use them\<close>

text \<open>The CAP handler of a connection that authenticates with SCRAM.\<close>

definition on_cap :: "wire \<Rightarrow> gevent \<Rightarrow> saslScram \<Rightarrow> saslScram" where
  "on_cap W e s = (if 3 \<le> length (g_Params e) \<and> (g_Params e ! 1 = ''LS'' \<or> g_Params e ! 1 = ''NEW'') then advertise (w_Last W e) s else s)"

text \<open>\<^verbatim>\<open>net.JoinHostPort\<close>.\<close>

definition JoinHostPort :: "string \<Rightarrow> string \<Rightarrow> string" where
  "JoinHostPort host port = (if CHR '':'' \<in> set host then ''['' @ host @ '']:'' @ port else host @ '':'' @ port)"

text \<open>\<^verbatim>\<open>connectRelay\<close> up to its request to the engine; None when the current address is unusable.\<close>

definition relay_begin :: "wire \<Rightarrow> conn \<Rightarrow> connect_request option \<times> handled" where
  "relay_begin W c =
     (let c = c\<lparr>cn_batches := Map.empty, cn_histBatches := Map.empty\<rparr>; r = co_registration (cn_opts c) in
      case splitAddr (cn_addrs c ! cn_addrIdx c) (rg_TLS r) of
        None \<Rightarrow> (None, advanceAddr c, [])
      | Some (host, port) \<Rightarrow>
          (let addr = JoinHostPort host (format_int port)
           in (Some \<lparr>cr_id = co_RelayID (cn_opts c), cr_addr = addr, cr_tls = rg_TLS r, cr_insecure = rg_Insecure r, cr_certPEM = rg_CertPEM r,
                 cr_fingerprint = registrationFingerprint r (cn_addrs c)\<rparr>, c,
               [status_line W c (''connecting to '' @ addr @ '' ('' @ via c @ '') via stugan-engine'' @ ellipsis)])))"

end
