(* ===== verification/Sasl_Properties.thy ===== *)
theory Sasl_Properties
  imports Irc_Sasl
begin

text \<open>
  Properties of the SASL mechanisms: what is sent decodes to the credentials, a SCRAM exchange with a server
  that knows the account completes on both sides, and the client is done only after it has seen the signature
  that follows from its own password; and what the fingerprint of a registration tells apart.
\<close>

section \<open>Chunks\<close>

lemma sendChunked_spec:
  "concat (fst (sendChunked p)) @ snd (sendChunked p) = p \<and> list_all (\<lambda>c. length c = saslChunk) (fst (sendChunked p))
     \<and> length (snd (sendChunked p)) \<le> saslChunk"
proof (induction p rule: sendChunked.induct)
  case (1 p)
  show ?case
  proof (cases "saslChunk < length p")
    case True
    with 1 show ?thesis
      by (subst (1 2 3 4) sendChunked.simps) (simp add: split_def Let_def)
  next
    case False
    then show ?thesis by (subst (1 2 3 4) sendChunked.simps) simp
  qed
qed

definition sent_text :: "string list \<times> string \<Rightarrow> string option" where
  "sent_text r = base64_decode (concat (fst r) @ snd r)"

lemma sent_text_chunked [simp]: "sent_text (sendChunked (base64_encode m)) = Some m"
  using sendChunked_spec [of "base64_encode m"] by (simp add: sent_text_def)

text \<open>
  The chunks a PLAIN login writes, put together, decode to the empty authorisation identity, the user and
  the password; every chunk but the one left for girc has the full length that announces another one, and the
  last is not longer; an AUTHENTICATE line other than the prompt gets no answer.\<close>

theorem plain_login_arrives_whole:
  "sent_text (plain_Encode user pass [''+'']) = Some ([CHR 0x00] @ user @ [CHR 0x00] @ pass)
    \<and> list_all (\<lambda>c. length c = saslChunk) (fst (plain_Encode user pass [''+'']))
    \<and> length (snd (plain_Encode user pass [''+''])) \<le> saslChunk
    \<and> (params = [''+''] \<or> plain_Encode user pass params = ([], []))"
  using sendChunked_spec [of "base64_encode ([CHR 0x00] @ user @ [CHR 0x00] @ pass)"]
  by (auto simp: plain_Encode_def)

section \<open>What a SCRAM client accepts\<close>

datatype scram_call = CallAdvertise string | CallMethod | CallEncode "string option" "string list"

fun scram_calls :: "(string \<Rightarrow> string option) \<Rightarrow> scram_call list \<Rightarrow> saslScram \<Rightarrow> saslScram" where
  "scram_calls precis [] s = s"
| "scram_calls precis (c # cs) s = scram_calls precis cs
     (case c of CallAdvertise caps \<Rightarrow> advertise caps s | CallMethod \<Rightarrow> snd (Method s)
        | CallEncode rand params \<Rightarrow> fst (scram_Encode precis rand params s))"

definition received :: "scram_call list \<Rightarrow> string \<Rightarrow> bool" where
  "received cs m \<longleftrightarrow> (\<exists>rand p. CallEncode rand [p] \<in> set cs \<and> base64_decode p = Some m)"

definition auth_message :: "string \<Rightarrow> string \<Rightarrow> string \<Rightarrow> string" where
  "auth_message clientFirst serverFirst nonce = clientFirst @ '','' @ serverFirst @ '','' @ ''c=biws,r='' @ nonce"

definition server_signature :: "hash \<Rightarrow> string \<Rightarrow> string \<Rightarrow> nat \<Rightarrow> string \<Rightarrow> string" where
  "server_signature H pass salt iter auth = hmac H (hmac H (pbkdf2 H pass salt iter (h_size H)) ''Server Key'') auth"

definition challenged :: "(string \<Rightarrow> string option) \<Rightarrow> scram_call list \<Rightarrow> saslScram \<Rightarrow> bool" where
  "challenged precis cs s \<longleftrightarrow> (\<exists>H serverFirst nonce salt iter. (H = sha256 \<or> H = sha512) \<and> received cs serverFirst
     \<and> scram_challenge (sc_cnonce s) serverFirst = Some (nonce, salt, iter)
     \<and> sc_serverSig s = server_signature H (saslPrep precis (sc_pass s)) salt iter (auth_message (sc_clientFirst s) serverFirst nonce))"

definition signed :: "scram_call list \<Rightarrow> saslScram \<Rightarrow> bool" where
  "signed cs s \<longleftrightarrow> (\<exists>m. received cs m \<and> base64_decode (attr (scramAttrs m) ''v'') = Some (sc_serverSig s))"

definition scram_inv :: "(string \<Rightarrow> string option) \<Rightarrow> string \<Rightarrow> string \<Rightarrow> scram_call list \<Rightarrow> saslScram \<Rightarrow> bool" where
  "scram_inv precis user pass cs s \<longleftrightarrow> sc_user s = user \<and> sc_pass s = pass
     \<and> (sc_hash s = None \<or> sc_hash s = Some scram256 \<or> sc_hash s = Some scram512)
     \<and> (sc_step s \<noteq> ScramStart \<longrightarrow> sc_clientFirst s = ''n='' @ scramEscape (saslPrep precis user) @ '',r='' @ sc_cnonce s)
     \<and> (sc_step s = ScramSentFinal \<or> sc_step s = ScramDone \<longrightarrow> challenged precis cs s)
     \<and> (sc_step s = ScramDone \<longrightarrow> signed cs s)"

lemma challenged_update [simp]:
  "challenged precis cs (s\<lparr>sc_mechs := m\<rparr>) = challenged precis cs s" "challenged precis cs (s\<lparr>sc_hash := h\<rparr>) = challenged precis cs s"
  "challenged precis cs (s\<lparr>sc_step := st\<rparr>) = challenged precis cs s"
  by (simp_all add: challenged_def)

lemma signed_update [simp]:
  "signed cs (s\<lparr>sc_mechs := m\<rparr>) = signed cs s" "signed cs (s\<lparr>sc_hash := h\<rparr>) = signed cs s" "signed cs (s\<lparr>sc_step := st\<rparr>) = signed cs s"
  by (simp_all add: signed_def)

lemma received_snoc: "received cs m \<Longrightarrow> received (cs @ [c]) m"
  by (auto simp: received_def)

lemma challenged_snoc: "challenged precis cs s \<Longrightarrow> challenged precis (cs @ [c]) s"
  unfolding challenged_def using received_snoc by blast

lemma signed_snoc: "signed cs s \<Longrightarrow> signed (cs @ [c]) s"
  unfolding signed_def using received_snoc by blast

lemma scram_inv_snoc: "scram_inv precis user pass cs s \<Longrightarrow> scram_inv precis user pass (cs @ [c]) s"
  by (auto simp: scram_inv_def challenged_snoc signed_snoc)

lemma inv_mechs: "scram_inv precis user pass cs (s\<lparr>sc_mechs := m\<rparr>) = scram_inv precis user pass cs s"
  by (simp add: scram_inv_def)

lemma inv_hash: "scram_inv precis user pass cs s \<Longrightarrow> h = scram256 \<or> h = scram512 \<Longrightarrow> scram_inv precis user pass cs (s\<lparr>sc_hash := Some h\<rparr>)"
  by (auto simp: scram_inv_def)

lemma advertise_inv: "scram_inv precis user pass cs s \<Longrightarrow> scram_inv precis user pass cs (advertise caps s)"
proof -
  have "scram_inv precis user pass cs (fold advertise_token toks s) = scram_inv precis user pass cs s" for toks
    by (induction toks arbitrary: s) (simp_all add: advertise_token_def inv_mechs)
  then show "scram_inv precis user pass cs s \<Longrightarrow> ?thesis" by (simp add: advertise_def)
qed

lemma Method_inv: "scram_inv precis user pass cs s \<Longrightarrow> scram_inv precis user pass cs (snd (Method s))"
  by (auto simp: Method_def Let_def scramHashes_def intro!: inv_hash)

lemma variant_inv:
  "scram_inv precis user pass cs s \<Longrightarrow> variant s = (v, s') \<Longrightarrow>
     scram_inv precis user pass cs s' \<and> (v = scram256 \<or> v = scram512) \<and> sc_cnonce s' = sc_cnonce s \<and> sc_step s' = sc_step s"
  by (auto simp: variant_def scramHashes_def scram_inv_def split: option.splits)

lemma first_inv:
  "scram_inv precis user pass cs s \<Longrightarrow> scram_inv precis user pass cs (fst (scram_first precis rand s))"
  by (auto simp: scram_first_def scram_inv_def Let_def split: option.split)

lemma final_inv:
  assumes inv: "scram_inv precis user pass cs s" and step: "sc_step s = ScramSentFirst"
  shows "scram_inv precis user pass (cs @ [CallEncode rand [p]]) (fst (scram_final precis p s))"
proof (cases "\<exists>serverFirst nonce salt iter. base64_decode p = Some serverFirst \<and> scram_challenge (sc_cnonce s) serverFirst = Some (nonce, salt, iter)")
  case False
  then have "fst (scram_final precis p s) = s"
    by (auto simp: scram_final_def split: option.split)
  then show ?thesis using scram_inv_snoc [OF inv] by simp
next
  case True
  then obtain serverFirst nonce salt iter where ch: "base64_decode p = Some serverFirst"
    "scram_challenge (sc_cnonce s) serverFirst = Some (nonce, salt, iter)" by blast
  obtain v s' where v: "variant s = (v, s')" by (cases "variant s")
  from variant_inv [OF inv v] have s': "scram_inv precis user pass cs s'" "v = scram256 \<or> v = scram512"
    "sc_cnonce s' = sc_cnonce s" "sc_step s' = ScramSentFirst" using step by auto
  have "received (cs @ [CallEncode rand [p]]) serverFirst" using ch(1) by (auto simp: received_def)
  moreover have "sh_New v = sha256 \<or> sh_New v = sha512" using s'(2) by (auto simp: scram256_def scram512_def)
  moreover have "sc_pass s' = pass" "sc_user s' = user" using s'(1) by (simp_all add: scram_inv_def)
  ultimately have "challenged precis (cs @ [CallEncode rand [p]]) (fst (scram_final precis p s))"
    using ch v s'(3) unfolding challenged_def
    by (intro exI [of _ "sh_New v"] exI [of _ serverFirst] exI [of _ nonce] exI [of _ salt] exI [of _ iter])
       (simp add: scram_final_def server_signature_def auth_message_def Let_def)
  moreover have "scram_inv precis user pass cs (s'\<lparr>sc_step := ScramSentFirst\<rparr>)" using s' by (simp add: scram_inv_def)
  ultimately show ?thesis
    using ch v s' by (simp add: scram_final_def scram_inv_def Let_def)
qed

lemma verify_inv:
  assumes inv: "scram_inv precis user pass cs s" and step: "sc_step s = ScramSentFinal"
  shows "scram_inv precis user pass (cs @ [CallEncode rand [p]]) (fst (scram_verify p s))"
proof (cases "\<exists>m. base64_decode p = Some m \<and> base64_decode (attr (scramAttrs m) ''v'') = Some (sc_serverSig s)")
  case False
  then have "fst (scram_verify p s) = s" by (auto simp: scram_verify_def split: option.split)
  then show ?thesis using scram_inv_snoc [OF inv] by simp
next
  case True
  then obtain m where m: "base64_decode p = Some m" "base64_decode (attr (scramAttrs m) ''v'') = Some (sc_serverSig s)" by blast
  have "received (cs @ [CallEncode rand [p]]) m" using m(1) by (auto simp: received_def)
  then have "signed (cs @ [CallEncode rand [p]]) s" using m(2) unfolding signed_def by blast
  moreover have "fst (scram_verify p s) = s\<lparr>sc_step := ScramDone\<rparr>" using m by (simp add: scram_verify_def)
  ultimately show ?thesis
    using scram_inv_snoc [OF inv, of "CallEncode rand [p]"] step by (simp add: scram_inv_def)
qed

lemma Encode_inv:
  "scram_inv precis user pass cs s \<Longrightarrow>
     scram_inv precis user pass (cs @ [CallEncode rand params]) (fst (scram_Encode precis rand params s))"
  by (auto simp: scram_Encode_def scram_inv_snoc final_inv verify_inv first_inv split: list.split scram_step.split)

lemma calls_inv:
  "scram_inv precis user pass cs s \<Longrightarrow> scram_inv precis user pass (cs @ ds) (scram_calls precis ds s)"
proof (induction ds arbitrary: cs s)
  case (Cons d ds)
  have "scram_inv precis user pass (cs @ [d]) (case d of CallAdvertise caps \<Rightarrow> advertise caps s | CallMethod \<Rightarrow> snd (Method s)
        | CallEncode rand params \<Rightarrow> fst (scram_Encode precis rand params s))"
    using Cons.prems by (cases d) (simp_all add: scram_inv_snoc advertise_inv Method_inv Encode_inv)
  from Cons.IH [OF this] show ?case by simp
qed simp

text \<open>
  C7. Whatever a server sends, in whatever order, and whatever mechanisms it advertises: after a reset a SCRAM
  client gets to the accepting state only if among the messages it received there are a first message whose
  nonce properly extends the client's own, with a salt and an iteration count of at most \<open>2^20\<close>, and a message
  carrying exactly the signature that the password, the salt and the whole exchange determine.\<close>

theorem scram_accepts_only_the_right_signature:
  assumes "sc_step (scram_calls precis cs (scram_reset s)) = ScramDone"
  shows "\<exists>H serverFirst nonce salt iter cnonce m. (H = sha256 \<or> H = sha512) \<and> received cs serverFirst \<and> received cs m
    \<and> scram_challenge cnonce serverFirst = Some (nonce, salt, iter)
    \<and> has_prefix nonce cnonce \<and> length nonce \<noteq> length cnonce \<and> 1 \<le> iter \<and> int iter \<le> scramMaxIter
    \<and> base64_decode (attr (scramAttrs m) ''v'') = Some (server_signature H (saslPrep precis (sc_pass s)) salt iter
         (auth_message (''n='' @ scramEscape (saslPrep precis (sc_user s)) @ '',r='' @ cnonce) serverFirst nonce))"
proof -
  let ?s = "scram_calls precis cs (scram_reset s)"
  have "scram_inv precis (sc_user s) (sc_pass s) [] (scram_reset s)" by (simp add: scram_inv_def scram_reset_def)
  from calls_inv [OF this, of cs] have inv: "scram_inv precis (sc_user s) (sc_pass s) cs ?s" by simp
  have bounds: "scram_challenge c f = Some (nonce, salt, iter) \<Longrightarrow>
      has_prefix nonce c \<and> length nonce \<noteq> length c \<and> 1 \<le> iter \<and> int iter \<le> scramMaxIter" for c f nonce salt iter
    by (auto simp: scram_challenge_def Let_def split: if_splits option.splits)
  from inv assms have "challenged precis cs ?s" "signed cs ?s" "sc_pass ?s = sc_pass s"
    "sc_clientFirst ?s = ''n='' @ scramEscape (saslPrep precis (sc_user s)) @ '',r='' @ sc_cnonce ?s"
    by (simp_all add: scram_inv_def)
  then show ?thesis unfolding challenged_def signed_def using bounds by metis
qed

section \<open>An exchange with an honest server\<close>

text \<open>The server of RFC 5802, which keeps a salt, an iteration count and two keys of every account.\<close>

definition stored_key :: "hash \<Rightarrow> string \<Rightarrow> string \<Rightarrow> nat \<Rightarrow> string" where
  "stored_key H pass salt iter = h_sum H (hmac H (pbkdf2 H pass salt iter (h_size H)) ''Client Key'')"

definition server_key :: "hash \<Rightarrow> string \<Rightarrow> string \<Rightarrow> nat \<Rightarrow> string" where
  "server_key H pass salt iter = hmac H (pbkdf2 H pass salt iter (h_size H)) ''Server Key''"

definition server_first :: "string \<Rightarrow> string \<Rightarrow> string \<Rightarrow> nat \<Rightarrow> string" where
  "server_first cnonce snonce salt iter = ''r='' @ (cnonce @ snonce) @ '',s='' @ base64_encode salt @ '',i='' @ format_uint iter"

text \<open>It checks the proof of the client's last message and answers with its signature.\<close>

definition server_final :: "hash \<Rightarrow> string \<Rightarrow> string \<Rightarrow> string \<Rightarrow> string \<Rightarrow> string \<Rightarrow> string option" where
  "server_final H stored skey clientFirst serverFirst final =
     (let p = attr (scramAttrs final) ''p'';
          auth = clientFirst @ '','' @ serverFirst @ '','' @ take (length final - (length p + 3)) final
      in case base64_decode p of
           None \<Rightarrow> None
         | Some given \<Rightarrow> if h_sum H (xor_bytes given (hmac H stored auth)) = stored
                          then Some (''v='' @ base64_encode (hmac H skey auth)) else None)"

lemma cut_attr: "k \<noteq> CHR ''='' \<Longrightarrow> str_cut (k # CHR ''='' # v) CHR ''='' = ([k], v, True)"
  using str_cut_append [of "CHR ''=''" "[k]" v] by simp

lemma attrs_one: "CHR '','' \<notin> set v \<Longrightarrow> k \<noteq> CHR ''='' \<Longrightarrow> k \<noteq> CHR '','' \<Longrightarrow> scramAttrs (k # CHR ''='' # v) = [[k] \<mapsto> v]"
  by (simp add: scramAttrs_def split_on_notin cut_attr)

lemma attrs_three:
  assumes "CHR '','' \<notin> set u" "CHR '','' \<notin> set v" "CHR '','' \<notin> set w" "CHR '','' \<notin> {a, b, c}" "CHR ''='' \<notin> {a, b, c}"
  shows "scramAttrs (a # CHR ''='' # u @ CHR '','' # b # CHR ''='' # v @ CHR '','' # c # CHR ''='' # w) = [[a] \<mapsto> u, [b] \<mapsto> v, [c] \<mapsto> w]"
proof -
  have split: "split_on (a # CHR ''='' # u @ CHR '','' # b # CHR ''='' # v @ CHR '','' # c # CHR ''='' # w) CHR '',''
      = [a # CHR ''='' # u, b # CHR ''='' # v, c # CHR ''='' # w]"
    using assms split_on_append [of "CHR '',''" "a # CHR ''='' # u" "b # CHR ''='' # v @ CHR '','' # c # CHR ''='' # w"]
      split_on_append [of "CHR '',''" "b # CHR ''='' # v" "c # CHR ''='' # w"] split_on_notin [of "CHR '',''" "c # CHR ''='' # w"]
    by simp
  have "a \<noteq> CHR ''=''" "b \<noteq> CHR ''=''" "c \<noteq> CHR ''=''" using assms(5) by auto
  then show ?thesis unfolding scramAttrs_def split by (simp add: cut_attr)
qed

lemma format_uint_plain: "CHR '','' \<notin> set (format_uint n)" "\<not> has_prefix (format_uint n) ''-''" "\<not> has_prefix (format_uint n) ''+''"
proof -
  have "c \<in> set (format_uint n) \<Longrightarrow> c \<noteq> CHR '','' \<and> c \<noteq> CHR ''-'' \<and> c \<noteq> CHR ''+''" for c
    using format_uint_digits [of c n] by (auto simp: is_digit_def)
  then show "CHR '','' \<notin> set (format_uint n)" "\<not> has_prefix (format_uint n) ''-''" "\<not> has_prefix (format_uint n) ''+''"
    by (cases "format_uint n"; auto simp: has_prefix_def)+
qed

lemma atoi_of_format: "n < 2 ^ 63 \<Longrightarrow> atoi (format_uint n) = Some (int n)"
  by (simp add: atoi_def format_uint_plain digits_value_format_uint)

lemma honest_challenge:
  assumes "CHR '','' \<notin> set cnonce" "CHR '','' \<notin> set snonce" "snonce \<noteq> []" "salt \<noteq> []" "1 \<le> iter" "int iter \<le> scramMaxIter"
  shows "scram_challenge cnonce (server_first cnonce snonce salt iter) = Some (cnonce @ snonce, salt, iter)"
proof -
  have "scramAttrs (server_first cnonce snonce salt iter)
      = [''r'' \<mapsto> cnonce @ snonce, ''s'' \<mapsto> base64_encode salt, ''i'' \<mapsto> format_uint iter]"
    using attrs_three [of "cnonce @ snonce" "base64_encode salt" "format_uint iter" "CHR ''r''" "CHR ''s''" "CHR ''i''"] assms format_uint_plain
    by (simp add: server_first_def)
  moreover have "atoi (format_uint iter) = Some (int iter)" using assms(6) by (intro atoi_of_format) (simp add: scramMaxIter_def)
  ultimately show ?thesis
    using assms by (simp add: scram_challenge_def attr_def has_prefix_def Let_def)
qed

lemma take_before: "length y = k \<Longrightarrow> take (length (x @ y) - k) (x @ y) = x"
  by simp

lemma honest_proof:
  fixes pass salt :: string and iter :: nat and clientFirst serverFirst :: string
  assumes "hash_ok H" "CHR '','' \<notin> set nonce"
  defines "key \<equiv> hmac H (pbkdf2 H pass salt iter (h_size H)) ''Client Key''"
  defines "auth \<equiv> auth_message clientFirst serverFirst nonce"
  shows "server_final H (stored_key H pass salt iter) (server_key H pass salt iter) clientFirst serverFirst
      (''c=biws,r='' @ nonce @ '',p='' @ base64_encode (xor_bytes key (hmac H (h_sum H key) auth)))
    = Some (''v='' @ base64_encode (server_signature H pass salt iter auth))"
proof -
  let ?p = "base64_encode (xor_bytes key (hmac H (h_sum H key) auth))"
  have "scramAttrs (''c=biws,r='' @ nonce @ '',p='' @ ?p) = [''c'' \<mapsto> ''biws'', ''r'' \<mapsto> nonce, ''p'' \<mapsto> ?p]"
    using attrs_three [of "''biws''" nonce ?p "CHR ''c''" "CHR ''r''" "CHR ''p''"] assms(2) by simp
  then have p: "attr (scramAttrs (''c=biws,r='' @ nonce @ '',p='' @ ?p)) ''p'' = ?p" by (simp add: attr_def)
  have without: "take (length (''c=biws,r='' @ nonce @ '',p='' @ ?p) - (length ?p + 3)) (''c=biws,r='' @ nonce @ '',p='' @ ?p) = ''c=biws,r='' @ nonce"
  proof -
    have "length ('',p='' @ ?p) = length ?p + 3" by simp
    from take_before [OF this, of "''c=biws,r='' @ nonce"] show ?thesis unfolding append_assoc .
  qed
  have stored: "stored_key H pass salt iter = h_sum H key" by (simp add: stored_key_def key_def)
  have cancel: "xor_bytes (xor_bytes key (hmac H (h_sum H key) auth)) (hmac H (h_sum H key) auth) = key"
    by (intro xor_bytes_cancel) (simp add: key_def hmac_length [OF assms(1)])
  show ?thesis
    unfolding server_final_def p without stored Let_def auth_message_def [symmetric] auth_def [symmetric]
    by (simp add: cancel server_signature_def server_key_def)
qed

lemma encode_first:
  "sc_step s = ScramStart \<Longrightarrow> scram_Encode precis (Some rand) [''+''] s =
     (s\<lparr>sc_cnonce := base64_encode rand, sc_clientFirst := ''n='' @ scramEscape (saslPrep precis (sc_user s)) @ '',r='' @ base64_encode rand,
        sc_step := ScramSentFirst\<rparr>,
      sendChunked (base64_encode (''n,,n='' @ scramEscape (saslPrep precis (sc_user s)) @ '',r='' @ base64_encode rand)))"
  by (simp add: scram_Encode_def scram_first_def Let_def)

lemma encode_final:
  fixes s :: saslScram and salt :: string and iter :: nat and precis :: "string \<Rightarrow> string option"
  assumes "sc_step s = ScramSentFirst" "scram_challenge (sc_cnonce s) sf = Some (nonce, salt, iter)" "sc_hash s = Some h"
  defines "H \<equiv> sh_New h" and "pass \<equiv> saslPrep precis (sc_pass s)" and "auth \<equiv> auth_message (sc_clientFirst s) sf nonce"
  defines "key \<equiv> hmac H (pbkdf2 H pass salt iter (h_size H)) ''Client Key''"
  shows "scram_Encode precis r [base64_encode sf] s =
     (s\<lparr>sc_serverSig := server_signature H pass salt iter auth, sc_step := ScramSentFinal\<rparr>,
      sendChunked (base64_encode (''c=biws,r='' @ nonce @ '',p='' @ base64_encode (xor_bytes key (hmac H (h_sum H key) auth)))))"
  using assms(1-3)
  by (simp add: scram_Encode_def scram_final_def variant_def auth_message_def server_signature_def assms(4-7) Let_def)

lemma encode_verify:
  "sc_step s = ScramSentFinal \<Longrightarrow> scram_Encode precis r [base64_encode (''v='' @ base64_encode (sc_serverSig s))] s
     = (s\<lparr>sc_step := ScramDone\<rparr>, [], ''+'')"
  using attrs_one [of "base64_encode (sc_serverSig s)" "CHR ''v''"] by (simp add: scram_Encode_def scram_verify_def attr_def)

text \<open>
  C36. When the server holds the keys derived from the same password, with any salt, any iteration count within
  the limit and any nonce of its own, the exchange succeeds on both sides: the client's first message carries
  its nonce, the server verifies the proof of the second one, and the client accepts the signature the server
  answers with and says so.\<close>

theorem scram_exchange_with_honest_server:
  assumes "sc_step s = ScramStart" "sc_hash s = Some h" "h = scram256 \<or> h = scram512"
    and "scram_Encode precis (Some rand) [''+''] s = (s1, sent1)"
    and "scram_Encode precis r2 [base64_encode (server_first (sc_cnonce s1) snonce salt iter)] s1 = (s2, sent2)"
    and "CHR '','' \<notin> set snonce" "snonce \<noteq> []" "salt \<noteq> []" "1 \<le> iter" "int iter \<le> scramMaxIter"
    and "H = sh_New h" "pass = saslPrep precis (sc_pass s)"
  shows "sent_text sent1 = Some (''n,,n='' @ scramEscape (saslPrep precis (sc_user s)) @ '',r='' @ sc_cnonce s1)
    \<and> (\<exists>final v s3. sent_text sent2 = Some final
        \<and> server_final H (stored_key H pass salt iter) (server_key H pass salt iter) (sc_clientFirst s1)
            (server_first (sc_cnonce s1) snonce salt iter) final = Some v
        \<and> scram_Encode precis r3 [base64_encode v] s2 = (s3, [], ''+'') \<and> sc_step s3 = ScramDone)"
proof -
  let ?sf = "server_first (sc_cnonce s1) snonce salt iter" and ?nonce = "sc_cnonce s1 @ snonce"
  have s1: "sc_step s1 = ScramSentFirst" "sc_hash s1 = Some h" "sc_pass s1 = sc_pass s" "CHR '','' \<notin> set (sc_cnonce s1)"
    and sent1: "sent_text sent1 = Some (''n,,n='' @ scramEscape (saslPrep precis (sc_user s)) @ '',r='' @ sc_cnonce s1)"
    using assms(2,4) encode_first [OF assms(1), of precis rand] by auto
  have ch: "scram_challenge (sc_cnonce s1) ?sf = Some (?nonce, salt, iter)"
    using honest_challenge s1(4) assms(6-10) by simp
  note fin = encode_final [OF s1(1) ch s1(2), of precis r2, unfolded s1(3) assms(11,12) [symmetric] assms(5)]
  have ok: "hash_ok H" using assms(3,11) sha_ok by (auto simp: scram256_def scram512_def)
  have nocomma: "CHR '','' \<notin> set ?nonce" using assms(6) s1(4) by simp
  have "sc_step s2 = ScramSentFinal" "sc_serverSig s2 = server_signature H pass salt iter (auth_message (sc_clientFirst s1) ?sf ?nonce)"
    using fin by simp_all
  with encode_verify [of s2 precis r3] fin show ?thesis
    using sent1 honest_proof [OF ok nocomma, of pass salt iter "sc_clientFirst s1" ?sf] by auto
qed

definition example_scram :: saslScram where
  "example_scram = \<lparr>sc_user = ''user'', sc_pass = ''pencil'', sc_mechs = [], sc_hash = None, sc_step = ScramStart, sc_cnonce = [],
     sc_clientFirst = [], sc_serverSig = []\<rparr>"

definition example_first :: string where
  "example_first = server_first (base64_encode ''abc'') ''xyz'' ''salt'' 4096"

lemma example_challenge: "scram_challenge (base64_encode ''abc'') example_first = Some (base64_encode ''abc'' @ ''xyz'', ''salt'', 4096)"
  unfolding example_first_def by (rule honest_challenge) (simp_all add: scramMaxIter_def)

theorem scram_exchange_with_honest_server_witness:
  "\<exists>final v s3. sent_text (snd (scram_Encode Some None [base64_encode example_first] (fst (scram_Encode Some (Some ''abc'') [''+''] (example_scram\<lparr>sc_hash := Some scram512\<rparr>)))))
       = Some final
     \<and> server_final sha512 (stored_key sha512 ''pencil'' ''salt'' 4096) (server_key sha512 ''pencil'' ''salt'' 4096)
         (''n=user,r='' @ base64_encode ''abc'') example_first final = Some v \<and> sc_step (s3 :: saslScram) = ScramDone"
proof -
  let ?s = "example_scram\<lparr>sc_hash := Some scram512\<rparr>"
  have s: "sc_step ?s = ScramStart" "sc_hash ?s = Some scram512" "sc_pass ?s = ''pencil''" by (simp_all add: example_scram_def)
  have H512: "sha512 = sh_New scram512" and pencil: "''pencil'' = saslPrep Some (sc_pass ?s)" and limit: "int 4096 \<le> scramMaxIter"
    by (simp_all add: scram512_def saslPrep_def example_scram_def scramMaxIter_def)
  have prem: "CHR '','' \<notin> set ''xyz''" "''xyz'' \<noteq> []" "''salt'' \<noteq> []" "1 \<le> (4096 :: nat)" by simp_all
  let ?one = "scram_Encode Some (Some ''abc'') [''+''] ?s"
  have one: "sc_cnonce (fst ?one) = base64_encode ''abc''" "sc_clientFirst (fst ?one) = ''n=user,r='' @ base64_encode ''abc''"
    unfolding encode_first [OF s(1)] by (simp_all add: example_scram_def saslPrep_def scramEscape_def)
  have "\<exists>final v s3. sent_text (snd (scram_Encode Some None [base64_encode (server_first (sc_cnonce (fst ?one)) ''xyz'' ''salt'' 4096)] (fst ?one))) = Some final
      \<and> server_final sha512 (stored_key sha512 ''pencil'' ''salt'' 4096) (server_key sha512 ''pencil'' ''salt'' 4096) (sc_clientFirst (fst ?one))
          (server_first (sc_cnonce (fst ?one)) ''xyz'' ''salt'' 4096) final = Some v \<and> sc_step (s3 :: saslScram) = ScramDone"
    using scram_exchange_with_honest_server [OF s(1,2) disjI2 [OF refl] surjective_pairing [of ?one]
        surjective_pairing [of "scram_Encode Some None [base64_encode (server_first (sc_cnonce (fst ?one)) ''xyz'' ''salt'' 4096)] (fst ?one)"]
        prem limit H512 pencil, of None]
    by blast
  then show ?thesis unfolding one example_first_def .
qed

theorem scram_accepts_only_the_right_signature_witness:
  "\<exists>H serverFirst nonce salt iter cnonce. (H = sha256 \<or> H = sha512) \<and> scram_challenge cnonce serverFirst = Some (nonce, salt, iter)
     \<and> int iter \<le> scramMaxIter \<and> received [CallMethod, CallEncode (Some ''abc'') [''+''], CallEncode None [base64_encode example_first],
       CallEncode None [base64_encode (''v='' @ base64_encode (server_signature sha256 ''pencil'' ''salt'' 4096
         (auth_message (''n=user,r='' @ base64_encode ''abc'') example_first (base64_encode ''abc'' @ ''xyz''))))]] serverFirst"
proof -
  let ?sig = "server_signature sha256 ''pencil'' ''salt'' 4096
      (auth_message (''n=user,r='' @ base64_encode ''abc'') example_first (base64_encode ''abc'' @ ''xyz''))"
  let ?cs = "[CallMethod, CallEncode (Some ''abc'') [''+''], CallEncode None [base64_encode example_first],
      CallEncode None [base64_encode (''v='' @ base64_encode ?sig)]]"
  let ?s = "(scram_reset example_scram)\<lparr>sc_hash := Some scram256\<rparr>"
  let ?s1 = "?s\<lparr>sc_cnonce := base64_encode ''abc'', sc_clientFirst := ''n=user,r='' @ base64_encode ''abc'', sc_step := ScramSentFirst\<rparr>"
  have m: "snd (Method (scram_reset example_scram)) = ?s"
    by (simp add: Method_def scramHashes_def scram_reset_def Let_def)
  have one: "fst (scram_Encode Some (Some ''abc'') [''+''] ?s) = ?s1"
    by (simp add: encode_first scram_reset_def example_scram_def saslPrep_def scramEscape_def)
  have "scram_challenge (sc_cnonce ?s1) example_first = Some (base64_encode ''abc'' @ ''xyz'', ''salt'', 4096)"
    using example_challenge by simp
  from encode_final [OF _ this, of scram256 Some None]
  have two: "fst (scram_Encode Some None [base64_encode example_first] ?s1) = ?s1\<lparr>sc_serverSig := ?sig, sc_step := ScramSentFinal\<rparr>"
    by (simp add: scram256_def scram_reset_def example_scram_def saslPrep_def)
  have "sc_step (scram_calls Some ?cs (scram_reset example_scram)) = ScramDone"
    using encode_verify [of "?s1\<lparr>sc_serverSig := ?sig, sc_step := ScramSentFinal\<rparr>" Some None]
    by (simp only: scram_calls.simps scram_call.case m one two) simp
  from scram_accepts_only_the_right_signature [OF this] show ?thesis by blast
qed

section \<open>The fingerprint\<close>

definition sound_registration :: "registration \<Rightarrow> bool" where
  "sound_registration r \<longleftrightarrow> list_all (\<lambda>x. CHR 0x00 \<notin> set x) [rg_User r, rg_Realname r, rg_SASLUser r, rg_SASLPass r, rg_ServerPass r, rg_CertPEM r]"

definition sound_addrs :: "string list \<Rightarrow> bool" where
  "sound_addrs addrs \<longleftrightarrow> addrs \<noteq> [] \<and> list_all (\<lambda>a. CHR '','' \<notin> set a \<and> CHR 0x00 \<notin> set a) addrs"

definition uses_scram :: "registration \<Rightarrow> bool" where
  "uses_scram r \<longleftrightarrow> rg_SASLScram r \<and> \<not> rg_SASLExternal r \<and> rg_SASLUser r \<noteq> []"

lemma format_bool_inj [simp]: "format_bool a = format_bool b \<longleftrightarrow> a = b"
  by (simp add: format_bool_def)

lemma format_bool_plain [simp]: "CHR 0x00 \<notin> set (format_bool a)"
  by (simp add: format_bool_def)

lemma join_NUL: "list_all (\<lambda>a. CHR 0x00 \<notin> set a) addrs \<Longrightarrow> CHR 0x00 \<notin> set (join_with addrs '','')"
  by (induction addrs "'',''" rule: join_with.induct) auto

lemma parts_plain: "sound_registration r \<Longrightarrow> sound_addrs addrs \<Longrightarrow> \<forall>p\<in>set (fingerprint_parts r addrs). CHR 0x00 \<notin> set p"
  using join_NUL [of addrs] by (auto simp: fingerprint_parts_def sound_registration_def sound_addrs_def list_all_iff)

lemma parts_split: "fingerprint_parts r addrs =
    [''v1'', join_with addrs '','', format_bool (rg_TLS r), format_bool (rg_Insecure r), rg_User r, rg_Realname r,
     rg_SASLUser r, rg_SASLPass r, rg_ServerPass r, format_bool (rg_SASLExternal r), rg_CertPEM r]
    @ (if uses_scram r then [''scram''] else [])"
  by (simp add: fingerprint_parts_def uses_scram_def)

lemma parts_nonempty: "fingerprint_parts r addrs \<noteq> []"
  by (simp add: parts_split)

lemma parts_eq:
  assumes "sound_addrs addrs" "sound_addrs addrs'"
  shows "fingerprint_parts r addrs = fingerprint_parts r' addrs' \<longleftrightarrow>
    addrs = addrs' \<and> r\<lparr>rg_SASLScram := False\<rparr> = r'\<lparr>rg_SASLScram := False\<rparr> \<and> uses_scram r = uses_scram r'"
proof -
  have join: "join_with addrs '','' = join_with addrs' '','' \<longleftrightarrow> addrs = addrs'"
  proof -
    have "split_on (join_with addrs '','') CHR '','' = addrs" "split_on (join_with addrs' '','') CHR '','' = addrs'"
      using assms by (auto simp: sound_addrs_def list_all_iff intro!: split_join)
    then show ?thesis by metis
  qed
  have "r\<lparr>rg_SASLScram := False\<rparr> = r'\<lparr>rg_SASLScram := False\<rparr> \<longleftrightarrow> rg_TLS r = rg_TLS r' \<and> rg_Insecure r = rg_Insecure r'
      \<and> rg_User r = rg_User r' \<and> rg_Realname r = rg_Realname r' \<and> rg_SASLUser r = rg_SASLUser r' \<and> rg_SASLPass r = rg_SASLPass r'
      \<and> rg_ServerPass r = rg_ServerPass r' \<and> rg_SASLExternal r = rg_SASLExternal r' \<and> rg_CertPEM r = rg_CertPEM r'"
    by (cases r; cases r') simp
  then show ?thesis
    unfolding parts_split by (cases "uses_scram r"; cases "uses_scram r'") (simp_all add: join)
qed

text \<open>
  Two registrations have the same fingerprint exactly when SHA-256 agrees on what is hashed for them, and
  what is hashed is the same exactly when every setting that shapes the registration is: the ordered server
  list, TLS and its verification, user, real name, passwords, certificate and the SASL mechanism in use. So a
  held socket is reused after an edit of any of them only if SHA-256 collides.\<close>

theorem fingerprint_tells_registrations_apart:
  assumes "sound_registration r" "sound_registration r'" "sound_addrs addrs" "sound_addrs addrs'"
  shows "(registrationFingerprint r addrs = registrationFingerprint r' addrs' \<longleftrightarrow>
      sha256_sum (join_with (fingerprint_parts r addrs) [CHR 0x00]) = sha256_sum (join_with (fingerprint_parts r' addrs') [CHR 0x00]))
    \<and> (join_with (fingerprint_parts r addrs) [CHR 0x00] = join_with (fingerprint_parts r' addrs') [CHR 0x00] \<longleftrightarrow>
      addrs = addrs' \<and> r\<lparr>rg_SASLScram := False\<rparr> = r'\<lparr>rg_SASLScram := False\<rparr> \<and> uses_scram r = uses_scram r')"
proof -
  have "split_on (join_with (fingerprint_parts r addrs) [CHR 0x00]) CHR 0x00 = fingerprint_parts r addrs"
    "split_on (join_with (fingerprint_parts r' addrs') [CHR 0x00]) CHR 0x00 = fingerprint_parts r' addrs'"
    by (rule split_join [OF parts_nonempty parts_plain], fact, fact)+
  then have "join_with (fingerprint_parts r addrs) [CHR 0x00] = join_with (fingerprint_parts r' addrs') [CHR 0x00]
      \<longleftrightarrow> fingerprint_parts r addrs = fingerprint_parts r' addrs'" by metis
  then show ?thesis using parts_eq [OF assms(3,4)] hex_encode_inj by (auto simp: registrationFingerprint_def)
qed

definition example_registration :: registration where
  "example_registration = \<lparr>rg_TLS = True, rg_Insecure = False, rg_User = ''u'', rg_Realname = ''r'', rg_SASLUser = ''a'', rg_SASLPass = ''p'',
     rg_ServerPass = [], rg_SASLExternal = False, rg_CertPEM = [], rg_SASLScram = False\<rparr>"

theorem fingerprint_tells_registrations_apart_witness:
  "join_with (fingerprint_parts example_registration [''h:1'']) [CHR 0x00]
     \<noteq> join_with (fingerprint_parts (example_registration\<lparr>rg_SASLScram := True\<rparr>) [''h:1'']) [CHR 0x00]"
  using fingerprint_tells_registrations_apart [of example_registration "example_registration\<lparr>rg_SASLScram := True\<rparr>" "[''h:1'']" "[''h:1'']"]
  by (simp add: example_registration_def sound_registration_def sound_addrs_def uses_scram_def del: join_with.simps)

end
