(* ===== verification/Bouncer_Lines.thy ===== *)
theory Bouncer_Lines
  imports Irc_Relay
begin

text \<open>
  Model of the line layer of the IRC server for other clients (\<^verbatim>\<open>internal/ircserver\<close>: \<^verbatim>\<open>parse.go\<close>, \<^verbatim>\<open>isupport.go\<close>,
  the pure part of \<^verbatim>\<open>replay.go\<close>, \<^verbatim>\<open>sanitizeLine\<close> of \<^verbatim>\<open>session.go\<close>): parsing what a client sends, printing what it is
  sent, tag values, login names, credentials and nicks. \<^verbatim>\<open>strings.ToUpper\<close>, \<^verbatim>\<open>strings.ToLower\<close> and the tables
  of \<^verbatim>\<open>unicode\<close> outside ASCII are fields of the record \<open>unicode\<close>.
\<close>

section \<open>Unicode\<close>

record unicode =
  u_upper :: "string \<Rightarrow> string"
  u_lower :: "string \<Rightarrow> string"
  u_letter :: "string \<Rightarrow> bool"
  u_digit :: "string \<Rightarrow> bool"

section \<open>Tag values\<close>

definition backslash :: char where "backslash = CHR 0x5C"

definition escape_rune :: "string \<Rightarrow> string" where
  "escape_rune r =
     (if r = '';'' then [backslash, CHR '':'']
      else if r = '' '' then [backslash, CHR ''s'']
      else if r = [backslash] then [backslash, backslash]
      else if r = [CHR 0x0D] then [backslash, CHR ''r'']
      else if r = [CHR 0x0A] then [backslash, CHR ''n'']
      else r)"

definition EscapeTagValue :: "string \<Rightarrow> string" where
  "EscapeTagValue v = concat (map escape_rune (runes v))"

definition unescape_rune :: "string \<Rightarrow> string" where
  "unescape_rune r =
     (if r = '':'' then '';''
      else if r = ''s'' then '' ''
      else if r = [backslash] then [backslash]
      else if r = ''r'' then [CHR 0x0D]
      else if r = ''n'' then [CHR 0x0A]
      else r)"

fun unescape_runes :: "string list \<Rightarrow> bool \<Rightarrow> string" where
  "unescape_runes [] escaped = []"
| "unescape_runes (r # rs) escaped =
     (if escaped then unescape_rune r @ unescape_runes rs False
      else if r = [backslash] then unescape_runes rs True
      else r @ unescape_runes rs False)"

definition UnescapeTagValue :: "string \<Rightarrow> string" where
  "UnescapeTagValue v = unescape_runes (runes v) False"

section \<open>Lines\<close>

record client_message =
  cm_RawTags :: string
  cm_Tags :: "string \<rightharpoonup> string"
  cm_Command :: string
  cm_Params :: "string list"

definition maxClientTagBytes :: nat where "maxClientTagBytes = 4094"
definition serverName :: string where "serverName = ''stugan.bouncer''"
definition defaultMaxPlayback :: int where "defaultMaxPlayback = 50"

text \<open>A tag of a client with its key and value; None when it is dropped.\<close>

definition client_tag :: "string \<Rightarrow> (string \<times> string) option" where
  "client_tag t =
     (if t = [] then None
      else (let (key, val) = (case index_byte t CHR ''='' of
                Some eq \<Rightarrow> (take eq t, UnescapeTagValue (drop (eq + 1) t)) | None \<Rightarrow> (t, []))
            in if has_prefix key ''+'' \<and> 1 < length key then Some (key, val) else None))"

definition client_tags :: "string \<Rightarrow> string \<times> (string \<rightharpoonup> string)" where
  "client_tags tagPart =
     (let kept = filter (\<lambda>t. client_tag t \<noteq> None) (split_on tagPart CHR '';''); joined = join_with kept '';''
      in (if kept \<noteq> [] \<and> length joined \<le> maxClientTagBytes then joined else [],
          fold (\<lambda>t m. case client_tag t of Some (k, v) \<Rightarrow> m(k \<mapsto> v) | None \<Rightarrow> m) kept Map.empty))"

text \<open>The position of \<^verbatim>\<open>" :"\<close>, and the line around it.\<close>

fun cut_trailing :: "string \<Rightarrow> string \<times> string option" where
  "cut_trailing [] = ([], None)"
| "cut_trailing [c] = ([c], None)"
| "cut_trailing (c # d # s) =
     (if c = CHR '' '' \<and> d = CHR '':'' then ([], Some s)
      else (let (h, t) = cut_trailing (d # s) in (c # h, t)))"

text \<open>A leading word that starts with a sign: the word without the sign, and the rest; None when nothing follows it.\<close>

definition lead_word :: "string \<Rightarrow> (string \<times> string) option" where
  "lead_word line = (case index_byte line CHR '' '' of
      None \<Rightarrow> None | Some sp \<Rightarrow> Some (drop 1 (take sp line), trim_left (drop (sp + 1) line) CHR '' ''))"

definition parse_command :: "unicode \<Rightarrow> string \<Rightarrow> (string \<rightharpoonup> string) \<Rightarrow> string \<Rightarrow> client_message option" where
  "parse_command U rawTags tags line =
     (if line = [] then None
      else (let (head, trailing) = cut_trailing line in
            case Core_Command.fields head of
              [] \<Rightarrow> None
            | cmd # params \<Rightarrow> Some \<lparr>cm_RawTags = rawTags, cm_Tags = tags, cm_Command = u_upper U cmd,
                cm_Params = params @ (case trailing of Some t \<Rightarrow> [t] | None \<Rightarrow> [])\<rparr>))"

definition strip_prefix :: "unicode \<Rightarrow> string \<Rightarrow> (string \<rightharpoonup> string) \<Rightarrow> string \<Rightarrow> client_message option" where
  "strip_prefix U rawTags tags line =
     (if has_prefix line '':'' then (case lead_word line of None \<Rightarrow> None | Some (_, rest) \<Rightarrow> parse_command U rawTags tags rest)
      else parse_command U rawTags tags line)"

definition ParseLine :: "unicode \<Rightarrow> string \<Rightarrow> client_message option" where
  "ParseLine U raw =
     (let line = trim_right raw [CHR 0x0D, CHR 0x0A, CHR 0x00] in
      if line = [] then None
      else if has_prefix line ''@'' then
        (case lead_word line of
           None \<Rightarrow> None
         | Some (tagPart, rest) \<Rightarrow> (let (rawTags, tags) = client_tags tagPart in strip_prefix U rawTags tags rest))
      else strip_prefix U [] Map.empty line)"

definition last_param :: "string \<Rightarrow> string" where
  "last_param p = (if has_prefix p '':'' then p else if p = [] \<or> CHR '' '' \<in> set p then CHR '':'' # p else p)"

definition FormatLine :: "string \<Rightarrow> string \<Rightarrow> string \<Rightarrow> string list \<Rightarrow> string" where
  "FormatLine tags prefix command params =
     (if tags \<noteq> [] then ''@'' @ tags @ '' '' else []) @ (if prefix \<noteq> [] then '':'' @ prefix @ '' '' else []) @ command
     @ (if params = [] then []
        else concat (map (\<lambda>p. '' '' @ p) (butlast params)) @ '' '' @ last_param (last params))"

text \<open>A value cannot break out of its line.\<close>

definition sanitizeLine :: "string \<Rightarrow> string" where
  "sanitizeLine line = map (\<lambda>c. if c = CHR 0x0D \<or> c = CHR 0x0A \<or> c = CHR 0x00 then CHR '' '' else c) line @ [CHR 0x0D, CHR 0x0A]"

section \<open>Logins\<close>

record parsedLogin =
  pl_Username :: string
  pl_Network :: string
  pl_Client :: string

definition UnmarshalLogin :: "string \<Rightarrow> parsedLogin" where
  "UnmarshalLogin raw =
     (let raw = trim_space raw; blank = \<lparr>pl_Username = [], pl_Network = [], pl_Client = []\<rparr> in
      if raw = [] then blank
      else (case index_any raw ''/@'' of
          None \<Rightarrow> blank\<lparr>pl_Username := raw\<rparr>
        | Some i \<Rightarrow>
            (let j = (case (last_index_byte raw CHR ''/'', last_index_byte raw CHR ''@'') of
                   (Some a, Some b) \<Rightarrow> max a b | (Some a, None) \<Rightarrow> a | (None, Some b) \<Rightarrow> b | (None, None) \<Rightarrow> 0);
                 l = blank\<lparr>pl_Username := take i raw\<rparr>;
                 l = (if raw ! j = CHR ''@'' then l\<lparr>pl_Client := drop (j + 1) raw\<rparr> else l\<lparr>pl_Network := drop (j + 1) raw\<rparr>);
                 mid = drop (i + 1) (take j raw)
             in if i < j then (if raw ! i = CHR ''@'' then l\<lparr>pl_Client := mid\<rparr> else l\<lparr>pl_Network := mid\<rparr>) else l)))"

record parsedCredentials =
  pc_Username :: string
  pc_Secret :: string
  pc_Network :: string

definition ParseCredentials :: "string \<Rightarrow> string \<Rightarrow> parsedCredentials option" where
  "ParseCredentials passRaw userField =
     (let (loginPart, secret) = (case index_byte passRaw CHR '':'' of
            Some i \<Rightarrow> (take i passRaw, drop (i + 1) passRaw) | None \<Rightarrow> ([], passRaw));
          loginPart = (if loginPart = [] then userField else loginPart);
          parsed = UnmarshalLogin loginPart;
          network = (if pl_Network parsed = [] \<and> userField \<noteq> [] then pl_Network (UnmarshalLogin userField) else pl_Network parsed)
      in if pl_Username parsed = [] \<and> secret = [] then None
         else Some \<lparr>pc_Username = pl_Username parsed, pc_Secret = secret, pc_Network = network\<rparr>)"

section \<open>Nicks\<close>

definition ascii_letter :: "char \<Rightarrow> bool" where "ascii_letter c \<longleftrightarrow> is_upper_byte c \<or> is_lower_byte c"

definition nick_rune :: "unicode \<Rightarrow> string \<Rightarrow> bool" where
  "nick_rune U r =
     (case r of
        [c] \<Rightarrow> ascii_letter c \<or> is_digit c \<or> c \<in> set ''-[]`^{}_|'' \<or> c = backslash
      | _ \<Rightarrow> u_letter U r \<or> u_digit U r)"

definition digit_rune :: "unicode \<Rightarrow> string \<Rightarrow> bool" where
  "digit_rune U r = (case r of [c] \<Rightarrow> is_digit c | _ \<Rightarrow> u_digit U r)"

definition CleanNick :: "unicode \<Rightarrow> string \<Rightarrow> string" where
  "CleanNick U nick =
     (let nick = trim_space nick in
      if nick = [] then ''user''
      else (let rs = runes nick;
                res = (if digit_rune U (hd rs) \<or> hd rs = ''-'' then ''u'' else []) @ concat (filter (nick_rune U) rs)
            in if res = [] then ''user'' else take 32 res))"

section \<open>Capabilities\<close>

definition supportedCaps :: "string list" where
  "supportedCaps = [''sasl'', ''server-time'', ''message-tags'', ''echo-message'', ''znc.in/self-message'', ''batch'',
     ''draft/chathistory'', ''soju.im/bouncer-networks'', ''soju.im/bouncer-networks-notify'', ''draft/read-marker'', ''read-marker'']"

definition maxChatHistory_server :: int where "maxChatHistory_server = 1000"

definition saslMechanisms :: "string list" where "saslMechanisms = [''PLAIN'']"

definition isCapSupported :: "string \<Rightarrow> bool" where
  "isCapSupported capName \<longleftrightarrow> trim_prefix capName ''-'' \<in> set supportedCaps"

definition capLsList :: "nat \<Rightarrow> string" where
  "capLsList version = join_with (map (\<lambda>c. if c = ''sasl'' \<and> 302 \<le> version then ''sasl='' @ join_with saslMechanisms '','' else c)
     supportedCaps) '' ''"

definition defaultISupportTokens :: "string list" where
  "defaultISupportTokens = [''CHANTYPES=#&'', ''PREFIX=(ov)@+'', ''CASEMAPPING=rfc1459'', ''NICKLEN=32'', ''CHANNELLEN=64'', ''NETWORK=stugan'']"

section \<open>Replay\<close>

definition MemberPrefixSymbol :: "string \<Rightarrow> string" where
  "MemberPrefixSymbol modes = (case modes of [] \<Rightarrow> [] | c # _ \<Rightarrow> byte_string c)"

primrec names_chunks :: "int \<Rightarrow> string list \<Rightarrow> string list \<Rightarrow> int \<Rightarrow> string list list" where
  "names_chunks budget [] chunk currLen = (if chunk \<noteq> [] then [chunk] else [])"
| "names_chunks budget (name # names) chunk currLen =
     (let add = int (length name) + (if chunk \<noteq> [] then 1 else 0) in
      if budget < currLen + add \<and> chunk \<noteq> []
      then chunk # names_chunks budget names [name] (int (length name))
      else names_chunks budget names (chunk @ [name]) (currLen + add))"

definition names_base :: "string \<Rightarrow> string \<Rightarrow> string" where
  "names_base nick channel = '':'' @ serverName @ '' 353 '' @ nick @ '' = '' @ channel @ '' :''"

definition BuildNamesLines :: "string \<Rightarrow> string \<Rightarrow> string list \<Rightarrow> string list" where
  "BuildNamesLines nick channel names =
     (let base = names_base nick channel; budget = max 64 (480 - int (length base))
      in map (\<lambda>chunk. base @ join_with chunk '' '') (names_chunks budget names [] 0)
         @ ['':'' @ serverName @ '' 366 '' @ nick @ '' '' @ channel @ '' :End of /NAMES list.''])"

text \<open>Times are nanoseconds since 1970, 0 the zero time.\<close>

definition FormatIrcTime :: "int \<Rightarrow> int \<Rightarrow> string" where
  "FormatIrcTime now t = server_time (nat ((if t = 0 then now else t) div 10 ^ 6))"

definition services_names :: "string list" where
  "services_names = [''global'', ''services'', ''q'', ''x'', ''w'', ''chanserv'', ''nickserv'', ''memoserv'', ''operserv'', ''authserv'']"

definition has_suffix :: "string \<Rightarrow> string \<Rightarrow> bool" where
  "has_suffix s p \<longleftrightarrow> length p \<le> length s \<and> drop (length s - length p) s = p"

text \<open>The regular expression: one or more letters and then \<^verbatim>\<open>serv\<close>.\<close>

definition IsServicesNick :: "unicode \<Rightarrow> string \<Rightarrow> bool" where
  "IsServicesNick U nick =
     (let lower = u_lower U nick
      in has_suffix lower ''serv'' \<and> 4 < length lower \<and> list_all ascii_letter (take (length lower - 4) lower)
         \<or> lower \<in> set services_names)"

end
