(* ===== verification/Go_Net.thy ===== *)
theory Go_Net
  imports Irc_Relay
begin

text \<open>
  \<^verbatim>\<open>net.ParseIP\<close> and \<^verbatim>\<open>IP.IsLoopback\<close> of Go's standard library. An address is its list of bytes (IPv4) or of
  16-bit groups (IPv6).
\<close>

datatype ip = IPv4 "nat list" | IPv6 "nat list"

definition octet :: "string \<Rightarrow> nat option" where
  "octet s =
     (if s = [] \<or> (1 < length s \<and> hd s = CHR ''0'') then None
      else (case digits_value 0 s of Some n \<Rightarrow> if n \<le> 255 then Some n else None | None \<Rightarrow> None))"

definition parse_ipv4 :: "string \<Rightarrow> nat list option" where
  "parse_ipv4 s =
     (let ps = map octet (split_on s CHR ''.'')
      in if length ps = 4 \<and> list_all (\<lambda>p. p \<noteq> None) ps then Some (map the ps) else None)"

definition hex_value :: "char \<Rightarrow> nat option" where
  "hex_value c =
     (if is_digit c then Some (of_char c - 48)
      else if CHR ''a'' \<le> c \<and> c \<le> CHR ''f'' then Some (of_char c - 87)
      else if CHR ''A'' \<le> c \<and> c \<le> CHR ''F'' then Some (of_char c - 55) else None)"

definition hex_word :: "string \<Rightarrow> nat" where
  "hex_word ds = foldl (\<lambda>n c. n * 16 + the (hex_value c)) 0 ds"

text \<open>
  The groups read so far, the place of \<^verbatim>\<open>::\<close> if there was one, and the rest of the text; None on an error.
\<close>

function ip6_loop :: "string \<Rightarrow> nat list \<Rightarrow> nat option \<Rightarrow> (nat list \<times> nat option) option" where
  "ip6_loop s gs ell =
     (let ds = takeWhile (\<lambda>c. hex_value c \<noteq> None) s; rest = dropWhile (\<lambda>c. hex_value c \<noteq> None) s in
      if 8 \<le> length gs then (if s = [] then Some (gs, ell) else None)
      else if ds = [] \<or> 4 < length ds then None
      else if rest \<noteq> [] \<and> hd rest = CHR ''.'' then
        (if (ell = None \<and> length gs \<noteq> 6) \<or> 6 < length gs then None
         else (case parse_ipv4 s of
             Some [a, b, c, d] \<Rightarrow> Some (gs @ [a * 256 + b, c * 256 + d], ell) | _ \<Rightarrow> None))
      else if rest = [] then Some (gs @ [hex_word ds], ell)
      else if hd rest \<noteq> CHR '':'' \<or> tl rest = [] then None
      else if hd (tl rest) = CHR '':'' then
        (if ell \<noteq> None then None
         else if tl (tl rest) = [] then Some (gs @ [hex_word ds], Some (length gs + 1))
         else ip6_loop (tl (tl rest)) (gs @ [hex_word ds]) (Some (length gs + 1)))
      else ip6_loop (tl rest) (gs @ [hex_word ds]) ell)"
  by pat_completeness auto
termination
proof (relation "measure (\<lambda>(s, _). length s)", goal_cases)
  case (2 s gs ell ds rest)
  have "length rest \<le> length s" "0 < length rest" using 2 by (simp_all only: length_dropWhile_le length_greater_0_conv not_False_eq_True)
  then show ?case by (simp only: in_measure case_prod_conv length_tl)
next
  case (3 s gs ell ds rest)
  have "length rest \<le> length s" "0 < length rest" using 3 by (simp_all only: length_dropWhile_le length_greater_0_conv not_False_eq_True)
  then show ?case by (simp only: in_measure case_prod_conv length_tl)
qed simp

declare ip6_loop.simps [simp del]

definition expand_groups :: "nat list \<times> nat option \<Rightarrow> nat list option" where
  "expand_groups r =
     (case r of
        (gs, None) \<Rightarrow> if length gs = 8 then Some gs else None
      | (gs, Some e) \<Rightarrow> if length gs = 8 then None else Some (take e gs @ replicate (8 - length gs) 0 @ drop e gs))"

definition parse_ipv6 :: "string \<Rightarrow> nat list option" where
  "parse_ipv6 s =
     (let read = (if has_prefix s ''::'' then (if s = ''::'' then Some ([], Some 0) else ip6_loop (drop 2 s) [] (Some 0))
                  else ip6_loop s [] None)
      in case read of None \<Rightarrow> None | Some r \<Rightarrow> expand_groups r)"

text \<open>The first of the characters that tell the kinds apart decides; an address with a zone is refused.\<close>

definition ParseIP :: "string \<Rightarrow> ip option" where
  "ParseIP s =
     (case index_any s ''.:%'' of
        None \<Rightarrow> None
      | Some i \<Rightarrow>
          if s ! i = CHR ''.'' then map_option IPv4 (parse_ipv4 s)
          else if s ! i = CHR ''%'' \<or> CHR ''%'' \<in> set s then None
          else map_option IPv6 (parse_ipv6 s))"

definition IsLoopback :: "ip \<Rightarrow> bool" where
  "IsLoopback p =
     (case p of
        IPv4 bs \<Rightarrow> hd bs = 127
      | IPv6 gs \<Rightarrow> gs = [0, 0, 0, 0, 0, 0, 0, 1] \<or> take 6 gs = [0, 0, 0, 0, 0, 0xFFFF] \<and> gs ! 6 div 256 = 127)"

end
