(* ===== verification/Bouncer_Session.thy ===== *)
theory Bouncer_Session
  imports Bouncer_Lines Go_Net Go_Crypto Core_Loop
begin

text \<open>
  Model of a client's session with the IRC server (\<^verbatim>\<open>internal/ircserver/session.go\<close>, \<^verbatim>\<open>inbound.go\<close>, \<^verbatim>\<open>sink.go\<close>, the
  formatting part of \<^verbatim>\<open>replay.go\<close>): capability negotiation, SASL, registration, the attach burst and the
  commands of a registered client. The hub (accounts and their tenants), bcrypt, the history store, the
  clock and the order in which a Go map of members is visited are parameters. \<open>bs_out\<close> is the outbound queue,
  \<open>bs_calls\<close> what the session asks of others: inputs for the core engine, the registry, the pause after a
  failed login.
\<close>

section \<open>The world of a session\<close>

record tenant =
  tn_Engine :: engine
  tn_History :: "(string \<Rightarrow> string \<Rightarrow> int \<Rightarrow> message list option) option"
  tn_Prefs :: "(string \<Rightarrow> string option) option"

definition BouncerAllowed :: "tenant \<Rightarrow> bool" where
  "BouncerAllowed t = (case tn_Prefs t of None \<Rightarrow> True
     | Some pref \<Rightarrow> (case pref ''bouncer'' of None \<Rightarrow> True | Some v \<Rightarrow> v \<noteq> ''off''))"

record hub =
  hb_AuthEnabled :: bool
  hb_Login :: "string \<Rightarrow> string \<Rightarrow> string option"
  hb_Tenant :: "string \<Rightarrow> tenant option"
  hb_Users :: "string list"

record world =
  wd_hub :: hub
  wd_env :: env
  wd_unicode :: unicode
  wd_now :: int
  wd_PasswordHash :: string
  wd_bcrypt :: "string \<Rightarrow> string \<Rightarrow> bool"
  wd_MaxPlayback :: int
  wd_members :: "channel \<Rightarrow> member list"
  wd_parse_time :: "nat \<Rightarrow> string \<Rightarrow> int option"

datatype bouncer_call = CallInput string string string | CallList string string | CallMarkRead string string int
  | CallPause | CallAdd | CallRemove

record bsession =
  bs_remoteAddr :: string
  bs_caps :: "string list"
  bs_capNegotiating :: bool
  bs_lastState :: "string \<rightharpoonup> connState"
  bs_saslMech :: string
  bs_saslBuf :: string
  bs_saslUser :: string
  bs_saslNetwork :: string
  bs_passRaw :: string
  bs_clientNick :: string
  bs_clientUser :: string
  bs_clientRealname :: string
  bs_registered :: bool
  bs_closed :: bool
  bs_userID :: string
  bs_networkID :: string
  bs_boundNetID :: string
  bs_isControl :: bool
  bs_batchSeq :: nat
  bs_pendingEcho :: "(string \<times> int) list"
  bs_lastActivity :: int
  bs_out :: "string list"
  bs_calls :: "bouncer_call list"

definition outQueueSize :: nat where "outQueueSize = 4096"
definition maxSaslResponse :: nat where "maxSaslResponse = 8 * 1024"

definition newSession :: "string \<Rightarrow> int \<Rightarrow> bsession" where
  "newSession remote now = \<lparr>bs_remoteAddr = remote, bs_caps = [], bs_capNegotiating = False, bs_lastState = Map.empty,
     bs_saslMech = [], bs_saslBuf = [], bs_saslUser = [], bs_saslNetwork = [], bs_passRaw = [], bs_clientNick = [],
     bs_clientUser = [], bs_clientRealname = [], bs_registered = False, bs_closed = False, bs_userID = [], bs_networkID = [],
     bs_boundNetID = [], bs_isControl = False, bs_batchSeq = 0, bs_pendingEcho = [], bs_lastActivity = now div 10 ^ 9,
     bs_out = [], bs_calls = []\<rparr>"

section \<open>Writing\<close>

text \<open>
  \<^verbatim>\<open>write\<close> waits for room; \<^verbatim>\<open>push\<close> does not, and gives up on a client a whole queue behind (the code ends the session
  in a goroutine, the model at once).
\<close>

definition bs_write :: "string \<Rightarrow> bsession \<Rightarrow> bsession" where
  "bs_write line s = (if bs_closed s then s else s\<lparr>bs_out := bs_out s @ [sanitizeLine line]\<rparr>)"

definition bs_call :: "bouncer_call \<Rightarrow> bsession \<Rightarrow> bsession" where
  "bs_call c s = s\<lparr>bs_calls := bs_calls s @ [c]\<rparr>"

definition bs_destroy :: "bsession \<Rightarrow> bsession" where
  "bs_destroy s = (if bs_closed s then s else bs_call CallRemove (s\<lparr>bs_closed := True\<rparr>))"

definition bs_push :: "string \<Rightarrow> bsession \<Rightarrow> bsession" where
  "bs_push line s =
     (if bs_closed s then s
      else if length (bs_out s) < outQueueSize then s\<lparr>bs_out := bs_out s @ [sanitizeLine line]\<rparr>
      else bs_destroy s)"

definition closeWithError :: "string \<Rightarrow> bsession \<Rightarrow> bsession" where
  "closeWithError reason s = bs_destroy (bs_push (''ERROR :'' @ reason) s)"

definition hasCap_session :: "bsession \<Rightarrow> string \<Rightarrow> bool" where
  "hasCap_session s c \<longleftrightarrow> c \<in> set (bs_caps s)"

definition noteState :: "string \<Rightarrow> connState \<Rightarrow> bsession \<Rightarrow> bsession" where
  "noteState net st s = s\<lparr>bs_lastState := (bs_lastState s)(net \<mapsto> st)\<rparr>"

definition stateChanged :: "string \<Rightarrow> connState \<Rightarrow> bsession \<Rightarrow> bool \<times> bsession" where
  "stateChanged net st s = (bs_lastState s net \<noteq> Some st, noteState net st s)"

text \<open>The engine and the history of the account the session is attached to; None before it is.\<close>

definition bs_tenant :: "world \<Rightarrow> bsession \<Rightarrow> tenant option" where
  "bs_tenant W s = (if bs_registered s then hb_Tenant (wd_hub W) (bs_userID s) else None)"

definition currentNick :: "world \<Rightarrow> bsession \<Rightarrow> string" where
  "currentNick W s =
     (case bs_tenant W s of
        Some t \<Rightarrow> if bs_networkID s \<noteq> [] \<and> NetworkNick (bs_networkID s) (tn_Engine t) \<noteq> []
                  then NetworkNick (bs_networkID s) (tn_Engine t) else bs_clientNick s
      | None \<Rightarrow> bs_clientNick s)"

definition currentNickOr :: "world \<Rightarrow> string \<Rightarrow> bsession \<Rightarrow> string" where
  "currentNickOr W fallback s =
     (if currentNick W s \<noteq> [] then currentNick W s else if bs_clientNick s \<noteq> [] then bs_clientNick s else fallback)"

definition stugan_prefix :: "string \<Rightarrow> string" where
  "stugan_prefix nick = nick @ ''!stugan@'' @ serverName"

definition server_line :: "string \<Rightarrow> string list \<Rightarrow> bsession \<Rightarrow> bsession" where
  "server_line cmd params s = bs_write (FormatLine [] serverName cmd params) s"

definition bs_numeric :: "world \<Rightarrow> string \<Rightarrow> string list \<Rightarrow> bsession \<Rightarrow> bsession" where
  "bs_numeric W code params s = server_line code (currentNickOr W ''*'' s # params) s"

definition bs_notice :: "world \<Rightarrow> string \<Rightarrow> bsession \<Rightarrow> bsession" where
  "bs_notice W text s = server_line ''NOTICE'' [currentNickOr W ''*'' s, '':'' @ text] s"

definition wantsSelfMessages :: "bsession \<Rightarrow> bool" where
  "wantsSelfMessages s \<longleftrightarrow> hasCap_session s ''znc.in/self-message'' \<or> hasCap_session s ''echo-message''"

definition arg_at :: "client_message \<Rightarrow> nat \<Rightarrow> string" where
  "arg_at m i = (if i < length (cm_Params m) then cm_Params m ! i else [])"

section \<open>Capabilities\<close>

definition apply_cap :: "string \<Rightarrow> string list \<Rightarrow> string list" where
  "apply_cap c caps =
     (if has_prefix c ''-'' then filter (\<lambda>x. x \<noteq> trim_prefix c ''-'') caps
      else if c \<in> set caps then caps else caps @ [c])"

definition handleCap :: "world \<Rightarrow> client_message \<Rightarrow> bsession \<Rightarrow> bsession" where
  "handleCap W m s =
     (let sub = u_upper (wd_unicode W) (arg_at m 0); nick = currentNickOr W ''*'' s;
          negotiating = (\<lambda>s. if bs_registered s then s else s\<lparr>bs_capNegotiating := True\<rparr>) in
      if sub = ''LS'' then
        server_line ''CAP'' [nick, ''LS'', '':'' @ capLsList (if has_prefix (arg_at m 1) ''302'' then 302 else 301)] (negotiating s)
      else if sub = ''LIST'' then server_line ''CAP'' [nick, ''LIST'', '':'' @ join_with (bs_caps s) '' ''] s
      else if sub = ''REQ'' then
        (let s = negotiating s; reqStr = arg_at m 1; requested = Core_Command.fields reqStr in
         if requested = [] \<or> \<not> list_all isCapSupported requested
         then server_line ''CAP'' [nick, ''NAK'', '':'' @ reqStr] s
         else server_line ''CAP'' [nick, ''ACK'', '':'' @ reqStr] (s\<lparr>bs_caps := fold apply_cap requested (bs_caps s)\<rparr>))
      else if sub = ''END'' then s\<lparr>bs_capNegotiating := False\<rparr>
      else server_line ''410'' [nick, sub, '':Invalid CAP command''] s)"

section \<open>Authentication\<close>

definition singleUserID :: "hub \<Rightarrow> string" where
  "singleUserID h = (case hb_Users h of [] \<Rightarrow> ''default'' | u # _ \<Rightarrow> u)"

definition isLoopback :: "string \<Rightarrow> bool" where
  "isLoopback addr = (case ParseIP (case SplitHostPort addr of Some (host, _) \<Rightarrow> host | None \<Rightarrow> addr) of
     Some p \<Rightarrow> IsLoopback p | None \<Rightarrow> False)"

definition singleUserAuthorized :: "world \<Rightarrow> string \<Rightarrow> bsession \<Rightarrow> bool" where
  "singleUserAuthorized W secret s =
     (if wd_PasswordHash W \<noteq> [] then secret \<noteq> [] \<and> wd_bcrypt W (wd_PasswordHash W) secret
      else isLoopback (bs_remoteAddr s))"

definition sasl_fail :: "string \<Rightarrow> bsession \<Rightarrow> bsession" where
  "sasl_fail nick s = server_line ''904'' [nick, '':SASL authentication failed''] s"

definition finishSaslPlain :: "world \<Rightarrow> string \<Rightarrow> string \<Rightarrow> bsession \<Rightarrow> bsession" where
  "finishSaslPlain W b64 nick s =
     (case base64_decode b64 of
        None \<Rightarrow> sasl_fail nick s
      | Some decoded \<Rightarrow>
          (case split_on decoded CHR 0x00 of
             [authzid, authcid, passwd] \<Rightarrow>
               (let parsed = UnmarshalLogin (if authcid = [] then authzid else authcid) in
                if pl_Username parsed = [] \<or> passwd = [] then sasl_fail nick s
                else (case (if hb_AuthEnabled (wd_hub W) then hb_Login (wd_hub W) (pl_Username parsed) passwd
                            else if singleUserAuthorized W passwd s then Some (singleUserID (wd_hub W)) else None) of
                    None \<Rightarrow> sasl_fail nick (bs_call CallPause s)
                  | Some userID \<Rightarrow>
                      server_line ''903'' [nick, '':SASL authentication successful'']
                        (server_line ''900'' [nick, stugan_prefix nick, userID, '':You are now logged in as '' @ userID]
                          (s\<lparr>bs_saslUser := userID, bs_saslNetwork := pl_Network parsed\<rparr>))))
           | _ \<Rightarrow> sasl_fail nick s))"

definition handleSasl :: "world \<Rightarrow> client_message \<Rightarrow> bsession \<Rightarrow> bsession" where
  "handleSasl W m s =
     (let nick = currentNickOr W ''*'' s; arg = arg_at m 0 in
      if \<not> hasCap_session s ''sasl'' then server_line ''904'' [nick, '':You must request the sasl capability first''] s
      else if bs_saslMech s = [] then
        (if u_upper (wd_unicode W) arg \<in> set saslMechanisms
         then bs_write ''AUTHENTICATE +'' (s\<lparr>bs_saslMech := u_upper (wd_unicode W) arg, bs_saslBuf := []\<rparr>)
         else sasl_fail nick (server_line ''908'' [nick, join_with saslMechanisms '','', '':are available SASL mechanisms''] s))
      else if arg = ''*'' then
        server_line ''906'' [nick, '':SASL authentication aborted''] (s\<lparr>bs_saslMech := [], bs_saslBuf := []\<rparr>)
      else (let s = (if arg \<noteq> ''+'' then s\<lparr>bs_saslBuf := bs_saslBuf s @ arg\<rparr> else s) in
            if arg \<noteq> ''+'' \<and> maxSaslResponse < length (bs_saslBuf s)
            then server_line ''904'' [nick, '':SASL message too long''] (s\<lparr>bs_saslMech := [], bs_saslBuf := []\<rparr>)
            else if arg \<noteq> ''+'' \<and> length arg = 400 then s
            else finishSaslPlain W (bs_saslBuf s) nick (s\<lparr>bs_saslMech := [], bs_saslBuf := []\<rparr>)))"

definition handleBouncerPreReg :: "world \<Rightarrow> client_message \<Rightarrow> bsession \<Rightarrow> bsession" where
  "handleBouncerPreReg W m s =
     (let sub = u_upper (wd_unicode W) (arg_at m 0) in
      if \<not> hasCap_session s ''soju.im/bouncer-networks''
      then server_line ''FAIL'' [''BOUNCER'', ''UNKNOWN_COMMAND'', '':Negotiate soju.im/bouncer-networks capability first''] s
      else if sub \<noteq> ''BIND'' then server_line ''FAIL'' [''BOUNCER'', ''UNKNOWN_COMMAND'', sub, '':Unknown subcommand''] s
      else if bs_saslUser s = [] \<and> bs_passRaw s = [] \<and> hb_AuthEnabled (wd_hub W)
      then server_line ''FAIL'' [''BOUNCER'', ''ACCOUNT_REQUIRED'', ''BIND'', '':Authentication needed to bind to bouncer network''] s
      else if 1 < length (cm_Params m) then s\<lparr>bs_boundNetID := arg_at m 1\<rparr> else s)"

definition failRegistration :: "world \<Rightarrow> string \<Rightarrow> bsession \<Rightarrow> bsession" where
  "failRegistration W text s = closeWithError text (server_line ''464'' [currentNickOr W ''*'' s, '':'' @ text] s)"

section \<open>Batches and network lists\<close>

text \<open>What \<open>fn\<close> writes goes between the lines of the batch; it gets the reference, empty without the capability.\<close>

definition withBatch :: "string \<Rightarrow> string list \<Rightarrow> (string \<Rightarrow> bsession \<Rightarrow> bsession) \<Rightarrow> bsession \<Rightarrow> bsession" where
  "withBatch batchType params fn s =
     (if hasCap_session s ''batch'' then
        (let s = s\<lparr>bs_batchSeq := bs_batchSeq s + 1\<rparr>; ref = ''b'' @ format_uint (bs_batchSeq s)
         in server_line ''BATCH'' [''-'' @ ref] (fn ref (server_line ''BATCH'' ([''+'' @ ref, batchType] @ params) s)))
      else fn [] s)"

definition batch_tag :: "string \<Rightarrow> string" where
  "batch_tag ref = (if ref \<noteq> [] then ''batch='' @ ref else [])"

definition state_word :: "connState \<Rightarrow> string" where
  "state_word st = (case st of StateRegistered \<Rightarrow> ''connected'' | StateConnecting \<Rightarrow> ''connecting'' | StateDisconnected \<Rightarrow> ''disconnected'')"

definition network_attrs :: "network \<Rightarrow> string" where
  "network_attrs n =
     (let (host, port) = (case SplitHostPort (p_Addr (n_Params n)) of Some hp \<Rightarrow> hp | None \<Rightarrow> (p_Addr (n_Params n), ''6667''))
      in ''name='' @ EscapeTagValue (n_Name n) @ '';state='' @ state_word (n_State n) @ '';host='' @ EscapeTagValue host
         @ '';port='' @ port @ '';tls='' @ (if p_TLS (n_Params n) then ''1'' else ''0'') @ '';nickname='' @ EscapeTagValue (n_Nick n))"

definition list_network :: "string \<Rightarrow> network \<Rightarrow> bsession \<Rightarrow> bsession" where
  "list_network ref n s =
     bs_write (FormatLine (batch_tag ref) serverName ''BOUNCER'' [''NETWORK'', n_ID n, network_attrs n]) (noteState (n_ID n) (n_State n) s)"

definition sendNetworkList :: "world \<Rightarrow> bsession \<Rightarrow> bsession" where
  "sendNetworkList W s =
     (case bs_tenant W s of
        None \<Rightarrow> s
      | Some t \<Rightarrow> withBatch ''soju.im/bouncer-networks'' [] (\<lambda>ref. fold (list_network ref) (Snapshot (wd_env W) (tn_Engine t))) s)"

section \<open>Messages for the client\<close>

definition formatTags :: "world \<Rightarrow> int \<Rightarrow> string \<Rightarrow> string \<Rightarrow> bsession \<Rightarrow> string" where
  "formatTags W msgTime msgID batchRef s =
     join_with ((if batchRef \<noteq> [] then [''batch='' @ batchRef] else [])
       @ (if hasCap_session s ''server-time'' \<and> msgTime \<noteq> 0 then [''time='' @ FormatIrcTime (wd_now W) msgTime] else [])
       @ (if hasCap_session s ''message-tags'' \<and> msgID \<noteq> [] then [''msgid='' @ msgID] else [])) '';''"

definition replace_newlines :: "string \<Rightarrow> string" where
  "replace_newlines t = map (\<lambda>c. if c = newline then CHR '' '' else c) t"

definition message_bodies :: "message \<Rightarrow> string list" where
  "message_bodies m =
     (if msg_Kind m = MsgAction then [[CHR 0x01] @ ''ACTION '' @ replace_newlines (msg_Text m) @ [CHR 0x01]]
      else split_on (msg_Text m) newline)"

definition nick_or_star :: "world \<Rightarrow> bsession \<Rightarrow> string" where
  "nick_or_star W s = (if currentNick W s \<noteq> [] then currentNick W s else if bs_clientNick s \<noteq> [] then bs_clientNick s else ''*'')"

definition from_prefix :: "message \<Rightarrow> string" where
  "from_prefix m = stugan_prefix (if msg_From m = [] then ''unknown'' else msg_From m)"

definition formatPlaybackMessage :: "world \<Rightarrow> message \<Rightarrow> bool \<Rightarrow> string \<Rightarrow> bsession \<Rightarrow> string list" where
  "formatPlaybackMessage W m isChan batchRef s =
     (if msg_Kind m \<notin> {MsgPrivmsg, MsgAction, MsgNotice} \<or> msg_Text m = [] then []
      else if msg_Self m \<and> \<not> isChan \<and> \<not> wantsSelfMessages s then []
      else if msg_Self m \<and> \<not> isChan \<and> IsServicesNick (wd_unicode W) (msg_Buffer m) then []
      else map (\<lambda>body. FormatLine (formatTags W (msg_Time m) (msg_ID m) batchRef s) (from_prefix m)
                (if msg_Kind m = MsgNotice then ''NOTICE'' else ''PRIVMSG'')
                [if isChan \<or> msg_Self m then msg_Buffer m else nick_or_star W s, body]) (message_bodies m))"

definition is_chan :: "string \<Rightarrow> bool" where
  "is_chan name \<longleftrightarrow> has_prefix name ''#'' \<or> has_prefix name ''&''"

definition formatSinkMessage :: "world \<Rightarrow> message \<Rightarrow> bsession \<Rightarrow> string list" where
  "formatSinkMessage W m s =
     (let selfNick = nick_or_star W s; isChan = is_chan (msg_Buffer m); prefix = from_prefix m;
          target = (if isChan \<or> msg_Self m then msg_Buffer m else selfNick);
          bodies = (\<lambda>prefix cmd target. map (\<lambda>body. FormatLine (formatTags W (msg_Time m) (msg_ID m) [] s) prefix cmd [target, body]) (message_bodies m)) in
      if msg_Network m \<noteq> bs_networkID s then []
      else if msg_Self m \<and> \<not> isChan \<and> \<not> wantsSelfMessages s then []
      else (case msg_Kind m of
          MsgNotice \<Rightarrow> bodies prefix ''NOTICE'' target
        | MsgAction \<Rightarrow> bodies prefix ''PRIVMSG'' target
        | MsgPrivmsg \<Rightarrow> bodies prefix ''PRIVMSG'' target
        | MsgSystem \<Rightarrow> if IsPluginBuffer (msg_Buffer m) then bodies (stugan_prefix (msg_Buffer m)) ''PRIVMSG'' selfNick
                       else bodies serverName ''NOTICE'' selfNick
        | MsgJoin \<Rightarrow> [FormatLine [] prefix ''JOIN'' [msg_Buffer m]]
        | MsgPart \<Rightarrow> [FormatLine [] prefix ''PART'' [msg_Buffer m, msg_Text m]]
        | MsgQuit \<Rightarrow> [FormatLine [] prefix ''QUIT'' [msg_Text m]]
        | MsgNick \<Rightarrow> [FormatLine [] prefix ''NICK'' [msg_Text m]]
        | MsgTopic \<Rightarrow> [FormatLine [] prefix ''TOPIC'' [msg_Buffer m, msg_Text m]]
        | MsgChghost \<Rightarrow> []
        | MsgSetname \<Rightarrow> []))"

section \<open>The attach burst\<close>

text \<open>\<^verbatim>\<open>Time.Unix\<close> of the zero time is a large negative number.\<close>

definition unix_text :: "int \<Rightarrow> string" where
  "unix_text t = format_int (if t = 0 then - 62135596800 else t div 10 ^ 9)"

definition topic_lines :: "string \<Rightarrow> channel \<Rightarrow> string list" where
  "topic_lines nick ch =
     (if ch_Topic ch \<noteq> [] then
        [FormatLine [] serverName ''332'' [nick, ch_Name ch, ch_Topic ch]]
        @ (if ch_TopicSetter ch \<noteq> []
           then [FormatLine [] serverName ''333'' [nick, ch_Name ch, ch_TopicSetter ch, unix_text (ch_TopicTime ch)]] else [])
      else [])"

definition join_lines :: "world \<Rightarrow> string \<Rightarrow> string \<Rightarrow> channel \<Rightarrow> string list" where
  "join_lines W nick prefix ch =
     (if ch_Kind ch \<noteq> KindChannel then []
      else [FormatLine [] prefix ''JOIN'' [ch_Name ch]] @ topic_lines nick ch
           @ BuildNamesLines nick (ch_Name ch) (map (\<lambda>m. MemberPrefixSymbol (m_Modes m) @ m_Nick m) (wd_members W ch)))"

definition sendJoinBurst :: "world \<Rightarrow> network \<Rightarrow> bsession \<Rightarrow> bsession" where
  "sendJoinBurst W n s =
     (let nick = currentNickOr W ''*'' s; prefix = stugan_prefix (currentNickOr W ''user'' s)
      in fold bs_write (concat (map (join_lines W nick prefix) (buffers n))) s)"

definition playback_lines :: "world \<Rightarrow> (string \<Rightarrow> string \<Rightarrow> int \<Rightarrow> message list option) \<Rightarrow> bsession \<Rightarrow> channel \<Rightarrow> string list" where
  "playback_lines W history s ch =
     (case history (bs_networkID s) (ch_Name ch) (if wd_MaxPlayback W \<le> 0 then defaultMaxPlayback else wd_MaxPlayback W) of
        None \<Rightarrow> []
      | Some msgs \<Rightarrow> concat (map (\<lambda>m. formatPlaybackMessage W m (ch_Kind ch = KindChannel) [] s) msgs))"

definition sendPlayback :: "world \<Rightarrow> network \<Rightarrow> bsession \<Rightarrow> bsession" where
  "sendPlayback W n s =
     (case Option.bind (bs_tenant W s) tn_History of
        None \<Rightarrow> s
      | Some history \<Rightarrow> fold bs_write (concat (map (playback_lines W history s) (buffers n))) s)"

definition welcome_lines :: "string \<Rightarrow> string list" where
  "welcome_lines nick =
     [FormatLine [] serverName ''001'' [nick, '':Welcome to the stugan bouncer, '' @ nick],
      FormatLine [] serverName ''002'' [nick, '':Your host is '' @ serverName @ '', running stugan''],
      FormatLine [] serverName ''003'' [nick, '':This server was created for you''],
      FormatLine [] serverName ''004'' [nick, serverName, ''stugan'', ''o'', ''o'']]"

definition sendAttachBurst :: "world \<Rightarrow> tenant \<Rightarrow> bsession \<Rightarrow> bsession" where
  "sendAttachBurst W t s =
     (let liveNick = currentNick W s;
          requestedNick = (if bs_clientNick s \<noteq> [] then bs_clientNick s else if liveNick \<noteq> [] then liveNick else ''user'');
          s = fold bs_write (welcome_lines requestedNick) s;
          s = (if liveNick \<noteq> [] \<and> liveNick \<noteq> requestedNick
               then bs_write (FormatLine [] (stugan_prefix requestedNick) ''NICK'' ['':'' @ liveNick]) s else s);
          tokens = defaultISupportTokens
            @ (if hasCap_session s ''soju.im/bouncer-networks'' then [''BOUNCER_NETID='' @ bs_networkID s] else [])
            @ (if hasCap_session s ''draft/chathistory'' then [''CHATHISTORY='' @ format_int maxChatHistory_server, ''MSGREFTYPES=timestamp''] else [])
            @ ['':are supported by this server''];
          s = server_line ''422'' [liveNick, '':MOTD File is missing''] (server_line ''005'' (liveNick # tokens) s);
          s = (case SnapshotNetwork (wd_env W) (bs_networkID s) (tn_Engine t) of
                 Some n \<Rightarrow> if n_State n = StateRegistered then sendPlayback W n (sendJoinBurst W n s)
                           else bs_notice W ''Network is currently connecting/disconnected; channels will appear once connected.'' s
               | None \<Rightarrow> bs_notice W ''Network is currently connecting/disconnected; channels will appear once connected.'' s)
      in if hasCap_session s ''soju.im/bouncer-networks-notify'' then sendNetworkList W s else s)"

definition sendControlBurst :: "world \<Rightarrow> bsession \<Rightarrow> bsession" where
  "sendControlBurst W s =
     (let nick = currentNickOr W ''user'' s;
          s = fold bs_write (welcome_lines nick) s;
          s = server_line ''005'' [nick, ''NETWORK=stugan'', ''CASEMAPPING=rfc1459'', '':are supported by this server''] s;
          s = server_line ''422'' [nick, '':MOTD File is missing''] s
      in if hasCap_session s ''soju.im/bouncer-networks-notify'' then sendNetworkList W s else s)"

section \<open>Registration\<close>

definition bindNetwork :: "world \<Rightarrow> string \<Rightarrow> tenant \<Rightarrow> network \<Rightarrow> bsession \<Rightarrow> bsession" where
  "bindNetwork W userID t n s =
     sendAttachBurst W t (bs_call CallAdd
       (noteState (n_ID n) (n_State n) (s\<lparr>bs_userID := userID, bs_networkID := n_ID n, bs_registered := True\<rparr>)))"

definition registerControl :: "world \<Rightarrow> string \<Rightarrow> bsession \<Rightarrow> bsession" where
  "registerControl W userID s =
     sendControlBurst W (bs_call CallAdd (s\<lparr>bs_userID := userID, bs_isControl := True, bs_registered := True\<rparr>))"

definition available :: "network list \<Rightarrow> string" where
  "available nets = join_with (map n_Name nets) '', ''"

definition completeAttach :: "world \<Rightarrow> string \<Rightarrow> string \<Rightarrow> bsession \<Rightarrow> bsession" where
  "completeAttach W userID networkSel s =
     (case hb_Tenant (wd_hub W) userID of
        None \<Rightarrow> failRegistration W ''User account not found'' s
      | Some t \<Rightarrow>
          if \<not> BouncerAllowed t then
            failRegistration W (''IRC client access is disabled for this account '' @ [CHR 0xE2, CHR 0x80, CHR 0x94] @ '' enable it in the web UI under Settings'') s
          else if bs_boundNetID s = [] \<and> networkSel = [] \<and> hasCap_session s ''soju.im/bouncer-networks'' then registerControl W userID s
          else (let nets = Snapshot (wd_env W) (tn_Engine t); lower = u_lower (wd_unicode W) in
                if nets = [] then failRegistration W (''No IRC networks configured '' @ [CHR 0xE2, CHR 0x80, CHR 0x94] @ '' add one in the web UI first'') s
                else if bs_boundNetID s \<noteq> [] then
                  (case find (\<lambda>n. n_ID n = bs_boundNetID s \<or> n_Name n = bs_boundNetID s) nets of
                     Some n \<Rightarrow> bindNetwork W userID t n s
                   | None \<Rightarrow> closeWithError ''Unknown network ID''
                       (server_line ''FAIL'' [''BOUNCER'', ''INVALID_NETID'', bs_boundNetID s, '':Unknown network ID''] s))
                else if networkSel \<noteq> [] then
                  (case find (\<lambda>n. lower (n_Name n) = lower networkSel \<or> lower (n_ID n) = lower networkSel) nets of
                     Some n \<Rightarrow> bindNetwork W userID t n s
                   | None \<Rightarrow> failRegistration W (''Unknown network '' @ [CHR 0x27] @ networkSel @ [CHR 0x27, CHR '' '', CHR 0xE2, CHR 0x80, CHR 0x94]
                       @ '' available: '' @ available nets) s)
                else (case nets of
                    [n] \<Rightarrow> bindNetwork W userID t n s
                  | _ \<Rightarrow> failRegistration W (''Multiple networks '' @ [CHR 0xE2, CHR 0x80, CHR 0x94] @ '' log in as '' @ userID
                      @ ''/<network>. Available: '' @ available nets) s)))"

definition authenticate :: "world \<Rightarrow> bsession \<Rightarrow> bsession" where
  "authenticate W s =
     (let user_net = (if bs_clientUser s \<noteq> [] then pl_Network (UnmarshalLogin (bs_clientUser s)) else []) in
      if bs_saslUser s \<noteq> [] then
        completeAttach W (bs_saslUser s) (if bs_saslNetwork s = [] then user_net else bs_saslNetwork s) s
      else if \<not> hb_AuthEnabled (wd_hub W) then
        (let (netSel, secret) = (if bs_passRaw s \<noteq> []
               then (case ParseCredentials (bs_passRaw s) (bs_clientUser s) of Some c \<Rightarrow> (pc_Network c, pc_Secret c) | None \<Rightarrow> ([], []))
               else (user_net, [])) in
         if \<not> singleUserAuthorized W secret s then
           failRegistration W (if wd_PasswordHash W = []
             then ''No password is set, so only connections from this machine are accepted. Set STUGAN_WEB_PASSWORD (or configure [[users]]) to allow remote IRC clients''
             else ''Invalid password: use the web password as the server password or SASL password'') (bs_call CallPause s)
         else completeAttach W (singleUserID (wd_hub W)) netSel s)
      else if bs_passRaw s = [] then failRegistration W ''Password required: PASS <username>[/<network>]:<password>'' s
      else (case ParseCredentials (bs_passRaw s) (bs_clientUser s) of
          None \<Rightarrow> failRegistration W ''Invalid credentials format: PASS <username>[/<network>]:<password>'' s
        | Some c \<Rightarrow>
            if pc_Username c = [] then failRegistration W ''Invalid credentials format: PASS <username>[/<network>]:<password>'' s
            else (case hb_Login (wd_hub W) (pc_Username c) (pc_Secret c) of
                None \<Rightarrow> failRegistration W ''Invalid username or password'' (bs_call CallPause s)
              | Some userID \<Rightarrow> completeAttach W userID (pc_Network c) s)))"

definition maybeFinishRegistration :: "world \<Rightarrow> bsession \<Rightarrow> bsession" where
  "maybeFinishRegistration W s =
     (if bs_registered s \<or> bs_closed s \<or> bs_clientNick s = [] \<or> bs_clientUser s = [] \<or> bs_capNegotiating s then s else authenticate W s)"

definition handlePreRegistration :: "world \<Rightarrow> client_message \<Rightarrow> bsession \<Rightarrow> bsession" where
  "handlePreRegistration W m s =
     (let cmd = cm_Command m; given = cm_Params m \<noteq> [] in
      if cmd = ''QUIT'' then bs_destroy s
      else maybeFinishRegistration W
        (if cmd = ''CAP'' then handleCap W m s
         else if cmd = ''PASS'' then (if given then s\<lparr>bs_passRaw := arg_at m 0\<rparr> else s)
         else if cmd = ''NICK'' then (if given then s\<lparr>bs_clientNick := CleanNick (wd_unicode W) (arg_at m 0)\<rparr> else s)
         else if cmd = ''USER'' then
           (let s = (if given then s\<lparr>bs_clientUser := arg_at m 0\<rparr> else s)
            in if 3 < length (cm_Params m) then s\<lparr>bs_clientRealname := arg_at m 3\<rparr> else s)
         else if cmd = ''AUTHENTICATE'' then handleSasl W m s
         else if cmd = ''BOUNCER'' then handleBouncerPreReg W m s
         else if cmd = ''PING'' then server_line ''PONG'' [serverName, if given then arg_at m 0 else serverName] s
         else bs_numeric W ''451'' ['':You have not registered''] s))"

end
