(* ===== verification/Bouncer_Inbound.thy ===== *)
theory Bouncer_Inbound
  imports Bouncer_Session
begin

text \<open>
  Model of what a registered client may do (\<^verbatim>\<open>internal/ircserver/inbound.go\<close>), of the echoes a session waits for
  and its heartbeat (\<^verbatim>\<open>session.go\<close>), and of one turn of \<^verbatim>\<open>serve\<close>.
\<close>

section \<open>Echoes\<close>

definition kind_word :: "msgKind \<Rightarrow> string" where
  "kind_word k = (case k of MsgPrivmsg \<Rightarrow> ''privmsg'' | MsgNotice \<Rightarrow> ''notice'' | MsgAction \<Rightarrow> ''action'' | MsgJoin \<Rightarrow> ''join''
     | MsgPart \<Rightarrow> ''part'' | MsgQuit \<Rightarrow> ''quit'' | MsgNick \<Rightarrow> ''nick'' | MsgChghost \<Rightarrow> ''chghost'' | MsgSetname \<Rightarrow> ''setname''
     | MsgTopic \<Rightarrow> ''topic'' | MsgSystem \<Rightarrow> ''system'')"

definition echo_key :: "msgKind \<Rightarrow> string \<Rightarrow> string \<Rightarrow> string" where
  "echo_key kind target text = kind_word kind @ [CHR 0x00] @ FoldIRC target @ [CHR 0x00] @ text"

definition registerEcho :: "world \<Rightarrow> msgKind \<Rightarrow> string \<Rightarrow> string \<Rightarrow> bsession \<Rightarrow> bsession" where
  "registerEcho W kind target text s =
     (let active = filter (\<lambda>e. wd_now W - 30 * 10 ^ 9 < snd e) (bs_pendingEcho s) @ [(echo_key kind target text, wd_now W)]
      in s\<lparr>bs_pendingEcho := drop (length active - 200) active\<rparr>)"

text \<open>Removes the first entry with the key.\<close>

fun consume_echo :: "string \<Rightarrow> (string \<times> int) list \<Rightarrow> bool \<times> (string \<times> int) list" where
  "consume_echo key [] = (False, [])"
| "consume_echo key (e # es) =
     (if fst e = key then (True, es) else (let (found, es) = consume_echo key es in (found, e # es)))"

definition isOwnEcho :: "msgKind \<Rightarrow> string \<Rightarrow> string \<Rightarrow> bsession \<Rightarrow> bool \<times> bsession" where
  "isOwnEcho kind target text s =
     (let (found, es) = consume_echo (echo_key kind target text) (bs_pendingEcho s) in (found, s\<lparr>bs_pendingEcho := es\<rparr>))"

section \<open>Messages from the client\<close>

definition input_to :: "string \<Rightarrow> string \<Rightarrow> bsession \<Rightarrow> bsession" where
  "input_to buffer text s = bs_call (CallInput (bs_networkID s) buffer text) s"

definition ctcp :: char where "ctcp = CHR 0x01"

definition action_body :: "string \<Rightarrow> string option" where
  "action_body text =
     (if has_prefix text (ctcp # ''ACTION '') \<and> has_suffix text [ctcp]
      then (let body = drop 8 text in Some (if has_suffix body [ctcp] then butlast body else body)) else None)"

definition send_to :: "world \<Rightarrow> string \<Rightarrow> string \<Rightarrow> string \<Rightarrow> bsession \<Rightarrow> bsession" where
  "send_to W cmd text target s =
     (let target = trim_space target in
      if target = [] then s
      else (case action_body text of
          Some body \<Rightarrow> input_to target (''/me '' @ body) (registerEcho W MsgAction target body s)
        | None \<Rightarrow>
            if cmd = ''NOTICE'' then input_to target (''/notice '' @ target @ '' '' @ text) (registerEcho W MsgNotice target text s)
            else input_to target text (registerEcho W MsgPrivmsg target text s)))"

definition handleClientMessage :: "world \<Rightarrow> client_message \<Rightarrow> bsession \<Rightarrow> bsession" where
  "handleClientMessage W m s =
     (if arg_at m 0 = [] then bs_numeric W ''411'' ['':No recipient given ('' @ cm_Command m @ '')''] s
      else if arg_at m 1 = [] then bs_numeric W ''412'' ['':No text to send''] s
      else fold (send_to W (cm_Command m) (arg_at m 1)) (split_on (arg_at m 0) CHR '','') s)"

section \<open>Other commands\<close>

definition join_channel :: "string list \<Rightarrow> nat \<times> string \<Rightarrow> bsession \<Rightarrow> bsession" where
  "join_channel keys ic s =
     (let ch = trim_space (snd ic); key = (if fst ic < length keys then trim_space (keys ! fst ic) else [])
      in if ch = [] then s else input_to StatusBuffer (''/join '' @ ch @ (if key \<noteq> [] then '' '' @ key else [])) s)"

definition client_join :: "world \<Rightarrow> client_message \<Rightarrow> bsession \<Rightarrow> bsession" where
  "client_join W m s =
     (if cm_Params m = [] then bs_numeric W ''461'' [''JOIN :Not enough parameters''] s
      else if arg_at m 0 = ''0'' then input_to StatusBuffer ''/quote JOIN 0'' s
      else fold (join_channel (if 1 < length (cm_Params m) then split_on (arg_at m 1) CHR '','' else []))
             (enumerate 0 (split_on (arg_at m 0) CHR '','')) s)"

definition part_channel :: "string \<Rightarrow> string \<Rightarrow> bsession \<Rightarrow> bsession" where
  "part_channel reason ch s =
     (let ch = trim_space ch
      in if ch = [] then s else input_to StatusBuffer (''/part '' @ ch @ (if reason \<noteq> [] then '' '' @ reason else [])) s)"

definition client_part :: "world \<Rightarrow> client_message \<Rightarrow> bsession \<Rightarrow> bsession" where
  "client_part W m s =
     (if cm_Params m = [] then bs_numeric W ''461'' [''PART :Not enough parameters''] s
      else fold (part_channel (arg_at m 1)) (split_on (arg_at m 0) CHR '','') s)"

definition client_topic :: "world \<Rightarrow> client_message \<Rightarrow> bsession \<Rightarrow> bsession" where
  "client_topic W m s =
     (if cm_Params m = [] then bs_numeric W ''461'' [''TOPIC :Not enough parameters''] s
      else if 1 < length (cm_Params m) then input_to (arg_at m 0) (''/topic '' @ arg_at m 1) s
      else (case Option.bind (bs_tenant W s) (\<lambda>t. SnapshotNetwork (wd_env W) (bs_networkID s) (tn_Engine t)) of
          None \<Rightarrow> s
        | Some n \<Rightarrow>
            (case find (\<lambda>ch. EqualIRC (ch_Name ch) (arg_at m 0)) (buffers n) of
               None \<Rightarrow> s
             | Some ch \<Rightarrow>
                 (let nick = currentNickOr W ''*'' s
                  in if ch_Topic ch \<noteq> [] then fold bs_write (topic_lines nick ch) s
                     else server_line ''331'' [nick, ch_Name ch, '':No topic is set''] s))))"

definition quote_line :: "client_message \<Rightarrow> string" where
  "quote_line m = ''/quote '' @ cm_Command m
     @ concat (map (\<lambda>p. '' '' @ (if CHR '' '' \<in> set p \<or> has_prefix p '':'' then '':'' else []) @ p) (cm_Params m))"

definition handleBouncer :: "world \<Rightarrow> client_message \<Rightarrow> bsession \<Rightarrow> bsession" where
  "handleBouncer W m s =
     (let sub = u_upper (wd_unicode W) (arg_at m 0) in
      if \<not> hasCap_session s ''soju.im/bouncer-networks''
      then server_line ''FAIL'' [''BOUNCER'', ''UNKNOWN_COMMAND'', '':Negotiate soju.im/bouncer-networks capability first''] s
      else if sub = ''LISTNETWORKS'' then sendNetworkList W s
      else if sub = ''BIND'' then
        server_line ''FAIL'' [''BOUNCER'', ''REGISTRATION_IS_COMPLETED'', ''BIND'', '':Cannot bind to a network after registration''] s
      else if sub \<in> {''ADDNETWORK'', ''CHANGENETWORK'', ''DELNETWORK''} then
        server_line ''FAIL'' [''BOUNCER'', ''UNKNOWN_COMMAND'', sub, '':Manage networks in the stugan web UI''] s
      else server_line ''FAIL'' [''BOUNCER'', ''UNKNOWN_COMMAND'', sub, '':Unknown subcommand''] s)"

section \<open>History\<close>

definition history_targets :: "world \<Rightarrow> tenant \<Rightarrow> bsession \<Rightarrow> bsession" where
  "history_targets W t s =
     withBatch ''draft/chathistory-targets'' [] (\<lambda>ref s.
       case SnapshotNetwork (wd_env W) (bs_networkID s) (tn_Engine t) of
         None \<Rightarrow> s
       | Some n \<Rightarrow> fold (\<lambda>ch. bs_write (FormatLine (batch_tag ref) serverName ''CHATHISTORY''
             [''TARGETS'', ch_Name ch, FormatIrcTime (wd_now W) (wd_now W)])) (buffers n) s) s"

definition history_request_limit :: "string \<Rightarrow> int option" where
  "history_request_limit p =
     (if p = [] then Some defaultMaxPlayback
      else (case atoi p of Some n \<Rightarrow> if n < 0 \<or> maxChatHistory_server < n then None else Some n | None \<Rightarrow> None))"

definition history_fail :: "string list \<Rightarrow> bsession \<Rightarrow> bsession" where
  "history_fail ps s = server_line ''FAIL'' (''CHATHISTORY'' # ps) s"

definition send_history :: "world \<Rightarrow> string \<Rightarrow> message list \<Rightarrow> bsession \<Rightarrow> bsession" where
  "send_history W target msgs s =
     withBatch ''chathistory'' [target] (\<lambda>ref s.
       fold bs_write (concat (map (\<lambda>m. formatPlaybackMessage W m (is_chan target) ref s) msgs)) s) s"

definition handleChatHistory :: "world \<Rightarrow> client_message \<Rightarrow> bsession \<Rightarrow> bsession" where
  "handleChatHistory W m s =
     (let sub = u_upper (wd_unicode W) (arg_at m 0); lp = arg_at m (if sub = ''BETWEEN'' then 4 else 3) in
      case bs_tenant W s of
        None \<Rightarrow> history_fail [''INVALID_TARGET'', ''*'', '':Cannot fetch chat history on this connection''] s
      | Some t \<Rightarrow>
          (case tn_History t of
             None \<Rightarrow> history_fail [''INVALID_TARGET'', ''*'', '':Cannot fetch chat history on this connection''] s
           | Some history \<Rightarrow>
               if bs_isControl s \<or> bs_networkID s = [] then
                 history_fail [''INVALID_TARGET'', ''*'', '':Cannot fetch chat history on this connection''] s
               else if cm_Params m = [] then bs_numeric W ''461'' [''CHATHISTORY :Not enough parameters''] s
               else if sub = ''TARGETS'' then history_targets W t s
               else if sub \<notin> {''LATEST'', ''BEFORE'', ''AFTER'', ''AROUND'', ''BETWEEN''} then
                 history_fail [''INVALID_PARAMS'', sub, '':Unknown subcommand''] s
               else if arg_at m 1 = [] then bs_numeric W ''461'' [''CHATHISTORY :Not enough parameters''] s
               else (case history_request_limit lp of
                   None \<Rightarrow> history_fail [''INVALID_PARAMS'', sub, lp, '':Invalid limit''] s
                 | Some limit \<Rightarrow>
                     (case history (bs_networkID s) (arg_at m 1) limit of
                        None \<Rightarrow> history_fail [''INTERNAL_ERROR'', sub, '':Failed to query history''] s
                      | Some msgs \<Rightarrow> send_history W (arg_at m 1) msgs s))))"

text \<open>The three layouts are tried in turn; a time that fits none is the present.\<close>

definition parse_marker :: "world \<Rightarrow> string \<Rightarrow> int" where
  "parse_marker W raw =
     (case (wd_parse_time W 0 raw, wd_parse_time W 1 raw, wd_parse_time W 2 raw) of
        (Some t, _, _) \<Rightarrow> t | (None, Some t, _) \<Rightarrow> t | (None, None, Some t) \<Rightarrow> t | _ \<Rightarrow> wd_now W)"

definition handleMarkRead :: "world \<Rightarrow> client_message \<Rightarrow> bsession \<Rightarrow> bsession" where
  "handleMarkRead W m s =
     (if bs_isControl s \<or> bs_networkID s = [] \<or> bs_tenant W s = None then s
      else if arg_at m 0 = [] then bs_numeric W ''461'' [''MARKREAD :Not enough parameters''] s
      else (let p = arg_at m 1;
                ts = (if length (cm_Params m) \<le> 1 then wd_now W
                      else if has_prefix (u_lower (wd_unicode W) p) ''timestamp='' then parse_marker W (drop 10 p)
                      else if p \<noteq> ''*'' then parse_marker W p else wd_now W)
            in bs_call (CallMarkRead (bs_networkID s) (arg_at m 0) ts) s))"

section \<open>Commands\<close>

definition handleCommand :: "world \<Rightarrow> client_message \<Rightarrow> bsession \<Rightarrow> bsession" where
  "handleCommand W m s =
     (let cmd = cm_Command m; a = arg_at m 0 in
      if cmd = ''PING'' then server_line ''PONG'' [serverName, if a \<noteq> [] then a else serverName] s
      else if cmd = ''PONG'' then s
      else if cmd = ''QUIT'' then bs_destroy s
      else if cmd = ''CAP'' then handleCap W m s
      else if cmd = ''USER'' then bs_numeric W ''462'' ['':You may not reregister''] s
      else if cmd = ''AUTHENTICATE'' then server_line ''904'' [currentNickOr W ''*'' s, '':Already authenticated''] s
      else if cmd = ''BOUNCER'' then handleBouncer W m s
      else if cmd = ''CHATHISTORY'' then handleChatHistory W m s
      else if cmd = ''MARKREAD'' then handleMarkRead W m s
      else if bs_isControl s then bs_notice W (''Cannot interact with channels and users on a bouncer control connection ''
             @ [CHR 0xE2, CHR 0x80, CHR 0x94] @ '' bind a network.'') s
      else if bs_tenant W s = None then bs_notice W ''Engine is unavailable.'' s
      else if cmd = ''PRIVMSG'' \<or> cmd = ''NOTICE'' then handleClientMessage W m s
      else if cmd = ''JOIN'' then client_join W m s
      else if cmd = ''PART'' then client_part W m s
      else if cmd = ''TOPIC'' then client_topic W m s
      else if cmd = ''AWAY'' then input_to StatusBuffer (if trim_space a = [] then ''/away'' else ''/away '' @ a) s
      else if cmd = ''NICK'' then (if a = [] then bs_numeric W ''431'' ['':No nickname given''] s else input_to StatusBuffer (''/nick '' @ a) s)
      else if cmd = ''LIST'' then bs_call (CallList (bs_networkID s) a) s
      else if cmd \<in> {''WHOIS'', ''WHO'', ''MODE'', ''KICK'', ''INVITE''} then
        input_to (if is_chan a then a else StatusBuffer) (quote_line m) s
      else input_to StatusBuffer (quote_line m) s)"

text \<open>One line read by \<^verbatim>\<open>serve\<close>.\<close>

definition serve_line :: "world \<Rightarrow> string \<Rightarrow> bsession \<Rightarrow> bsession" where
  "serve_line W raw s =
     (let s = s\<lparr>bs_lastActivity := wd_now W div 10 ^ 9\<rparr> in
      case ParseLine (wd_unicode W) raw of
        None \<Rightarrow> s
      | Some m \<Rightarrow> if bs_registered s then handleCommand W m s else handlePreRegistration W m s)"

section \<open>Heartbeat and output\<close>

definition heartbeatPingAfter :: int where "heartbeatPingAfter = 90 * 10 ^ 9"
definition heartbeatReapAfter :: int where "heartbeatReapAfter = 240 * 10 ^ 9"

definition heartbeat :: "int \<Rightarrow> bsession \<Rightarrow> bsession" where
  "heartbeat now s =
     (let idle = now - bs_lastActivity s * 10 ^ 9 in
      if bs_closed s then s
      else if heartbeatReapAfter < idle then closeWithError ''Ping timeout'' s
      else if heartbeatPingAfter < idle then bs_push (''PING :'' @ serverName) s
      else s)"

text \<open>
  One turn of \<^verbatim>\<open>writeLoop\<close>: the bytes of one write and the queue after it. A live session coalesces lines until 64
  KiB are gathered; a closed one flushes everything and ends.
\<close>

fun gather :: "nat \<Rightarrow> string list \<Rightarrow> string \<times> string list" where
  "gather used [] = ([], [])"
| "gather used (l # ls) =
     (if used < 64 * 1024 then (let (buf, rest) = gather (used + length l) ls in (l @ buf, rest)) else ([], l # ls))"

definition write_turn :: "bsession \<Rightarrow> string \<times> bsession" where
  "write_turn s =
     (if bs_closed s then (concat (bs_out s), s\<lparr>bs_out := []\<rparr>)
      else (let (buf, rest) = gather 0 (bs_out s) in (buf, s\<lparr>bs_out := rest\<rparr>)))"

end
