(* ===== verification/Bouncer_Server.thy ===== *)
theory Bouncer_Server
  imports Bouncer_Inbound
begin

text \<open>
  Model of the IRC server (\<^verbatim>\<open>internal/ircserver/server.go\<close>, the sink of \<^verbatim>\<open>sink.go\<close>): its sessions, the registry that
  finds them by user and by network, the fan-out of committed events, the heartbeat and the shutdown.
  Sessions have numbers, and the sets of the registry are lists in the order a Go map would be visited.
  A handler of a session runs as one step; what it asks for is carried out at its end.
\<close>

record bserver =
  sv_sessions :: "nat \<rightharpoonup> bsession"
  sv_all :: "nat list"
  sv_byUser :: "string \<Rightarrow> nat list"
  sv_byUserNet :: "string \<Rightarrow> nat list"

definition newBouncer :: bserver where
  "newBouncer = \<lparr>sv_sessions = Map.empty, sv_all = [], sv_byUser = (\<lambda>u. []), sv_byUserNet = (\<lambda>k. [])\<rparr>"

section \<open>Registry\<close>

definition reg_key :: "string \<Rightarrow> string \<Rightarrow> string" where
  "reg_key userID networkID = userID @ '':'' @ networkID"

definition put :: "nat \<Rightarrow> nat list \<Rightarrow> nat list" where
  "put i xs = (if i \<in> set xs then xs else xs @ [i])"

definition reg_add :: "nat \<Rightarrow> bsession \<Rightarrow> bserver \<Rightarrow> bserver" where
  "reg_add i s sv =
     (let sv = sv\<lparr>sv_all := put i (sv_all sv)\<rparr>; u = bs_userID s; k = reg_key u (bs_networkID s) in
      if u = [] then sv
      else (let sv = sv\<lparr>sv_byUser := (sv_byUser sv)(u := put i (sv_byUser sv u))\<rparr>
            in if bs_networkID s = [] then sv else sv\<lparr>sv_byUserNet := (sv_byUserNet sv)(k := put i (sv_byUserNet sv k))\<rparr>))"

definition reg_remove :: "nat \<Rightarrow> bsession \<Rightarrow> bserver \<Rightarrow> bserver" where
  "reg_remove i s sv =
     (let sv = sv\<lparr>sv_all := removeAll i (sv_all sv)\<rparr>; u = bs_userID s; k = reg_key u (bs_networkID s) in
      if u = [] then sv
      else (let sv = sv\<lparr>sv_byUser := (sv_byUser sv)(u := removeAll i (sv_byUser sv u))\<rparr>
            in if bs_networkID s = [] then sv else sv\<lparr>sv_byUserNet := (sv_byUserNet sv)(k := removeAll i (sv_byUserNet sv k))\<rparr>))"

definition sessionsFor :: "string \<Rightarrow> string \<Rightarrow> bserver \<Rightarrow> nat list" where
  "sessionsFor userID networkID sv = sv_byUserNet sv (reg_key userID networkID)"

definition allForUser :: "string \<Rightarrow> bserver \<Rightarrow> nat list" where
  "allForUser userID sv = sv_byUser sv userID"

section \<open>Steps of a session\<close>

definition reg_call :: "nat \<Rightarrow> bsession \<Rightarrow> bouncer_call \<Rightarrow> bserver \<Rightarrow> bserver" where
  "reg_call i s c sv = (case c of CallAdd \<Rightarrow> reg_add i s sv | CallRemove \<Rightarrow> reg_remove i s sv | _ \<Rightarrow> sv)"

definition engine_call :: "bouncer_call \<Rightarrow> bool" where
  "engine_call c = (case c of CallInput _ _ _ \<Rightarrow> True | CallList _ _ \<Rightarrow> True | CallMarkRead _ _ _ \<Rightarrow> True | _ \<Rightarrow> False)"

text \<open>Runs a step of session \<open>i\<close>; what it asks of its engine comes out with the user whose engine it is.\<close>

definition session_step :: "nat \<Rightarrow> (bsession \<Rightarrow> bsession) \<Rightarrow> bserver \<Rightarrow> bserver \<times> (string \<times> bouncer_call) list" where
  "session_step i f sv =
     (case sv_sessions sv i of
        None \<Rightarrow> (sv, [])
      | Some s \<Rightarrow>
          (let s = f s; calls = bs_calls s; s = s\<lparr>bs_calls := []\<rparr>
           in (fold (reg_call i s) calls (sv\<lparr>sv_sessions := (sv_sessions sv)(i \<mapsto> s)\<rparr>),
               map (\<lambda>c. (bs_userID s, c)) (filter engine_call calls))))"

text \<open>A step that asks nothing of an engine, for several sessions.\<close>

definition on_sessions :: "nat list \<Rightarrow> (bsession \<Rightarrow> bsession) \<Rightarrow> bserver \<Rightarrow> bserver" where
  "on_sessions is f sv = fold (\<lambda>i sv. fst (session_step i f sv)) is sv"

definition DisconnectUser :: "string \<Rightarrow> string \<Rightarrow> bserver \<Rightarrow> bserver" where
  "DisconnectUser userID reason sv = on_sessions (allForUser userID sv) (closeWithError reason) sv"

definition accept_client :: "nat \<Rightarrow> string \<Rightarrow> int \<Rightarrow> bserver \<Rightarrow> bserver" where
  "accept_client i remote now sv = sv\<lparr>sv_sessions := (sv_sessions sv)(i \<mapsto> newSession remote now)\<rparr>"

definition heartbeat_tick :: "int \<Rightarrow> bserver \<Rightarrow> bserver" where
  "heartbeat_tick now sv = on_sessions (sv_all sv) (heartbeat now) sv"

definition bouncer_shutdown :: "bserver \<Rightarrow> bserver" where
  "bouncer_shutdown sv = on_sessions (sv_all sv) bs_destroy sv"

text \<open>The timer of a session that has not registered in time.\<close>

definition registration_timeout :: "bsession \<Rightarrow> bsession" where
  "registration_timeout s = (if bs_registered s \<or> bs_closed s then s else closeWithError ''Registration timeout'' s)"

section \<open>Fan-out\<close>

definition live :: "bsession \<Rightarrow> bool" where
  "live s \<longleftrightarrow> bs_registered s \<and> \<not> bs_closed s"

definition print_one :: "world \<Rightarrow> message \<Rightarrow> bsession \<Rightarrow> bsession" where
  "print_one W m s =
     (if \<not> live s then s
      else (let (own, s) = (if msg_Self m then isOwnEcho (msg_Kind m) (msg_Buffer m) (msg_Text m) s else (False, s))
            in if own \<and> \<not> hasCap_session s ''echo-message'' then s
               else fold bs_push (formatSinkMessage W m s) s))"

definition broadcastPrint :: "world \<Rightarrow> string \<Rightarrow> message \<Rightarrow> bserver \<Rightarrow> bserver" where
  "broadcastPrint W userID m sv = on_sessions (sessionsFor userID (msg_Network m) sv) (print_one W m) sv"

definition push_line :: "string \<Rightarrow> string list \<Rightarrow> bsession \<Rightarrow> bsession" where
  "push_line cmd params s = bs_push (FormatLine [] serverName cmd params) s"

definition network_changed_one :: "world \<Rightarrow> network \<Rightarrow> bsession \<Rightarrow> bsession" where
  "network_changed_one W n s =
     (if \<not> live s then s
      else (let (changed, s) = stateChanged (n_ID n) (n_State n) s in
            if \<not> changed then s
            else (let s = (if hasCap_session s ''soju.im/bouncer-networks-notify''
                       then push_line ''BOUNCER'' [''NETWORK'', n_ID n,
                              if n_State n = StateRegistered then ''state=connected;error='' else ''state='' @ state_word (n_State n)] s
                       else s);
                      nick = currentNickOr W ''*'' s in
                  if bs_networkID s \<noteq> n_ID n then s
                  else if n_State n = StateRegistered
                  then push_line ''NOTICE'' [nick, '':Network '' @ [CHR 0x27] @ n_Name n @ [CHR 0x27] @ '' is now connected.''] s
                  else if n_State n = StateDisconnected
                  then push_line ''NOTICE'' [nick, '':Network '' @ [CHR 0x27] @ n_Name n @ [CHR 0x27] @ '' is disconnected ''
                         @ [CHR 0xE2, CHR 0x80, CHR 0x94] @ '' will keep retrying.''] s
                  else s)))"

definition broadcastNetworkChanged :: "world \<Rightarrow> string \<Rightarrow> network \<Rightarrow> bserver \<Rightarrow> bserver" where
  "broadcastNetworkChanged W userID n sv = on_sessions (allForUser userID sv) (network_changed_one W n) sv"

definition broadcastNetworkRemoved :: "string \<Rightarrow> string \<Rightarrow> bserver \<Rightarrow> bserver" where
  "broadcastNetworkRemoved userID networkID sv = on_sessions (sessionsFor userID networkID sv) (closeWithError ''Network removed'') sv"

definition channel_list_one :: "world \<Rightarrow> (string \<times> int \<times> string) list \<Rightarrow> bsession \<Rightarrow> bsession" where
  "channel_list_one W items s =
     (if \<not> live s then s
      else (let nick = currentNickOr W ''*'' s
            in push_line ''323'' [nick, '':End of /LIST'']
                 (fold (\<lambda>(name, users, topic). push_line ''322'' [nick, name, format_int users, '':'' @ topic]) items
                    (push_line ''321'' [nick, ''Channel'', '':Users  Name''] s))))"

definition broadcastChannelList :: "world \<Rightarrow> string \<Rightarrow> string \<Rightarrow> (string \<times> int \<times> string) list \<Rightarrow> bserver \<Rightarrow> bserver" where
  "broadcastChannelList W userID net items sv = on_sessions (sessionsFor userID net sv) (channel_list_one W items) sv"

definition tagmsg_one :: "string \<Rightarrow> string \<Rightarrow> string \<Rightarrow> bsession \<Rightarrow> bsession" where
  "tagmsg_one tags nick buffer s =
     (if \<not> live s \<or> \<not> hasCap_session s ''message-tags'' then s
      else bs_push (FormatLine tags (stugan_prefix nick) ''TAGMSG'' [buffer]) s)"

definition broadcastTyping :: "string \<Rightarrow> string \<Rightarrow> string \<Rightarrow> string \<Rightarrow> string \<Rightarrow> bserver \<Rightarrow> bserver" where
  "broadcastTyping userID net buffer nick st sv = on_sessions (sessionsFor userID net sv) (tagmsg_one (''+typing='' @ st) nick buffer) sv"

definition broadcastReact :: "string \<Rightarrow> string \<Rightarrow> string \<Rightarrow> string \<Rightarrow> string \<Rightarrow> string \<Rightarrow> bserver \<Rightarrow> bserver" where
  "broadcastReact userID net buffer target nick reaction sv = on_sessions (sessionsFor userID net sv)
     (tagmsg_one (''+draft/react='' @ EscapeTagValue reaction @ '';+draft/reply='' @ target) nick buffer) sv"

definition broadcastRedact :: "string \<Rightarrow> string \<Rightarrow> string \<Rightarrow> string \<Rightarrow> string \<Rightarrow> bserver \<Rightarrow> bserver" where
  "broadcastRedact userID net buffer target nick sv = on_sessions (sessionsFor userID net sv) (tagmsg_one (''+draft/delete='' @ target) nick buffer) sv"

definition read_marker_one :: "world \<Rightarrow> string \<Rightarrow> int \<Rightarrow> bsession \<Rightarrow> bsession" where
  "read_marker_one W buffer ts s =
     (if \<not> live s \<or> (\<not> hasCap_session s ''draft/read-marker'' \<and> \<not> hasCap_session s ''read-marker'') then s
      else push_line ''MARKREAD'' [buffer, ''timestamp='' @ FormatIrcTime (wd_now W) ts] s)"

definition broadcastReadMarker :: "world \<Rightarrow> string \<Rightarrow> string \<Rightarrow> string \<Rightarrow> int \<Rightarrow> bserver \<Rightarrow> bserver" where
  "broadcastReadMarker W userID net buffer ts sv = on_sessions (sessionsFor userID net sv) (read_marker_one W buffer ts) sv"

section \<open>Runs of the server\<close>

inductive bouncer_reach :: "bserver \<Rightarrow> bool" where
  bouncer_start: "bouncer_reach newBouncer"
| bouncer_accept: "bouncer_reach sv \<Longrightarrow> sv_sessions sv i = None \<Longrightarrow> bouncer_reach (accept_client i remote now sv)"
| bouncer_line: "bouncer_reach sv \<Longrightarrow> bouncer_reach (fst (session_step i (serve_line W raw) sv))"
| bouncer_write: "bouncer_reach sv \<Longrightarrow> bouncer_reach (fst (session_step i (\<lambda>s. snd (write_turn s)) sv))"
| bouncer_lost: "bouncer_reach sv \<Longrightarrow> bouncer_reach (fst (session_step i bs_destroy sv))"
| bouncer_timeout: "bouncer_reach sv \<Longrightarrow> bouncer_reach (fst (session_step i registration_timeout sv))"
| bouncer_tick: "bouncer_reach sv \<Longrightarrow> bouncer_reach (heartbeat_tick now sv)"
| bouncer_stop: "bouncer_reach sv \<Longrightarrow> bouncer_reach (bouncer_shutdown sv)"
| bouncer_kick: "bouncer_reach sv \<Longrightarrow> bouncer_reach (DisconnectUser u reason sv)"
| bouncer_print: "bouncer_reach sv \<Longrightarrow> bouncer_reach (broadcastPrint W u m sv)"
| bouncer_changed: "bouncer_reach sv \<Longrightarrow> bouncer_reach (broadcastNetworkChanged W u n sv)"
| bouncer_removed: "bouncer_reach sv \<Longrightarrow> bouncer_reach (broadcastNetworkRemoved u net sv)"
| bouncer_list: "bouncer_reach sv \<Longrightarrow> bouncer_reach (broadcastChannelList W u net items sv)"
| bouncer_typing: "bouncer_reach sv \<Longrightarrow> bouncer_reach (broadcastTyping u net buffer nick st sv)"
| bouncer_react: "bouncer_reach sv \<Longrightarrow> bouncer_reach (broadcastReact u net buffer target nick reaction sv)"
| bouncer_redact: "bouncer_reach sv \<Longrightarrow> bouncer_reach (broadcastRedact u net buffer target nick sv)"
| bouncer_marker: "bouncer_reach sv \<Longrightarrow> bouncer_reach (broadcastReadMarker W u net buffer ts sv)"

end
