(* ===== verification/Bouncer_Facts.thy ===== *)
theory Bouncer_Facts
  imports Bouncer_Server
begin

text \<open>
  Invariants of a session that every operation keeps, proved once for writing and lifted to the handlers: the
  lines queued for a client are whole lines, and the identity of a session (the account and network it is
  attached to, whether it is registered, and the registry calls it has made) changes only at registration
  and at its end.
\<close>

section \<open>Whole lines\<close>

definition whole_line :: "string \<Rightarrow> bool" where
  "whole_line l \<longleftrightarrow> (\<exists>body. l = body @ [CHR 0x0D, CHR 0x0A] \<and> CHR 0x0D \<notin> set body \<and> CHR 0x0A \<notin> set body \<and> CHR 0x00 \<notin> set body)"

lemma sanitizeLine_whole [simp]: "whole_line (sanitizeLine line)"
  by (auto simp: whole_line_def sanitizeLine_def)

section \<open>The part of a session that decides who it is\<close>

text \<open>Everything but the output, and the calls other than those to an engine.\<close>

record core_part =
  cp_registered :: bool
  cp_closed :: bool
  cp_user :: string
  cp_net :: string
  cp_remote :: string
  cp_saslUser :: string
  cp_passRaw :: string
  cp_clientUser :: string
  cp_saslBuf :: string
  cp_saslMech :: string

definition core_of :: "bsession \<Rightarrow> core_part" where
  "core_of s = \<lparr>cp_registered = bs_registered s, cp_closed = bs_closed s, cp_user = bs_userID s, cp_net = bs_networkID s,
     cp_remote = bs_remoteAddr s, cp_saslUser = bs_saslUser s, cp_passRaw = bs_passRaw s, cp_clientUser = bs_clientUser s,
     cp_saslBuf = bs_saslBuf s, cp_saslMech = bs_saslMech s\<rparr>"

definition reg_calls :: "bsession \<Rightarrow> bouncer_call list" where
  "reg_calls s = filter (\<lambda>c. c = CallAdd \<or> c = CallRemove) (bs_calls s)"

text \<open>A step that only writes, or asks something of an engine.\<close>

definition quiet :: "bsession \<Rightarrow> bsession \<Rightarrow> bool" where
  "quiet s s' \<longleftrightarrow> core_of s' = core_of s \<and> reg_calls s' = reg_calls s \<and> (list_all whole_line (bs_out s) \<longrightarrow> list_all whole_line (bs_out s'))"

text \<open>A step that may end the session besides.\<close>

definition ends :: "bsession \<Rightarrow> bsession \<Rightarrow> bool" where
  "ends s s' \<longleftrightarrow> quiet s s' \<or> \<not> bs_closed s \<and> core_of s' = (core_of s)\<lparr>cp_closed := True\<rparr> \<and> reg_calls s' = reg_calls s @ [CallRemove]
     \<and> (list_all whole_line (bs_out s) \<longrightarrow> list_all whole_line (bs_out s'))"

lemma quiet_refl [simp]: "quiet s s"
  by (simp add: quiet_def)

lemma quiet_trans: "quiet s t \<Longrightarrow> quiet t u \<Longrightarrow> quiet s u"
  by (simp add: quiet_def)

lemma quiet_ends [intro]: "quiet s t \<Longrightarrow> ends s t"
  by (simp add: ends_def)

lemma core_of_closed: "cp_closed (core_of s) = bs_closed s"
  by (simp add: core_of_def)

lemma core_closed_idem: "bs_closed s \<Longrightarrow> (core_of s)\<lparr>cp_closed := True\<rparr> = core_of s"
  by (simp add: core_of_def)

lemma quiet_closed: "quiet s t \<Longrightarrow> bs_closed t = bs_closed s"
  by (metis quiet_def core_of_closed)

lemma ends_trans: "ends s t \<Longrightarrow> ends t u \<Longrightarrow> ends s u"
proof -
  assume st: "ends s t" and tu: "ends t u"
  show "ends s u"
  proof (cases "quiet s t")
    case True
    then show ?thesis using tu quiet_closed [OF True] by (auto simp: ends_def quiet_def)
  next
    case False
    then have t: "core_of t = (core_of s)\<lparr>cp_closed := True\<rparr>" using st by (simp add: ends_def)
    then have "bs_closed t" by (simp add: core_of_closed [symmetric])
    then show ?thesis using st tu False by (auto simp: ends_def quiet_def)
  qed
qed

lemma quiet_fold: "(\<And>x s. quiet s (f x s)) \<Longrightarrow> quiet s (fold f xs s)"
  by (induction xs arbitrary: s) (auto intro: quiet_trans)

lemma ends_fold: "(\<And>x s. ends s (f x s)) \<Longrightarrow> ends s (fold f xs s)"
  by (induction xs arbitrary: s) (auto intro: ends_trans)

section \<open>Writing\<close>

lemma write_quiet [simp]: "quiet s (bs_write line s)"
  by (simp add: quiet_def bs_write_def core_of_def reg_calls_def)

lemma server_line_quiet [simp]: "quiet s (server_line cmd ps s)"
  by (simp add: server_line_def)

lemma numeric_quiet [simp]: "quiet s (bs_numeric W code ps s)"
  by (simp add: bs_numeric_def)

lemma notice_quiet [simp]: "quiet s (bs_notice W t s)"
  by (simp add: bs_notice_def)

lemma call_quiet: "c \<noteq> CallAdd \<Longrightarrow> c \<noteq> CallRemove \<Longrightarrow> quiet s (bs_call c s)"
  by (simp add: quiet_def bs_call_def core_of_def reg_calls_def)

lemma input_quiet [simp]: "quiet s (input_to b t s)"
  by (simp add: input_to_def call_quiet)

lemma note_quiet [simp]: "quiet s (noteState net st s)"
  by (simp add: quiet_def noteState_def core_of_def reg_calls_def)

lemma destroy_ends [simp]: "ends s (bs_destroy s)"
  by (auto simp: bs_destroy_def ends_def bs_call_def core_of_def reg_calls_def)

lemma push_ends [simp]: "ends s (bs_push line s)"
  using destroy_ends [of s]
  by (auto simp: bs_push_def ends_def quiet_def core_of_def reg_calls_def)

lemma close_ends [simp]: "ends s (closeWithError reason s)"
  unfolding closeWithError_def by (rule ends_trans [OF push_ends destroy_ends])

lemma close_closed [simp]: "bs_closed (closeWithError reason s)"
  by (simp add: closeWithError_def bs_destroy_def bs_call_def)

section \<open>Handlers that only answer\<close>

lemma if_quiet: "quiet s a \<Longrightarrow> quiet s b \<Longrightarrow> quiet s (if c then a else b)"
  by simp

lemma caps_quiet [simp]: "quiet s (s\<lparr>bs_caps := c\<rparr>)" "quiet s (s\<lparr>bs_capNegotiating := x\<rparr>)" "quiet s (s\<lparr>bs_batchSeq := n\<rparr>)"
  "quiet s (s\<lparr>bs_pendingEcho := es\<rparr>)" "quiet s (s\<lparr>bs_lastActivity := at\<rparr>)" "quiet s (s\<lparr>bs_boundNetID := v\<rparr>)"
  "quiet s (s\<lparr>bs_clientNick := v\<rparr>)" "quiet s (s\<lparr>bs_clientRealname := v\<rparr>)"
  by (simp_all add: quiet_def core_of_def reg_calls_def)

lemmas quiet_steps = quiet_trans [OF _ server_line_quiet] quiet_trans [OF _ write_quiet] quiet_trans [OF _ input_quiet]
  quiet_trans [OF _ notice_quiet] quiet_trans [OF _ numeric_quiet]

lemma handleCap_quiet: "quiet s (handleCap W m s)"
proof -
  have neg: "quiet s (if bs_registered s then s else s\<lparr>bs_capNegotiating := True\<rparr>)" by simp
  note quiet_trans [OF neg caps_quiet(1)]
  with neg show ?thesis by (auto simp: handleCap_def Let_def intro!: quiet_steps)
qed

lemma handleBouncerPreReg_quiet: "quiet s (handleBouncerPreReg W m s)"
  by (simp add: handleBouncerPreReg_def Let_def)

lemma withBatch_quiet:
  assumes "\<And>ref s. quiet s (fn ref s)"
  shows "quiet s (withBatch typ ps fn s)"
  unfolding withBatch_def Let_def
  by (auto intro!: assms quiet_steps quiet_trans [OF _ assms])

lemma list_network_quiet: "quiet s (list_network ref n s)"
  unfolding list_network_def by (rule quiet_trans [OF note_quiet write_quiet])

lemma sendNetworkList_quiet [simp]: "quiet s (sendNetworkList W s)"
  by (auto simp: sendNetworkList_def intro!: withBatch_quiet quiet_fold list_network_quiet split: option.split)

lemma write_all_quiet [simp]: "quiet s (fold bs_write ls s)"
  by (rule quiet_fold) simp

lemma joinBurst_quiet [simp]: "quiet s (sendJoinBurst W n s)"
  by (simp add: sendJoinBurst_def Let_def)

lemma playback_quiet [simp]: "quiet s (sendPlayback W n s)"
  by (simp add: sendPlayback_def split: option.split)

lemma attachBurst_quiet: "quiet s (sendAttachBurst W t s)"
proof -
  define liveNick where "liveNick = currentNick W s"
  define req where "req = (if bs_clientNick s \<noteq> [] then bs_clientNick s else if liveNick \<noteq> [] then liveNick else ''user'')"
  define s1 where "s1 = fold bs_write (welcome_lines req) s"
  define s2 where "s2 = (if liveNick \<noteq> [] \<and> liveNick \<noteq> req then bs_write (FormatLine [] (stugan_prefix req) ''NICK'' ['':'' @ liveNick]) s1 else s1)"
  have 1: "quiet s s1" by (simp add: s1_def)
  have 2: "quiet s s2" using 1 by (auto simp: s2_def intro: quiet_steps)
  have burst: "quiet x (case r of Some n \<Rightarrow> if n_State n = StateRegistered then sendPlayback W n (sendJoinBurst W n x) else bs_notice W tx x
      | None \<Rightarrow> bs_notice W tx x)" for x r tx
    by (auto intro: quiet_trans [OF joinBurst_quiet playback_quiet] split: option.split)
  have lists: "quiet x (if hasCap_session y c then sendNetworkList W x else x)" for x y c by simp
  show ?thesis
    unfolding sendAttachBurst_def Let_def liveNick_def [symmetric] req_def [symmetric] s1_def [symmetric] s2_def [symmetric]
    by (intro quiet_trans [OF _ lists] quiet_trans [OF _ burst] quiet_steps 2)
qed

lemma controlBurst_quiet: "quiet s (sendControlBurst W s)"
  unfolding sendControlBurst_def Let_def
  by (auto intro!: quiet_trans [OF _ sendNetworkList_quiet] quiet_steps)

lemma send_to_quiet: "quiet s (send_to W cmd tx target s)"
  by (auto simp: send_to_def registerEcho_def Let_def intro!: quiet_steps split: option.split)

lemma clientMessage_quiet: "quiet s (handleClientMessage W m s)"
  by (auto simp: handleClientMessage_def intro!: quiet_fold send_to_quiet)

lemma join_part_quiet: "quiet s (client_join W m s)" "quiet s (client_part W m s)"
  by (auto simp: client_join_def client_part_def join_channel_def part_channel_def Let_def intro!: quiet_fold)

lemma topic_quiet: "quiet s (client_topic W m s)"
  by (auto simp: client_topic_def Let_def split: option.split)

lemma handleBouncer_quiet: "quiet s (handleBouncer W m s)"
  by (simp add: handleBouncer_def Let_def)

lemma history_quiet: "quiet s (handleChatHistory W m s)"
proof -
  have targets: "quiet s (history_targets W t s)" for t
    unfolding history_targets_def by (rule withBatch_quiet) (auto intro: quiet_fold split: option.split)
  have send: "quiet s (send_history W target msgs s)" for target msgs
    unfolding send_history_def by (rule withBatch_quiet) simp
  show ?thesis by (simp add: handleChatHistory_def history_fail_def Let_def targets send split: option.split)
qed

lemma markRead_quiet: "quiet s (handleMarkRead W m s)"
  by (simp add: handleMarkRead_def Let_def call_quiet)

lemma if_ends: "ends s a \<Longrightarrow> ends s b \<Longrightarrow> ends s (if c then a else b)"
  by simp

lemma handleCommand_ends: "ends s (handleCommand W m s)"
proof -
  have list: "quiet s (bs_call (CallList net q) s)" for net q by (simp add: call_quiet)
  show ?thesis
    unfolding handleCommand_def Let_def
    by (intro if_ends quiet_ends handleCap_quiet handleBouncer_quiet history_quiet markRead_quiet clientMessage_quiet join_part_quiet topic_quiet
        if_quiet quiet_refl server_line_quiet numeric_quiet notice_quiet input_quiet destroy_ends list)
qed

section \<open>Handlers before registration\<close>

text \<open>What a message before registration may change of the core: the credentials it offers.\<close>

definition offers :: "bsession \<Rightarrow> bsession \<Rightarrow> bool" where
  "offers s s' \<longleftrightarrow> (\<exists>su pr cu sb sm. core_of s' = (core_of s)\<lparr>cp_saslUser := su, cp_passRaw := pr, cp_clientUser := cu, cp_saslBuf := sb, cp_saslMech := sm\<rparr>)
     \<and> reg_calls s' = reg_calls s \<and> (list_all whole_line (bs_out s) \<longrightarrow> list_all whole_line (bs_out s'))"

lemma offers_credentials [simp]:
  "offers s (s\<lparr>bs_passRaw := v\<rparr>)" "offers s (s\<lparr>bs_clientUser := v\<rparr>)" "offers s (s\<lparr>bs_saslMech := v, bs_saslBuf := w\<rparr>)"
  "offers s (s\<lparr>bs_saslUser := v, bs_saslNetwork := w\<rparr>)" "offers s (s\<lparr>bs_saslBuf := w\<rparr>)"
  by (auto simp: offers_def core_of_def reg_calls_def)

lemma quiet_offers: "quiet s t \<Longrightarrow> offers s t"
  unfolding offers_def quiet_def
  by (intro conjI exI [of _ "cp_saslUser (core_of s)"] exI [of _ "cp_passRaw (core_of s)"] exI [of _ "cp_clientUser (core_of s)"]
      exI [of _ "cp_saslBuf (core_of s)"] exI [of _ "cp_saslMech (core_of s)"]) auto

lemma offers_trans: "offers s t \<Longrightarrow> offers t u \<Longrightarrow> offers s u"
  unfolding offers_def by (elim conjE exE) (intro conjI exI, auto)

lemma offers_quiet: "offers s t \<Longrightarrow> quiet t u \<Longrightarrow> offers s u"
  using offers_trans quiet_offers by blast

text \<open>The name and secret that give the account \<open>u\<close> to a client at an address.\<close>

definition granted :: "world \<Rightarrow> string \<Rightarrow> string \<Rightarrow> string \<Rightarrow> string \<Rightarrow> bool" where
  "granted W remote name secret u \<longleftrightarrow>
     (if hb_AuthEnabled (wd_hub W) then name \<noteq> [] \<and> hb_Login (wd_hub W) name secret = Some u
      else u = singleUserID (wd_hub W)
        \<and> (if wd_PasswordHash W \<noteq> [] then secret \<noteq> [] \<and> wd_bcrypt W (wd_PasswordHash W) secret else isLoopback remote))"

definition sasl_granted :: "world \<Rightarrow> string \<Rightarrow> string \<Rightarrow> string \<Rightarrow> bool" where
  "sasl_granted W remote b64 u \<longleftrightarrow> (\<exists>decoded z c secret. base64_decode b64 = Some decoded \<and> split_on decoded CHR 0x00 = [z, c, secret]
     \<and> granted W remote (pl_Username (UnmarshalLogin (if c = [] then z else c))) secret u)"

lemma sasl_fail_quiet [simp]: "quiet s (sasl_fail nick s)"
  by (simp add: sasl_fail_def)

lemma finishSasl_cases:
  "quiet s (finishSaslPlain W b nick s)
   \<or> (\<exists>u net. sasl_granted W (bs_remoteAddr s) b u \<and> quiet (s\<lparr>bs_saslUser := u, bs_saslNetwork := net\<rparr>) (finishSaslPlain W b nick s))"
proof (cases "\<exists>decoded z c p. base64_decode b = Some decoded \<and> split_on decoded CHR 0x00 = [z, c, p]")
  case False
  then have "finishSaslPlain W b nick s = sasl_fail nick s"
    by (auto simp: finishSaslPlain_def split: option.split list.split)
  then show ?thesis by simp
next
  case True
  then obtain decoded z c p where d: "base64_decode b = Some decoded" "split_on decoded CHR 0x00 = [z, c, p]" by blast
  let ?l = "UnmarshalLogin (if c = [] then z else c)"
  let ?r = "if hb_AuthEnabled (wd_hub W) then hb_Login (wd_hub W) (pl_Username ?l) p
            else if singleUserAuthorized W p s then Some (singleUserID (wd_hub W)) else None"
  have fin: "finishSaslPlain W b nick s = (if pl_Username ?l = [] \<or> p = [] then sasl_fail nick s
      else (case ?r of None \<Rightarrow> sasl_fail nick (bs_call CallPause s)
        | Some u \<Rightarrow> server_line ''903'' [nick, '':SASL authentication successful'']
            (server_line ''900'' [nick, stugan_prefix nick, u, '':You are now logged in as '' @ u]
              (s\<lparr>bs_saslUser := u, bs_saslNetwork := pl_Network ?l\<rparr>))))"
    by (simp add: finishSaslPlain_def d Let_def)
  show ?thesis
  proof (cases "pl_Username ?l = [] \<or> p = [] \<or> ?r = None")
    case True
    then show ?thesis unfolding fin by (auto intro: quiet_trans [OF call_quiet sasl_fail_quiet])
  next
    case False
    then obtain u where u: "?r = Some u" by blast
    have "sasl_granted W (bs_remoteAddr s) b u"
      using False u d by (auto simp: sasl_granted_def granted_def singleUserAuthorized_def split: if_splits)
    moreover have "quiet (s\<lparr>bs_saslUser := u, bs_saslNetwork := pl_Network ?l\<rparr>) (finishSaslPlain W b nick s)"
      unfolding fin u using False by (auto intro!: quiet_steps)
    ultimately show ?thesis by blast
  qed
qed

lemma finishSasl_offers: "offers s (finishSaslPlain W b nick s)"
  using finishSasl_cases [of s W b nick] by (auto intro: quiet_offers offers_quiet [OF offers_credentials(4)])

lemma handleSasl_cases:
  "quiet s (handleSasl W m s) \<or> (\<exists>v w. quiet (s\<lparr>bs_saslMech := v, bs_saslBuf := w\<rparr>) (handleSasl W m s) \<and> (w = [] \<or> w = bs_saslBuf s @ arg_at m 0))
   \<or> (\<exists>b nick. (b = bs_saslBuf s \<or> b = bs_saslBuf s @ arg_at m 0) \<and> handleSasl W m s = finishSaslPlain W b nick (s\<lparr>bs_saslMech := [], bs_saslBuf := []\<rparr>))"
  (is "?q \<or> ?r \<or> ?f")
proof -
  let ?nick = "currentNickOr W ''*'' s" and ?arg = "arg_at m 0"
  consider (refused) "\<not> hasCap_session s ''sasl''" | (start) "hasCap_session s ''sasl''" "bs_saslMech s = []"
    | (abort) "hasCap_session s ''sasl''" "bs_saslMech s \<noteq> []" "?arg = ''*''"
    | (more) "hasCap_session s ''sasl''" "bs_saslMech s \<noteq> []" "?arg \<noteq> ''*''" "?arg \<noteq> ''+''"
    | (fin) "hasCap_session s ''sasl''" "bs_saslMech s \<noteq> []" "?arg = ''+''" by blast
  then show ?thesis
  proof cases
    case refused
    then show ?thesis by (simp add: handleSasl_def Let_def)
  next
    case start
    let ?up = "u_upper (wd_unicode W) ?arg" and ?s = "s\<lparr>bs_saslMech := u_upper (wd_unicode W) ?arg, bs_saslBuf := []\<rparr>"
    show ?thesis
    proof (cases "?up \<in> set saslMechanisms")
      case True
      then have "handleSasl W m s = bs_write ''AUTHENTICATE +'' ?s" using start by (simp add: handleSasl_def Let_def)
      then have "quiet ?s (handleSasl W m s)" by simp
      then show ?thesis by blast
    next
      case False
      then have "handleSasl W m s = sasl_fail ?nick (server_line ''908'' [?nick, join_with saslMechanisms '','', '':are available SASL mechanisms''] s)"
        using start by (simp add: handleSasl_def Let_def)
      then show ?thesis using quiet_trans [OF server_line_quiet sasl_fail_quiet] by metis
    qed
  next
    case abort
    then have "quiet (s\<lparr>bs_saslMech := [], bs_saslBuf := []\<rparr>) (handleSasl W m s)" by (simp add: handleSasl_def Let_def)
    then show ?thesis by blast
  next
    case more
    let ?s = "s\<lparr>bs_saslBuf := bs_saslBuf s @ ?arg\<rparr>"
    have eq: "?s = s\<lparr>bs_saslMech := bs_saslMech s, bs_saslBuf := bs_saslBuf s @ ?arg\<rparr>" by simp
    consider "maxSaslResponse < length (bs_saslBuf ?s)" | "\<not> maxSaslResponse < length (bs_saslBuf ?s)" "length ?arg = 400"
      | "\<not> maxSaslResponse < length (bs_saslBuf ?s)" "length ?arg \<noteq> 400" by blast
    then show ?thesis
    proof cases
      case 1
      then have "quiet (s\<lparr>bs_saslMech := [], bs_saslBuf := []\<rparr>) (handleSasl W m s)" using more by (simp add: handleSasl_def Let_def)
      then show ?thesis by blast
    next
      case 2
      then have "handleSasl W m s = ?s" using more by (simp add: handleSasl_def Let_def)
      then have "?r" using eq quiet_refl by metis
      then show ?thesis by blast
    next
      case 3
      then have "handleSasl W m s = finishSaslPlain W (bs_saslBuf s @ ?arg) ?nick (s\<lparr>bs_saslMech := [], bs_saslBuf := []\<rparr>)"
        using more by (simp add: handleSasl_def Let_def)
      then show ?thesis by blast
    qed
  next
    case fin
    then have "handleSasl W m s = finishSaslPlain W (bs_saslBuf s) ?nick (s\<lparr>bs_saslMech := [], bs_saslBuf := []\<rparr>)"
      by (simp add: handleSasl_def Let_def)
    then show ?thesis by blast
  qed
qed

lemma handleSasl_offers: "offers s (handleSasl W m s)"
  using handleSasl_cases [of s W m]
  by (auto intro: quiet_offers offers_quiet [OF offers_credentials(3)] offers_trans [OF offers_credentials(3) finishSasl_offers])

end
