(* ===== verification/Bouncer_Auth.thy ===== *)
theory Bouncer_Auth
  imports Bouncer_Facts "HOL-Library.Sublist"
begin

text \<open>
  Who gets in: a session becomes attached to an account only after credentials that came over its own
  connection were accepted for that account, or, with no password at all, from the machine itself.
\<close>

section \<open>Attaching\<close>

definition admits :: "world \<Rightarrow> string \<Rightarrow> string \<Rightarrow> bool" where
  "admits W u net \<longleftrightarrow> (\<exists>t. hb_Tenant (wd_hub W) u = Some t \<and> BouncerAllowed t
     \<and> (net = [] \<or> (\<exists>n. n \<in> set (Snapshot (wd_env W) (tn_Engine t)) \<and> net = n_ID n)))"

definition attaches :: "string \<Rightarrow> string \<Rightarrow> bsession \<Rightarrow> bsession \<Rightarrow> bool" where
  "attaches u net s s' \<longleftrightarrow> core_of s' = (core_of s)\<lparr>cp_registered := True, cp_user := u, cp_net := net\<rparr> \<and> reg_calls s' = reg_calls s @ [CallAdd]
     \<and> (list_all whole_line (bs_out s) \<longrightarrow> list_all whole_line (bs_out s'))"

lemma attaches_quiet: "attaches u net s t \<Longrightarrow> quiet t v \<Longrightarrow> attaches u net s v"
  by (simp add: attaches_def quiet_def)

lemma bindNetwork_attaches: "attaches u (n_ID n) s (bindNetwork W u t n s)"
  unfolding bindNetwork_def
  by (rule attaches_quiet [OF _ attachBurst_quiet])
     (simp add: attaches_def bs_call_def noteState_def core_of_def reg_calls_def)

lemma registerControl_attaches: "bs_networkID s = [] \<Longrightarrow> attaches u [] s (registerControl W u s)"
  unfolding registerControl_def
  by (rule attaches_quiet [OF _ controlBurst_quiet])
     (simp add: attaches_def bs_call_def core_of_def reg_calls_def)

lemma failRegistration_ends: "ends s (failRegistration W tx s)" "bs_closed (failRegistration W tx s)"
  unfolding failRegistration_def by (simp_all add: ends_trans [OF quiet_ends [OF server_line_quiet] close_ends])

definition refused :: "bsession \<Rightarrow> bsession \<Rightarrow> bool" where
  "refused s s' \<longleftrightarrow> ends s s' \<and> bs_closed s'"

lemma fail_refused: "refused s (failRegistration W tx s)" "refused s (failRegistration W tx (bs_call CallPause s))"
  "refused s (closeWithError r (server_line c ps s))"
  using ends_trans [OF quiet_ends [OF call_quiet] failRegistration_ends(1)] ends_trans [OF quiet_ends [OF server_line_quiet] close_ends]
  by (auto simp: refused_def failRegistration_ends)

lemma completeAttach_cases:
  assumes "bs_networkID s = []"
  shows "refused s (completeAttach W u sel s) \<or> (\<exists>net. admits W u net \<and> attaches u net s (completeAttach W u sel s))"
proof (cases "hb_Tenant (wd_hub W) u")
  case None
  then show ?thesis by (simp add: completeAttach_def fail_refused)
next
  case (Some t)
  let ?nets = "Snapshot (wd_env W) (tn_Engine t)"
  have bind: "n \<in> set ?nets \<Longrightarrow> BouncerAllowed t \<Longrightarrow> \<exists>net. admits W u net \<and> attaches u net s (bindNetwork W u t n s)" for n
    using Some bindNetwork_attaches by (auto simp: admits_def)
  have control: "BouncerAllowed t \<Longrightarrow> \<exists>net. admits W u net \<and> attaches u net s (registerControl W u s)"
    using Some registerControl_attaches [OF assms] by (auto simp: admits_def)
  have found: "find P ?nets = Some n \<Longrightarrow> n \<in> set ?nets" for P n by (auto simp: find_Some_iff)
  show ?thesis
    unfolding completeAttach_def Some option.case Let_def
    using bind control found
    by (simp add: fail_refused split: option.split list.split)
qed

definition pass_granted :: "world \<Rightarrow> string \<Rightarrow> string \<Rightarrow> string \<Rightarrow> string \<Rightarrow> bool" where
  "pass_granted W remote pr cu u \<longleftrightarrow>
     (\<exists>c. pr \<noteq> [] \<and> ParseCredentials pr cu = Some c \<and> granted W remote (pc_Username c) (pc_Secret c) u)
     \<or> (\<not> hb_AuthEnabled (wd_hub W) \<and> wd_PasswordHash W = [] \<and> isLoopback remote \<and> u = singleUserID (wd_hub W))"

lemma authenticate_cases:
  assumes "bs_networkID s = []"
  shows "refused s (authenticate W s)
    \<or> (\<exists>u net. (u = bs_saslUser s \<and> u \<noteq> [] \<or> pass_granted W (bs_remoteAddr s) (bs_passRaw s) (bs_clientUser s) u)
        \<and> admits W u net \<and> attaches u net s (authenticate W s))"
proof -
  note ca = completeAttach_cases [OF assms]
  consider (sasl) "bs_saslUser s \<noteq> []" | (single) "bs_saslUser s = []" "\<not> hb_AuthEnabled (wd_hub W)"
    | (none) "bs_saslUser s = []" "hb_AuthEnabled (wd_hub W)" "bs_passRaw s = []"
    | (pass) "bs_saslUser s = []" "hb_AuthEnabled (wd_hub W)" "bs_passRaw s \<noteq> []" by blast
  then show ?thesis
  proof cases
    case sasl
    then have "\<exists>sel. authenticate W s = completeAttach W (bs_saslUser s) sel s" by (auto simp: authenticate_def Let_def)
    then show ?thesis using ca sasl by metis
  next
    case single
    define cr where "cr = (if bs_passRaw s \<noteq> [] then ParseCredentials (bs_passRaw s) (bs_clientUser s) else None)"
    define secret where "secret = (case cr of Some c \<Rightarrow> pc_Secret c | None \<Rightarrow> [])"
    have auth: "\<exists>sel. authenticate W s = (if \<not> singleUserAuthorized W secret s
        then failRegistration W (if wd_PasswordHash W = []
             then ''No password is set, so only connections from this machine are accepted. Set STUGAN_WEB_PASSWORD (or configure [[users]]) to allow remote IRC clients''
             else ''Invalid password: use the web password as the server password or SASL password'') (bs_call CallPause s)
        else completeAttach W (singleUserID (wd_hub W)) sel s)"
      using single by (auto simp: authenticate_def Let_def cr_def secret_def split: option.split)
    have "singleUserAuthorized W secret s \<Longrightarrow> pass_granted W (bs_remoteAddr s) (bs_passRaw s) (bs_clientUser s) (singleUserID (wd_hub W))"
      using single by (auto simp: singleUserAuthorized_def pass_granted_def granted_def secret_def cr_def split: if_splits option.splits)
    with auth ca fail_refused(2) show ?thesis by metis
  next
    case none
    then show ?thesis by (simp add: authenticate_def Let_def fail_refused)
  next
    case pass
    show ?thesis
    proof (cases "\<exists>c u. ParseCredentials (bs_passRaw s) (bs_clientUser s) = Some c \<and> pc_Username c \<noteq> [] \<and> hb_Login (wd_hub W) (pc_Username c) (pc_Secret c) = Some u")
      case True
      then obtain c u where cu: "ParseCredentials (bs_passRaw s) (bs_clientUser s) = Some c" "pc_Username c \<noteq> []"
        "hb_Login (wd_hub W) (pc_Username c) (pc_Secret c) = Some u" by blast
      then have "authenticate W s = completeAttach W u (pc_Network c) s" using pass by (simp add: authenticate_def Let_def)
      moreover have "pass_granted W (bs_remoteAddr s) (bs_passRaw s) (bs_clientUser s) u"
        using pass cu by (auto simp: pass_granted_def granted_def)
      ultimately show ?thesis using ca by metis
    next
      case False
      then have "refused s (authenticate W s)"
        using pass by (auto simp: authenticate_def Let_def fail_refused split: option.split)
      then show ?thesis by blast
    qed
  qed
qed

section \<open>What came over the connection\<close>

text \<open>
  A run is the lines a client sent, each with the world it was read in. \<open>args cmd run\<close> are the first parameters of its
  messages of one command, \<open>last_arg\<close> the last of them.
\<close>

type_synonym client_run = "(world \<times> string) list"

definition arg_of :: "string \<Rightarrow> world \<times> string \<Rightarrow> string list" where
  "arg_of cmd x = (case ParseLine (wd_unicode (fst x)) (snd x) of
     Some m \<Rightarrow> if cm_Command m = cmd \<and> cm_Params m \<noteq> [] then [arg_at m 0] else [] | None \<Rightarrow> [])"

definition args :: "string \<Rightarrow> client_run \<Rightarrow> string list" where
  "args cmd run = concat (map (arg_of cmd) run)"

definition last_arg :: "string \<Rightarrow> client_run \<Rightarrow> string" where
  "last_arg cmd run = (if args cmd run = [] then [] else last (args cmd run))"

definition serve_run :: "string \<Rightarrow> int \<Rightarrow> client_run \<Rightarrow> bsession" where
  "serve_run remote now run = fold (\<lambda>(W, raw). serve_line W raw) run (newSession remote now)"

text \<open>Some response put together from AUTHENTICATE messages of the run was accepted for the account.\<close>

definition sasl_login :: "string \<Rightarrow> client_run \<Rightarrow> string \<Rightarrow> bool" where
  "sasl_login remote run u \<longleftrightarrow> (\<exists>pre x post pieces. run = pre @ x # post \<and> subseq pieces (args ''AUTHENTICATE'' (pre @ [x]))
     \<and> sasl_granted (fst x) remote (concat pieces) u)"

definition logged_in :: "string \<Rightarrow> client_run \<Rightarrow> string \<Rightarrow> string \<Rightarrow> bool" where
  "logged_in remote run u net \<longleftrightarrow> (\<exists>pre x post. run = pre @ x # post \<and> admits (fst x) u net
     \<and> (sasl_login remote (pre @ [x]) u
        \<or> pass_granted (fst x) remote (last_arg ''PASS'' (pre @ [x])) (last_arg ''USER'' (pre @ [x])) u))"

lemma args_snoc: "args cmd (run @ [x]) = args cmd run @ arg_of cmd x"
  by (simp add: args_def)

lemma arg_of_other: "ParseLine (wd_unicode W) raw = Some m \<Longrightarrow> cm_Command m \<noteq> cmd \<Longrightarrow> arg_of cmd (W, raw) = []"
  by (simp add: arg_of_def)

lemma last_arg_other: "arg_of cmd x = [] \<Longrightarrow> last_arg cmd (run @ [x]) = last_arg cmd run"
  by (simp add: last_arg_def args_snoc)

lemma last_arg_given: "arg_of cmd x = [a] \<Longrightarrow> last_arg cmd (run @ [x]) = a"
  by (simp add: last_arg_def args_snoc)

lemma sasl_login_snoc: "sasl_login remote run u \<Longrightarrow> sasl_login remote (run @ [x]) u"
  unfolding sasl_login_def by (metis append.assoc append_Cons)

lemma sasl_login_now:
  "subseq pieces (args ''AUTHENTICATE'' (run @ [x])) \<Longrightarrow> sasl_granted (fst x) remote (concat pieces) u \<Longrightarrow> sasl_login remote (run @ [x]) u"
  unfolding sasl_login_def by blast

lemma logged_in_snoc: "logged_in remote run u net \<Longrightarrow> logged_in remote (run @ [x]) u net"
  unfolding logged_in_def by (metis append.assoc append_Cons)

text \<open>What the fields of an unregistered session say of the run so far.\<close>

definition offered :: "string \<Rightarrow> client_run \<Rightarrow> core_part \<Rightarrow> bool" where
  "offered remote run c \<longleftrightarrow> cp_remote c = remote \<and> \<not> cp_registered c \<and> cp_net c = []
     \<and> cp_passRaw c = last_arg ''PASS'' run \<and> cp_clientUser c = last_arg ''USER'' run
     \<and> (\<exists>pieces. subseq pieces (args ''AUTHENTICATE'' run) \<and> cp_saslBuf c = concat pieces)
     \<and> (cp_saslUser c \<noteq> [] \<longrightarrow> sasl_login remote run (cp_saslUser c))"

lemma offered_same:
  assumes "offered remote run c" "arg_of ''PASS'' x = []" "arg_of ''USER'' x = []"
  shows "offered remote (run @ [x]) c"
  using assms by (auto simp: offered_def last_arg_other args_snoc intro: sasl_login_snoc list_emb_prefix)

lemma offered_quiet: "offered remote run (core_of s) \<Longrightarrow> quiet s t \<Longrightarrow> offered remote run (core_of t)"
  by (simp add: quiet_def)

lemma offered_buffer:
  assumes "offered remote run (core_of s)" "subseq pieces (args ''AUTHENTICATE'' run)" "w = concat pieces"
  shows "offered remote run (core_of (s\<lparr>bs_saslMech := v, bs_saslBuf := w\<rparr>))"
  using assms by (auto simp: offered_def core_of_def)

lemma offered_login:
  assumes "offered remote run (core_of s)" "sasl_login remote run u"
  shows "offered remote run (core_of (s\<lparr>bs_saslUser := u, bs_saslNetwork := net\<rparr>))"
  using assms by (simp add: offered_def core_of_def)

lemma offered_sasl:
  assumes o: "offered remote run (core_of s)" and m: "ParseLine (wd_unicode W) raw = Some m" "cm_Command m = ''AUTHENTICATE''"
  shows "offered remote (run @ [(W, raw)]) (core_of (handleSasl W m s))"
proof -
  let ?run = "run @ [(W, raw)]"
  from m have none: "arg_of ''PASS'' (W, raw) = []" "arg_of ''USER'' (W, raw) = []" by (simp_all add: arg_of_def)
  note same = offered_same [OF o none]
  obtain ps where ps: "subseq ps (args ''AUTHENTICATE'' run)" "bs_saslBuf s = concat ps"
    using o by (auto simp: offered_def core_of_def)
  have old: "\<exists>qs. subseq qs (args ''AUTHENTICATE'' ?run) \<and> bs_saslBuf s = concat qs"
    using ps by (auto simp: args_snoc intro: list_emb_prefix)
  have more: "\<exists>qs. subseq qs (args ''AUTHENTICATE'' ?run) \<and> bs_saslBuf s @ arg_at m 0 = concat qs"
  proof (cases "cm_Params m = []")
    case True
    then show ?thesis using old by (simp add: arg_at_def)
  next
    case False
    then have "arg_of ''AUTHENTICATE'' (W, raw) = [arg_at m 0]" using m by (simp add: arg_of_def)
    then show ?thesis using ps by (intro exI [of _ "ps @ [arg_at m 0]"]) (auto simp: args_snoc intro: list_emb_append_mono)
  qed
  have empty: "offered remote ?run (core_of (s\<lparr>bs_saslMech := v, bs_saslBuf := []\<rparr>))" for v
    by (rule offered_buffer [OF same, of "[]"]) simp_all
  consider (quiet) "quiet s (handleSasl W m s)"
    | (buffer) v w where "quiet (s\<lparr>bs_saslMech := v, bs_saslBuf := w\<rparr>) (handleSasl W m s)" "w = [] \<or> w = bs_saslBuf s @ arg_at m 0"
    | (login) b nick where "b = bs_saslBuf s \<or> b = bs_saslBuf s @ arg_at m 0"
        "handleSasl W m s = finishSaslPlain W b nick (s\<lparr>bs_saslMech := [], bs_saslBuf := []\<rparr>)"
    using handleSasl_cases [of s W m] by blast
  then show ?thesis
  proof cases
    case quiet
    then show ?thesis using offered_quiet [OF same] by blast
  next
    case buffer
    then have "offered remote ?run (core_of (s\<lparr>bs_saslMech := v, bs_saslBuf := w\<rparr>))"
      using empty offered_buffer [OF same] more by metis
    then show ?thesis using offered_quiet buffer(1) by blast
  next
    case login
    let ?s = "s\<lparr>bs_saslMech := [], bs_saslBuf := []\<rparr>"
    have remote: "bs_remoteAddr ?s = remote" using o by (simp add: offered_def core_of_def)
    have "sasl_granted W remote b u \<Longrightarrow> sasl_login remote ?run u" for u
      using login(1) old more sasl_login_now [of _ run "(W, raw)"] by auto
    then have "sasl_granted W remote b u \<Longrightarrow> quiet (?s\<lparr>bs_saslUser := u, bs_saslNetwork := net\<rparr>) t \<Longrightarrow> offered remote ?run (core_of t)" for u net t
      using offered_quiet [OF offered_login [OF empty]] by blast
    moreover have "quiet ?s t \<Longrightarrow> offered remote ?run (core_of t)" for t
      using offered_quiet [OF empty] by blast
    ultimately show ?thesis
      using finishSasl_cases [of ?s W b nick] unfolding remote login(2) by blast
  qed
qed

text \<open>The message itself, before \<^verbatim>\<open>maybeFinishRegistration\<close>.\<close>

definition pre_message :: "world \<Rightarrow> client_message \<Rightarrow> bsession \<Rightarrow> bsession" where
  "pre_message W m s =
     (let cmd = cm_Command m; given = cm_Params m \<noteq> [] in
      if cmd = ''CAP'' then handleCap W m s
      else if cmd = ''PASS'' then (if given then s\<lparr>bs_passRaw := arg_at m 0\<rparr> else s)
      else if cmd = ''NICK'' then (if given then s\<lparr>bs_clientNick := CleanNick (wd_unicode W) (arg_at m 0)\<rparr> else s)
      else if cmd = ''USER'' then
        (let s = (if given then s\<lparr>bs_clientUser := arg_at m 0\<rparr> else s)
         in if 3 < length (cm_Params m) then s\<lparr>bs_clientRealname := arg_at m 3\<rparr> else s)
      else if cmd = ''AUTHENTICATE'' then handleSasl W m s
      else if cmd = ''BOUNCER'' then handleBouncerPreReg W m s
      else if cmd = ''PING'' then server_line ''PONG'' [serverName, if given then arg_at m 0 else serverName] s
      else bs_numeric W ''451'' ['':You have not registered''] s)"

lemma handlePreRegistration_eq:
  "handlePreRegistration W m s = (if cm_Command m = ''QUIT'' then bs_destroy s else maybeFinishRegistration W (pre_message W m s))"
  by (simp add: handlePreRegistration_def pre_message_def Let_def)

lemma pre_message_offered:
  assumes o: "offered remote run (core_of s)" and m: "ParseLine (wd_unicode W) raw = Some m"
  shows "offered remote (run @ [(W, raw)]) (core_of (pre_message W m s))"
proof -
  let ?run = "run @ [(W, raw)]"
  note other = offered_same [OF o arg_of_other [OF m] arg_of_other [OF m]]
  consider (pass) "cm_Command m = ''PASS''" | (user) "cm_Command m = ''USER''" | (sasl) "cm_Command m = ''AUTHENTICATE''"
    | (other) "cm_Command m \<notin> {''PASS'', ''USER'', ''AUTHENTICATE''}" by blast
  then show ?thesis
  proof cases
    case pass
    have none: "arg_of ''USER'' (W, raw) = []" "arg_of ''AUTHENTICATE'' (W, raw) = []" using arg_of_other [OF m] pass by simp_all
    show ?thesis
    proof (cases "cm_Params m = []")
      case True
      then have "arg_of ''PASS'' (W, raw) = []" using m by (simp add: arg_of_def)
      then show ?thesis using offered_same [OF o] none pass True by (simp add: pre_message_def)
    next
      case False
      then have "arg_of ''PASS'' (W, raw) = [arg_at m 0]" using m pass by (simp add: arg_of_def)
      then show ?thesis using o none pass False
        by (auto simp: pre_message_def offered_def core_of_def last_arg_given last_arg_other args_snoc intro: sasl_login_snoc)
    qed
  next
    case user
    have none: "arg_of ''PASS'' (W, raw) = []" "arg_of ''AUTHENTICATE'' (W, raw) = []" using arg_of_other [OF m] user by simp_all
    show ?thesis
    proof (cases "cm_Params m = []")
      case True
      then have "arg_of ''USER'' (W, raw) = []" using m by (simp add: arg_of_def)
      then show ?thesis using offered_same [OF o] none user True by (simp add: pre_message_def)
    next
      case False
      then have "arg_of ''USER'' (W, raw) = [arg_at m 0]" using m user by (simp add: arg_of_def)
      moreover have "core_of (pre_message W m s) = (core_of s)\<lparr>cp_clientUser := arg_at m 0\<rparr>"
        using user False by (simp add: pre_message_def core_of_def Let_def)
      ultimately show ?thesis using o none
        by (auto simp: offered_def last_arg_given last_arg_other args_snoc intro: sasl_login_snoc)
    qed
  next
    case sasl
    then show ?thesis using offered_sasl [OF o m] by (simp add: pre_message_def)
  next
    case other
    then have "quiet s (pre_message W m s)"
      by (auto simp: pre_message_def Let_def handleCap_quiet handleBouncerPreReg_quiet)
    moreover have "offered remote ?run (core_of s)" using offered_same [OF o] other arg_of_other [OF m] by simp
    ultimately show ?thesis using offered_quiet by blast
  qed
qed

section \<open>Runs of a session\<close>

definition accounted :: "string \<Rightarrow> client_run \<Rightarrow> bsession \<Rightarrow> bool" where
  "accounted remote run s \<longleftrightarrow> (if bs_registered s then logged_in remote run (bs_userID s) (bs_networkID s)
     else offered remote run (core_of s))"

lemma core_parts: "cp_registered (core_of s) = bs_registered s" "cp_net (core_of s) = bs_networkID s" "cp_user (core_of s) = bs_userID s"
  "cp_saslUser (core_of s) = bs_saslUser s" "cp_passRaw (core_of s) = bs_passRaw s" "cp_clientUser (core_of s) = bs_clientUser s"
  "cp_remote (core_of s) = bs_remoteAddr s"
  by (simp_all add: core_of_def)

lemma accounted_ends:
  assumes "accounted remote run s" "ends s t"
  shows "accounted remote run t"
proof -
  have "core_of t = core_of s \<or> core_of t = (core_of s)\<lparr>cp_closed := True\<rparr>" using assms(2) by (auto simp: ends_def quiet_def)
  then show ?thesis using assms(1) by (auto simp: accounted_def core_parts [symmetric] offered_def)
qed

lemma finish_accounted:
  assumes o: "offered remote (run @ [(W, raw)]) (core_of s)"
  shows "accounted remote (run @ [(W, raw)]) (maybeFinishRegistration W s)"
proof -
  let ?run = "run @ [(W, raw)]"
  have s: "accounted remote ?run s" using o by (simp add: accounted_def offered_def core_parts)
  have net: "bs_networkID s = []" using o by (simp add: offered_def core_parts)
  have creds: "bs_remoteAddr s = remote" "bs_passRaw s = last_arg ''PASS'' ?run" "bs_clientUser s = last_arg ''USER'' ?run"
    "bs_saslUser s \<noteq> [] \<Longrightarrow> sasl_login remote ?run (bs_saslUser s)" using o by (auto simp: offered_def core_parts)
  have in_run: "admits W u n \<Longrightarrow> sasl_login remote ?run u \<or> pass_granted W remote (last_arg ''PASS'' ?run) (last_arg ''USER'' ?run) u
      \<Longrightarrow> logged_in remote ?run u n" for u n
    unfolding logged_in_def by (intro exI [of _ run] exI [of _ "(W, raw)"] exI [of _ "[]"]) auto
  have "attaches u n s t \<Longrightarrow> logged_in remote ?run u n \<Longrightarrow> accounted remote ?run t" for u n t
    by (simp add: accounted_def attaches_def core_parts [symmetric])
  then have "accounted remote ?run (authenticate W s)"
    using authenticate_cases [OF net, of W] accounted_ends [OF s] in_run creds unfolding refused_def creds by metis
  then show ?thesis using s by (simp add: maybeFinishRegistration_def)
qed

lemma serve_line_accounted:
  assumes a: "accounted remote run s"
  shows "accounted remote (run @ [(W, raw)]) (serve_line W raw s)"
proof -
  let ?s = "s\<lparr>bs_lastActivity := wd_now W div 10 ^ 9\<rparr>"
  have s: "accounted remote run ?s" using accounted_ends [OF a quiet_ends] by simp
  show ?thesis
  proof (cases "ParseLine (wd_unicode W) raw")
    case None
    then have "accounted remote (run @ [(W, raw)]) ?s"
      using s by (auto simp: accounted_def arg_of_def intro: logged_in_snoc offered_same)
    then show ?thesis using None by (simp add: serve_line_def)
  next
    case (Some m)
    show ?thesis
    proof (cases "bs_registered s")
      case True
      then have "accounted remote (run @ [(W, raw)]) ?s" using s by (auto simp: accounted_def intro: logged_in_snoc)
      then show ?thesis using Some True accounted_ends [OF _ handleCommand_ends] by (simp add: serve_line_def)
    next
      case False
      then have o: "offered remote run (core_of ?s)" using s by (simp add: accounted_def)
      have "cm_Command m = ''QUIT'' \<Longrightarrow> accounted remote (run @ [(W, raw)]) (bs_destroy ?s)"
        using False offered_same [OF o] arg_of_other [OF Some] by (intro accounted_ends [OF _ destroy_ends]) (simp add: accounted_def)
      then show ?thesis
        using Some False finish_accounted [OF pre_message_offered [OF o Some]]
        by (cases "cm_Command m = ''QUIT''") (simp_all add: serve_line_def handlePreRegistration_eq Let_def)
    qed
  qed
qed

lemma run_accounted: "accounted remote run (serve_run remote now run)"
proof (induction run rule: rev_induct)
  case Nil
  have "\<exists>pieces :: string list. subseq pieces [] \<and> [] = concat pieces" by (intro exI [of _ "[]"]) simp
  then show ?case by (simp add: serve_run_def accounted_def offered_def core_of_def newSession_def last_arg_def args_def)
next
  case (snoc x run)
  then show ?case using serve_line_accounted by (cases x) (simp add: serve_run_def)
qed

end
