(* ===== verification/Bouncer_Registry.thy ===== *)
theory Bouncer_Registry
  imports Bouncer_Auth
begin

text \<open>
  The registry of the IRC server: over every run of the server it lists exactly the attached sessions, and what
  waits in the queue of any session is whole lines.
\<close>

section \<open>What one step of a session does to the registry\<close>

definition ident_of :: "bsession \<Rightarrow> bool \<times> bool \<times> string \<times> string" where
  "ident_of s = (bs_registered s, bs_closed s, bs_userID s, bs_networkID s)"

definition keeps_lines :: "bsession \<Rightarrow> bsession \<Rightarrow> bool" where
  "keeps_lines s s' \<longleftrightarrow> (list_all whole_line (bs_out s) \<longrightarrow> list_all whole_line (bs_out s'))"

definition stays :: "bsession \<Rightarrow> bsession \<Rightarrow> bool" where
  "stays s s' \<longleftrightarrow> ident_of s' = ident_of s \<and> reg_calls s' = reg_calls s"

definition leaves :: "bsession \<Rightarrow> bsession \<Rightarrow> bool" where
  "leaves s s' \<longleftrightarrow> \<not> bs_closed s \<and> ident_of s' = (bs_registered s, True, bs_userID s, bs_networkID s) \<and> reg_calls s' = reg_calls s @ [CallRemove]"

definition enters :: "bsession \<Rightarrow> bsession \<Rightarrow> bool" where
  "enters s s' \<longleftrightarrow> \<not> live s \<and> live s' \<and> reg_calls s' = reg_calls s @ [CallAdd]"

definition step_ok :: "bsession \<Rightarrow> bsession \<Rightarrow> bool" where
  "step_ok s s' \<longleftrightarrow> keeps_lines s s' \<and> (stays s s' \<or> leaves s s' \<or> enters s s')"

lemma ident_core: "ident_of s = (cp_registered (core_of s), cp_closed (core_of s), cp_user (core_of s), cp_net (core_of s))"
  by (simp add: ident_of_def core_of_def)

lemma ends_ok: "ends s t \<Longrightarrow> step_ok s t"
  by (auto simp: ends_def quiet_def step_ok_def stays_def leaves_def keeps_lines_def ident_core core_parts [symmetric]
      core_of_closed [symmetric])

lemma offers_stays: "offers s t \<Longrightarrow> keeps_lines s t \<and> stays s t"
  by (auto simp: offers_def stays_def keeps_lines_def ident_core)

lemma stays_then_ok: "keeps_lines s t \<Longrightarrow> stays s t \<Longrightarrow> step_ok t u \<Longrightarrow> step_ok s u"
  by (auto simp: step_ok_def stays_def leaves_def enters_def keeps_lines_def ident_of_def live_def)

lemma pre_message_offers: "offers s (pre_message W m s)"
  by (auto simp: pre_message_def Let_def handleSasl_offers intro!: quiet_offers handleCap_quiet handleBouncerPreReg_quiet
      offers_quiet [OF offers_credentials(2) caps_quiet(8)])

lemma finish_ok:
  assumes "\<not> bs_registered s" "bs_networkID s = []"
  shows "step_ok s (maybeFinishRegistration W s)"
proof (cases "bs_closed s")
  case True
  then show ?thesis by (simp add: maybeFinishRegistration_def ends_ok quiet_ends)
next
  case False
  have "attaches u net s t \<Longrightarrow> step_ok s t" for u net t
    using False assms by (simp add: attaches_def step_ok_def enters_def keeps_lines_def live_def core_parts [symmetric] core_of_closed [symmetric])
  then have "step_ok s (authenticate W s)"
    using authenticate_cases [OF assms(2), of W] ends_ok by (auto simp: refused_def)
  then show ?thesis by (simp add: maybeFinishRegistration_def ends_ok quiet_ends)
qed

lemma serve_line_ok:
  assumes "\<not> bs_registered s \<Longrightarrow> bs_networkID s = []"
  shows "step_ok s (serve_line W raw s)"
proof -
  let ?s = "s\<lparr>bs_lastActivity := wd_now W div 10 ^ 9\<rparr>"
  have "keeps_lines s ?s \<and> stays s ?s" by (rule offers_stays [OF quiet_offers [OF caps_quiet(5)]])
  note first = stays_then_ok [OF conjunct1 [OF this] conjunct2 [OF this]]
  show ?thesis
  proof (cases "ParseLine (wd_unicode W) raw")
    case None
    then show ?thesis using first [OF ends_ok [OF quiet_ends [OF quiet_refl]]] by (simp add: serve_line_def)
  next
    case (Some m)
    let ?t = "pre_message W m ?s"
    note offered = offers_stays [OF pre_message_offers, of ?s W m]
    have "\<not> bs_registered s \<Longrightarrow> \<not> bs_registered ?t \<and> bs_networkID ?t = []"
      using offered assms by (simp add: stays_def ident_of_def)
    then have pre: "\<not> bs_registered s \<Longrightarrow> step_ok ?s (maybeFinishRegistration W ?t)"
      using stays_then_ok offered finish_ok by blast
    then have "\<not> bs_registered s \<Longrightarrow> step_ok ?s (handlePreRegistration W m ?s)"
      unfolding handlePreRegistration_eq using ends_ok [OF destroy_ends] by simp
    moreover have "step_ok ?s (handleCommand W m ?s)" by (rule ends_ok [OF handleCommand_ends])
    ultimately show ?thesis
      by (cases "bs_registered s") (use Some in \<open>auto simp: serve_line_def Let_def intro!: first\<close>)
  qed
qed

lemma gather_split: "\<exists>k. gather n ls = (concat (take k ls), drop k ls)"
proof (induction ls arbitrary: n)
  case Nil
  then show ?case by simp
next
  case (Cons l ls)
  from Cons [of "n + length l"] obtain k where "gather (n + length l) ls = (concat (take k ls), drop k ls)" by blast
  then show ?case by (cases "n < 64 * 1024") (auto intro: exI [of _ "Suc k"] exI [of _ 0])
qed

lemma write_turn_ok: "step_ok s (snd (write_turn s))"
proof -
  obtain k where "gather 0 (bs_out s) = (concat (take k (bs_out s)), drop k (bs_out s))" using gather_split by blast
  then show ?thesis
    by (auto simp: write_turn_def step_ok_def stays_def keeps_lines_def ident_of_def reg_calls_def list_all_iff dest: in_set_dropD)
qed

lemma timeout_ok: "step_ok s (registration_timeout s)"
  by (auto simp: registration_timeout_def intro!: ends_ok)

lemma heartbeat_ok: "step_ok s (heartbeat now s)"
  by (auto simp: heartbeat_def Let_def intro!: ends_ok)

section \<open>The fan-out only writes, or gives up on a slow client\<close>

lemma push_all_ends [simp]: "ends s (fold bs_push ls s)"
  by (rule ends_fold) simp

lemma push_line_ends [simp]: "ends s (push_line cmd ps s)"
  by (simp add: push_line_def)

lemma note_then: "ends (noteState net st s) t \<Longrightarrow> ends s t"
  by (rule ends_trans [OF quiet_ends [OF note_quiet]])

lemma echo_then: "ends s' u \<Longrightarrow> (own, s') = isOwnEcho k b t s \<Longrightarrow> ends s u"
  by (rule ends_trans [OF quiet_ends]) (auto simp: isOwnEcho_def split: prod.splits)

lemma print_ok: "step_ok s (print_one W m s)"
proof (cases "live s")
  case True
  obtain own s' where e: "(own, s') = (if msg_Self m then isOwnEcho (msg_Kind m) (msg_Buffer m) (msg_Text m) s else (False, s))"
    by (metis surj_pair)
  have then_end: "ends s u" if "ends s' u" for u using that e by (auto split: if_splits intro: echo_then)
  have "print_one W m s = (if own \<and> \<not> hasCap_session s' ''echo-message'' then s' else fold bs_push (formatSinkMessage W m s') s')"
    using True by (simp add: print_one_def e [symmetric])
  then show ?thesis using then_end [OF quiet_ends [OF quiet_refl]] then_end [OF push_all_ends] by (auto intro: ends_ok)
qed (simp add: print_one_def ends_ok quiet_ends)

lemma changed_ok: "step_ok s (network_changed_one W n s)"
proof -
  have noted: "ends s (noteState x y s)" for x y by (rule quiet_ends) simp
  note pushed = ends_trans [OF noted push_line_ends]
  show ?thesis
    unfolding network_changed_one_def stateChanged_def Let_def prod.case
    by (intro ends_ok if_ends quiet_ends [OF quiet_refl] ends_trans [OF _ push_line_ends] noted pushed)
qed

lemma list_ok: "step_ok s (channel_list_one W items s)"
  unfolding channel_list_one_def Let_def
  by (intro ends_ok) (auto intro!: ends_trans [OF _ push_line_ends] ends_trans [OF push_line_ends ends_fold] split: prod.split)

lemma small_ok: "step_ok s (tagmsg_one tags nick buffer s)" "step_ok s (read_marker_one W buffer ts s)"
  "step_ok s (closeWithError reason s)" "step_ok s (bs_destroy s)"
  by (auto simp: tagmsg_one_def read_marker_one_def intro!: ends_ok)

section \<open>The invariant of the server\<close>

definition session_ok :: "bsession \<Rightarrow> bool" where
  "session_ok s \<longleftrightarrow> list_all whole_line (bs_out s) \<and> bs_calls s = [] \<and> (\<not> bs_registered s \<longrightarrow> bs_networkID s = [])"

definition listed :: "bserver \<Rightarrow> nat \<Rightarrow> (bsession \<Rightarrow> bool) \<Rightarrow> bool" where
  "listed sv i P \<longleftrightarrow> (\<exists>s. sv_sessions sv i = Some s \<and> live s \<and> P s)"

definition registry_ok :: "bserver \<Rightarrow> bool" where
  "registry_ok sv \<longleftrightarrow>
     (\<forall>i s. sv_sessions sv i = Some s \<longrightarrow> session_ok s)
     \<and> (\<forall>i. i \<in> set (sv_all sv) \<longleftrightarrow> listed sv i (\<lambda>s. True))
     \<and> (\<forall>u i. i \<in> set (sv_byUser sv u) \<longleftrightarrow> listed sv i (\<lambda>s. bs_userID s = u \<and> u \<noteq> []))
     \<and> (\<forall>k i. i \<in> set (sv_byUserNet sv k) \<longleftrightarrow> listed sv i (\<lambda>s. bs_userID s \<noteq> [] \<and> bs_networkID s \<noteq> [] \<and> k = reg_key (bs_userID s) (bs_networkID s)))
     \<and> distinct (sv_all sv) \<and> (\<forall>u. distinct (sv_byUser sv u)) \<and> (\<forall>k. distinct (sv_byUserNet sv k))"

lemma put_simps [simp]: "set (put i xs) = insert i (set xs)" "distinct (put i xs) = distinct xs"
  by (auto simp: put_def)

lemma reg_call_calls: "fold (reg_call i s) calls sv = fold (reg_call i s) (filter (\<lambda>c. c = CallAdd \<or> c = CallRemove) calls) sv"
proof (induction calls arbitrary: sv)
  case (Cons c calls)
  then show ?case by (cases c) (simp_all add: reg_call_def)
qed simp

lemma reg_sessions [simp]: "sv_sessions (reg_add i s sv) = sv_sessions sv" "sv_sessions (reg_remove i s sv) = sv_sessions sv"
  by (simp_all add: reg_add_def reg_remove_def Let_def)

lemma reg_calls_sessions [simp]: "sv_sessions (fold (reg_call i s) calls sv) = sv_sessions sv"
proof (induction calls arbitrary: sv)
  case (Cons c calls)
  then show ?case by (cases c) (simp_all add: reg_call_def)
qed simp

lemma session_step_sessions:
  "sv_sessions (fst (session_step i f sv)) j =
     (if j = i then map_option (\<lambda>s. (f s)\<lparr>bs_calls := []\<rparr>) (sv_sessions sv i) else sv_sessions sv j)"
  by (simp add: session_step_def Let_def split: option.split)

lemma on_sessions_sessions:
  "distinct js \<Longrightarrow> sv_sessions (on_sessions js f sv) i =
     map_option (\<lambda>s. if i \<in> set js then (f s)\<lparr>bs_calls := []\<rparr> else s) (sv_sessions sv i)"
proof (induction js arbitrary: sv)
  case Nil
  then show ?case by (simp add: on_sessions_def option.map_ident)
next
  case (Cons j js)
  then show ?case
    by (cases "i = j") (auto simp: on_sessions_def session_step_sessions option.map_ident option.map_comp comp_def cong: option.map_cong)
qed

text \<open>The three lists after a registration and after a removal.\<close>

lemma reg_add_lists:
  "sv_all (reg_add i s sv) = put i (sv_all sv)"
  "sv_byUser (reg_add i s sv) u = (if u = bs_userID s \<and> u \<noteq> [] then put i (sv_byUser sv u) else sv_byUser sv u)"
  "sv_byUserNet (reg_add i s sv) k = (if bs_userID s \<noteq> [] \<and> bs_networkID s \<noteq> [] \<and> k = reg_key (bs_userID s) (bs_networkID s)
     then put i (sv_byUserNet sv k) else sv_byUserNet sv k)"
  by (simp_all add: reg_add_def Let_def)

lemma reg_remove_lists:
  "sv_all (reg_remove i s sv) = removeAll i (sv_all sv)"
  "sv_byUser (reg_remove i s sv) u = (if u = bs_userID s \<and> u \<noteq> [] then removeAll i (sv_byUser sv u) else sv_byUser sv u)"
  "sv_byUserNet (reg_remove i s sv) k = (if bs_userID s \<noteq> [] \<and> bs_networkID s \<noteq> [] \<and> k = reg_key (bs_userID s) (bs_networkID s)
     then removeAll i (sv_byUserNet sv k) else sv_byUserNet sv k)"
  by (simp_all add: reg_remove_def Let_def)

lemma listed_update:
  "listed (sv\<lparr>sv_sessions := (sv_sessions sv)(i \<mapsto> s)\<rparr>) j P \<longleftrightarrow> (if j = i then live s \<and> P s else listed sv j P)"
  by (simp add: listed_def)

lemma listed_reg: "listed (reg_add i s sv) j P = listed sv j P" "listed (reg_remove i s sv) j P = listed sv j P"
  by (simp_all add: listed_def)

lemma session_step_registry:
  assumes ok: "registry_ok sv" and f: "\<And>s. sv_sessions sv i = Some s \<Longrightarrow> session_ok s \<Longrightarrow> step_ok s (f s)"
  shows "registry_ok (fst (session_step i f sv))"
proof (cases "sv_sessions sv i")
  case None
  then show ?thesis using ok by (simp add: session_step_def)
next
  case (Some s)
  let ?t = "(f s)\<lparr>bs_calls := []\<rparr>" and ?sv = "sv\<lparr>sv_sessions := (sv_sessions sv)(i \<mapsto> (f s)\<lparr>bs_calls := []\<rparr>)\<rparr>"
  have s: "session_ok s" using ok Some by (simp add: registry_ok_def)
  then have step: "step_ok s (f s)" using f Some by blast
  have t: "session_ok ?t" using s step
    by (auto simp: session_ok_def step_ok_def keeps_lines_def stays_def leaves_def enters_def ident_of_def live_def)
  have start: "reg_calls s = []" using s by (simp add: reg_calls_def session_ok_def)
  have eq: "fst (session_step i f sv) = fold (reg_call i ?t) (reg_calls (f s)) ?sv"
    using Some by (simp add: session_step_def Let_def reg_calls_def reg_call_calls [symmetric])
  have here: "listed sv i P \<longleftrightarrow> live s \<and> P s" for P using Some by (simp add: listed_def)
  have at_i: "i \<in> set (sv_all sv) \<longleftrightarrow> live s" "i \<in> set (sv_byUser sv u) \<longleftrightarrow> live s \<and> bs_userID s = u \<and> u \<noteq> []"
    "i \<in> set (sv_byUserNet sv k) \<longleftrightarrow> live s \<and> bs_userID s \<noteq> [] \<and> bs_networkID s \<noteq> [] \<and> k = reg_key (bs_userID s) (bs_networkID s)" for u k
    using ok here by (auto simp: registry_ok_def)
  have sess: "\<forall>j x. sv_sessions ?sv j = Some x \<longrightarrow> session_ok x" using ok t by (auto simp: registry_ok_def)
  from step consider (stays) "stays s (f s)" | (leaves) "leaves s (f s)" | (enters) "enters s (f s)" by (auto simp: step_ok_def)
  then show ?thesis
  proof cases
    case stays
    then have "fst (session_step i f sv) = ?sv" using eq start by (simp add: stays_def)
    moreover have "live ?t = live s" "bs_userID ?t = bs_userID s" "bs_networkID ?t = bs_networkID s"
      using stays by (auto simp: stays_def ident_of_def live_def)
    ultimately show ?thesis using ok sess at_i by (auto simp: registry_ok_def listed_update)
  next
    case leaves
    then have "fst (session_step i f sv) = reg_remove i ?t ?sv" using eq start by (simp add: leaves_def reg_call_def)
    moreover have "\<not> live ?t" "bs_userID ?t = bs_userID s" "bs_networkID ?t = bs_networkID s"
      using leaves by (auto simp: leaves_def ident_of_def live_def)
    ultimately show ?thesis using ok sess at_i by (auto simp: registry_ok_def listed_update listed_reg reg_remove_lists distinct_removeAll)
  next
    case enters
    then have "fst (session_step i f sv) = reg_add i ?t ?sv" using eq start by (simp add: enters_def reg_call_def)
    moreover have "\<not> live s" "live ?t" using enters by (auto simp: enters_def live_def)
    ultimately show ?thesis using ok sess at_i by (auto simp: registry_ok_def listed_update listed_reg reg_add_lists)
  qed
qed

lemma on_sessions_registry:
  assumes "registry_ok sv" "\<And>s. session_ok s \<Longrightarrow> step_ok s (f s)"
  shows "registry_ok (on_sessions js f sv)"
  using assms by (induction js arbitrary: sv) (simp_all add: on_sessions_def session_step_registry)

lemma accept_registry:
  assumes "registry_ok sv" "sv_sessions sv i = None"
  shows "registry_ok (accept_client i remote now sv)"
proof -
  have "session_ok (newSession remote now)" "\<not> live (newSession remote now)" by (simp_all add: session_ok_def newSession_def live_def)
  moreover have "\<not> listed sv i P" for P using assms by (simp add: listed_def)
  ultimately show ?thesis using assms by (auto simp: registry_ok_def accept_client_def listed_update)
qed

theorem bouncer_registry_ok: "bouncer_reach sv \<Longrightarrow> registry_ok sv"
proof (induction rule: bouncer_reach.induct)
  case bouncer_start
  then show ?case by (simp add: registry_ok_def newBouncer_def listed_def)
next
  case (bouncer_accept sv i remote now)
  then show ?case by (simp add: accept_registry)
next
  case (bouncer_line sv i W raw)
  then show ?case by (auto intro!: session_step_registry serve_line_ok simp: session_ok_def)
qed (simp_all add: session_step_registry on_sessions_registry write_turn_ok timeout_ok heartbeat_ok small_ok print_ok changed_ok list_ok
       heartbeat_tick_def bouncer_shutdown_def DisconnectUser_def broadcastPrint_def broadcastNetworkChanged_def broadcastNetworkRemoved_def
       broadcastChannelList_def broadcastTyping_def broadcastReact_def broadcastRedact_def broadcastReadMarker_def)

end
