(* ===== verification/Bouncer_Properties.thy ===== *)
theory Bouncer_Properties
  imports Bouncer_Registry Core_Properties Sasl_Properties
begin

text \<open>
  Properties of the IRC server for other clients: who gets in, which sessions a committed event reaches, what
  they are sent, and that its line format, tag values and login exchange lose nothing.
\<close>

section \<open>A concrete server\<close>

definition ascii :: unicode where
  "ascii = \<lparr>u_upper = map upper_byte, u_lower = map lower_byte, u_letter = (\<lambda>_. False), u_digit = (\<lambda>_. False)\<rparr>"

definition sample_tenant :: tenant where "sample_tenant = \<lparr>tn_Engine = sample_engine, tn_History = None, tn_Prefs = None\<rparr>"

definition sample_hub :: hub where
  "sample_hub = \<lparr>hb_AuthEnabled = True, hb_Login = (\<lambda>u p. if u = ''ann'' \<and> p = ''secret'' then Some ''u1'' else None),
     hb_Tenant = (\<lambda>u. if u = ''u1'' then Some sample_tenant else None), hb_Users = [''u1'']\<rparr>"

definition sample_world :: world where
  "sample_world = \<lparr>wd_hub = sample_hub, wd_env = sample_env, wd_unicode = ascii, wd_now = 0, wd_PasswordHash = [], wd_bcrypt = (\<lambda>_ _. False),
     wd_MaxPlayback = 0, wd_members = (\<lambda>_. []), wd_parse_time = (\<lambda>_ _. None)\<rparr>"

definition sample_run :: client_run where
  "sample_run = map (Pair sample_world) [''PASS ann/libera:secret'', ''NICK ann'', ''USER ann 0 * :Ann'']"

definition sample_server :: bserver where
  "sample_server = fold (\<lambda>(W, raw) sv. fst (session_step 4 (serve_line W raw) sv)) sample_run (accept_client 4 ''10.0.0.1:5000'' 0 newBouncer)"

lemma sample_server_reach: "bouncer_reach sample_server"
proof -
  have lines: "bouncer_reach sv \<Longrightarrow> bouncer_reach (fold (\<lambda>(W, raw) sv. fst (session_step 4 (serve_line W raw) sv)) run sv)" for run sv
    by (induction run arbitrary: sv) (auto intro: bouncer_line)
  show ?thesis
    unfolding sample_server_def by (intro lines bouncer_accept bouncer_start) (simp add: newBouncer_def)
qed

section \<open>Who gets in\<close>

text \<open>
  C5. A session is attached to an account only if, at some line of what its client sent, that account existed,
  had IRC access switched on and owned the network, and either a SASL response put together from AUTHENTICATE
  lines of this connection, or the last PASS with the last USER, carried credentials accepted for that very
  account; without accounts and without a password only a client on the machine itself gets in.\<close>

theorem attached_only_with_credentials:
  assumes "bs_registered (serve_run remote now run)"
  shows "logged_in remote run (bs_userID (serve_run remote now run)) (bs_networkID (serve_run remote now run))"
  using run_accounted [of remote run now] assms by (simp add: accounted_def)

theorem attached_only_with_credentials_witness:
  "logged_in ''10.0.0.1:5000'' sample_run (bs_userID (serve_run ''10.0.0.1:5000'' 0 sample_run)) (bs_networkID (serve_run ''10.0.0.1:5000'' 0 sample_run))"
  by (rule attached_only_with_credentials) code_simp

section \<open>The registry\<close>

lemma reg_key_inj: "CHR '':'' \<notin> set u \<Longrightarrow> CHR '':'' \<notin> set v \<Longrightarrow> reg_key u n = reg_key v k \<longleftrightarrow> u = v \<and> n = k"
  unfolding reg_key_def using str_cut_append [of "CHR '':''" u n] str_cut_append [of "CHR '':''" v k]
  by (metis append_Cons append_Nil fst_conv snd_conv)

definition attached :: "string \<Rightarrow> string \<Rightarrow> bsession \<Rightarrow> bool" where
  "attached u net s \<longleftrightarrow> live s \<and> bs_userID s = u \<and> bs_networkID s = net"

definition plain_users :: "bserver \<Rightarrow> bool" where
  "plain_users sv \<longleftrightarrow> (\<forall>i s. sv_sessions sv i = Some s \<longrightarrow> CHR '':'' \<notin> set (bs_userID s))"

lemma sessionsFor_exact:
  assumes "bouncer_reach sv" "plain_users sv" "CHR '':'' \<notin> set u" "u \<noteq> []" "net \<noteq> []"
  shows "i \<in> set (sessionsFor u net sv) \<longleftrightarrow> (\<exists>s. sv_sessions sv i = Some s \<and> attached u net s)"
  using bouncer_registry_ok [OF assms(1)] assms(2-5) reg_key_inj [OF assms(3)]
  by (auto simp: registry_ok_def sessionsFor_def listed_def attached_def plain_users_def)


lemma sample_users: "plain_users sample_server"
proof -
  have "sv_sessions sample_server i = (if i = 4 then sv_sessions sample_server 4 else None)" for i
    by (simp add: sample_server_def sample_run_def session_step_sessions newBouncer_def accept_client_def)
  moreover have "CHR '':'' \<notin> set (bs_userID (the (sv_sessions sample_server 4)))" by code_simp
  ultimately show ?thesis unfolding plain_users_def by (metis option.sel option.distinct(1))
qed


section \<open>What a session is sent\<close>

text \<open>
  C14. Whatever a client, a network or a plugin puts into it, what waits in the queue of a session is whole lines:
  each ends in CR LF and has no CR, LF or NUL before that; and what one turn of the writer puts on the wire is a
  sequence of such lines, whose rest stays queued in order.\<close>

theorem clients_get_whole_lines:
  assumes "bouncer_reach sv" "sv_sessions sv i = Some s"
  shows "list_all whole_line (bs_out s)
    \<and> (\<exists>ls. list_all whole_line ls \<and> fst (write_turn s) = concat ls \<and> ls @ bs_out (snd (write_turn s)) = bs_out s)"
proof -
  have whole: "list_all whole_line (bs_out s)" using bouncer_registry_ok [OF assms(1)] assms(2) by (simp add: registry_ok_def session_ok_def)
  obtain k where "gather 0 (bs_out s) = (concat (take k (bs_out s)), drop k (bs_out s))" using gather_split by blast
  then have "\<exists>k. fst (write_turn s) = concat (take k (bs_out s)) \<and> bs_out (snd (write_turn s)) = drop k (bs_out s)"
    by (cases "bs_closed s") (auto simp: write_turn_def intro: exI [of _ "length (bs_out s)"])
  then show ?thesis using whole by (metis append_take_drop_id list_all_append)
qed

theorem clients_get_whole_lines_witness:
  "\<exists>s. sv_sessions sample_server 4 = Some s \<and> 4 < length (bs_out s) \<and> list_all whole_line (bs_out s)"
proof -
  have some: "sv_sessions sample_server 4 \<noteq> None" "4 < length (bs_out (the (sv_sessions sample_server 4)))" by code_simp+
  then obtain s where "sv_sessions sample_server 4 = Some s" by blast
  then show ?thesis using some clients_get_whole_lines [OF sample_server_reach] by simp
qed

text \<open>
  C38. A committed message is printed to exactly the live sessions attached to its user and network; every other
  session of the server is left as it was.\<close>

theorem message_reaches_exactly_its_sessions:
  assumes "bouncer_reach sv" "plain_users sv" "CHR '':'' \<notin> set u" "u \<noteq> []" "msg_Network m \<noteq> []"
  shows "sv_sessions (broadcastPrint W u m sv) i =
    map_option (\<lambda>s. if attached u (msg_Network m) s then (print_one W m s)\<lparr>bs_calls := []\<rparr> else s) (sv_sessions sv i)"
proof -
  have "distinct (sessionsFor u (msg_Network m) sv)" using bouncer_registry_ok [OF assms(1)] by (simp add: registry_ok_def sessionsFor_def)
  then show ?thesis
    using sessionsFor_exact [OF assms] by (cases "sv_sessions sv i") (simp_all add: broadcastPrint_def on_sessions_sessions)
qed

definition sample_message :: message where
  "sample_message = \<lparr>msg_ID = ''m1'', msg_Seq = 0, msg_Network = ''libera'', msg_Buffer = ''#go'', msg_Time = 0, msg_From = ''bob'', msg_Account = [],
     msg_Kind = MsgPrivmsg, msg_Text = ''hi all'', msg_Tags = [], msg_Self = False, msg_Highlight = False\<rparr>"

theorem message_reaches_exactly_its_sessions_witness:
  "sv_sessions (broadcastPrint sample_world ''u1'' sample_message sample_server) 4 =
    map_option (\<lambda>s. if attached ''u1'' ''libera'' s then (print_one sample_world sample_message s)\<lparr>bs_calls := []\<rparr> else s) (sv_sessions sample_server 4)
   \<and> last (bs_out (the (sv_sessions (broadcastPrint sample_world ''u1'' sample_message sample_server) 4)))
     = '':bob!stugan@stugan.bouncer PRIVMSG #go :hi all'' @ [CHR 0x0D, CHR 0x0A]"
proof -
  have "last (bs_out (the (sv_sessions (broadcastPrint sample_world ''u1'' sample_message sample_server) 4)))
     = '':bob!stugan@stugan.bouncer PRIVMSG #go :hi all'' @ [CHR 0x0D, CHR 0x0A]" by code_simp
  then show ?thesis
    using message_reaches_exactly_its_sessions [OF sample_server_reach sample_users, of "''u1''" sample_message sample_world 4] by (simp add: sample_message_def)
qed

end
