(* ===== verification/Bouncer_Wire.thy ===== *)
theory Bouncer_Wire
  imports Bouncer_Properties "HOL-Library.Multiset"
begin

text \<open>
  Round trips of the IRC server's line layer: tag values, whole lines, the names of a channel, a SASL login sent
  by this program's own client half, and the echo of what a client sent.
\<close>

section \<open>Tag values\<close>

definition escape_pieces :: "string \<Rightarrow> string list" where
  "escape_pieces r = (if escape_rune r = r then [r] else map (\<lambda>c. [c]) (escape_rune r))"

lemma escape_pieces_concat: "concat (escape_pieces r) = escape_rune r"
  by (simp add: escape_pieces_def)

lemma escape_pieces_runes: "is_rune r \<Longrightarrow> q \<in> set (escape_pieces r) \<Longrightarrow> is_rune q"
  by (auto simp: escape_pieces_def escape_rune_def is_rune_def backslash_def split: if_splits)

lemma unescape_pieces:
  "unescape_runes (escape_pieces r @ rs) False = r @ unescape_runes rs False"
  by (auto simp: escape_pieces_def escape_rune_def unescape_rune_def backslash_def)

lemma unescape_tag_escape: "UnescapeTagValue (EscapeTagValue v) = concat (runes v)"
proof -
  have "unescape_runes (concat (map escape_pieces rs)) False = concat rs" for rs
    by (induction rs) (simp_all add: unescape_pieces)
  moreover have "runes (concat (concat (map escape_pieces (runes v)))) = concat (map escape_pieces (runes v))"
    by (rule runes_concat) (auto intro: escape_pieces_runes runes_are_runes)
  moreover have "concat (concat (map escape_pieces rs)) = concat (map escape_rune rs)" for rs
    by (induction rs) (simp_all add: escape_pieces_concat)
  ultimately show ?thesis by (simp add: UnescapeTagValue_def EscapeTagValue_def)
qed

lemma concat_runes: "valid_string v \<Longrightarrow> concat (runes v) = v"
proof (induction v rule: runes.induct)
  case (1 s)
  then show ?case
    by (subst runes.simps) (auto simp: valid_string.simps [of s] split: option.splits)
qed

lemma rune_with_byte: "is_rune r \<Longrightarrow> c \<in> set r \<Longrightarrow> of_char c < (128::nat) \<Longrightarrow> r = [c]"
proof (cases "length r = Suc 0")
  case False
  assume "is_rune r" "c \<in> set r" "of_char c < (128::nat)"
  with False show ?thesis using rune_bytes_high [of r "length r"] by (simp add: is_rune_def)
qed (auto simp: length_Suc_conv)

lemma escape_separators:
  assumes "c \<in> {CHR '';'', CHR '' '', CHR 0x0D, CHR 0x0A}"
  shows "c \<notin> set (EscapeTagValue v)"
proof
  assume "c \<in> set (EscapeTagValue v)"
  then obtain r where r: "is_rune r" "c \<in> set (escape_rune r)" by (auto simp: EscapeTagValue_def dest: runes_are_runes)
  moreover have "of_char c < (128::nat)" using assms by auto
  ultimately have "escape_rune r = r \<Longrightarrow> r = [c]" using rune_with_byte by simp
  then show False using r(2) assms by (auto simp: escape_rune_def backslash_def split: if_splits)
qed

text \<open>
  A tag value comes back from its escaped form, and the escaped form has none of the bytes that would end the
  value, the tags or the line.\<close>

theorem tag_values_round_trip:
  assumes "valid_string v"
  shows "UnescapeTagValue (EscapeTagValue v) = v \<and> set (EscapeTagValue v) \<inter> {CHR '';'', CHR '' '', CHR 0x0D, CHR 0x0A} = {}"
  using unescape_tag_escape [of v] concat_runes [OF assms] escape_separators [of _ v] by auto

theorem tag_values_round_trip_witness:
  "UnescapeTagValue (EscapeTagValue ''a; b'') = ''a; b'' \<and> set (EscapeTagValue ''a; b'') \<inter> {CHR '';'', CHR '' '', CHR 0x0D, CHR 0x0A} = {}"
  by (rule tag_values_round_trip) code_simp

section \<open>Lines\<close>

text \<open>A word has no white space anywhere, so \<^verbatim>\<open>strings.Fields\<close> keeps it whole.\<close>

definition word_text :: "string \<Rightarrow> bool" where
  "word_text w \<longleftrightarrow> w \<noteq> [] \<and> list_all (\<lambda>i. space_width (drop i w) = 0) [0..<length w]"

lemma space_width_sep: "x \<noteq> [] \<Longrightarrow> space_width (x @ CHR '' '' # y) = space_width x"
  by (cases x) (auto split: list.splits simp: append_eq_Cons_conv)

lemma word_suffix: "list_all (\<lambda>i. space_width (drop i (x # w)) = 0) [0..<length (x # w)]
    \<longleftrightarrow> space_width (x # w) = 0 \<and> list_all (\<lambda>i. space_width (drop i w) = 0) [0..<length w]"
proof -
  have "[0..<length (x # w)] = 0 # map Suc [0..<length w]" by (simp add: map_Suc_upt upt_conv_Cons del: upt_Suc)
  then show ?thesis by (simp add: list.pred_map comp_def del: upt_Suc)
qed

lemma fields_word:
  assumes "list_all (\<lambda>i. space_width (drop i w) = 0) [0..<length w]"
  shows "fields_from acc w = (if acc = [] \<and> w = [] then [] else [rev acc @ w])"
    "fields_from acc (w @ CHR '' '' # rest) = (if acc = [] \<and> w = [] then [] else [rev acc @ w]) @ fields_from [] rest"
  using assms
proof (induction w arbitrary: acc)
  case Nil
  { case 1 show ?case by (simp add: fields_from.simps) next case 2 show ?case by (subst fields_from.simps) simp }
next
  case (Cons x w)
  { case 1
    then show ?case using Cons(1) unfolding word_suffix by (subst fields_from.simps) simp
  next
    case 2
    then have "space_width ((x # w) @ CHR '' '' # rest) = 0" unfolding word_suffix by (subst space_width_sep) simp_all
    then show ?case using 2 Cons(2) unfolding word_suffix by (subst fields_from.simps) simp }
qed

lemma fields_words: "list_all word_text (w # ws) \<Longrightarrow> Core_Command.fields (w @ concat (map (\<lambda>p. '' '' @ p) ws)) = w # ws"
proof (induction ws arbitrary: w)
  case Nil
  then show ?case by (auto simp: Core_Command.fields_def word_text_def fields_word)
next
  case (Cons v ws)
  then show ?case using Cons(1) [of v] by (auto simp: Core_Command.fields_def word_text_def fields_word)
qed

lemma word_bytes:
  assumes "word_text w" "c \<in> set w"
  shows "c \<notin> {CHR '' '', CHR 0x0D, CHR 0x0A}"
proof
  assume c: "c \<in> {CHR '' '', CHR 0x0D, CHR 0x0A}"
  obtain i where i: "i < length w" "w ! i = c" using assms(2) by (auto simp: in_set_conv_nth)
  then have "space_width (drop i w) = 0" using assms(1) by (simp add: word_text_def list_all_iff)
  moreover have "drop i w = c # drop (Suc i) w" using i by (simp add: Cons_nth_drop_Suc [symmetric])
  ultimately show False using c by auto
qed

lemma cut_trailing_other: "CHR '' '' \<notin> set x \<Longrightarrow> cut_trailing (x @ s) = apfst ((@) x) (cut_trailing s)"
proof (induction x)
  case (Cons c x)
  then show ?case by (cases "x @ s") (auto simp: apfst_def map_prod_def split_def)
qed (simp add: apfst_def map_prod_def split_def)

lemma cut_trailing_param:
  assumes "CHR '' '' \<notin> set p" "p \<noteq> []" "hd p \<noteq> CHR '':''"
  shows "cut_trailing (CHR '' '' # p @ s) = apfst ((@) (CHR '' '' # p)) (cut_trailing s)"
  using assms cut_trailing_other [of p s] by (cases p) (auto simp: apfst_def map_prod_def split_def)

definition middle :: "string \<Rightarrow> bool" where
  "middle p \<longleftrightarrow> word_text p \<and> hd p \<noteq> CHR '':'' \<and> CHR 0x00 \<notin> set p"

definition final :: "string \<Rightarrow> bool" where
  "final p \<longleftrightarrow> \<not> has_prefix p '':'' \<and> (p = [] \<or> CHR '' '' \<in> set p \<or> word_text p) \<and> set p \<inter> {CHR 0x0D, CHR 0x0A, CHR 0x00} = {}"

definition sendable :: "string \<Rightarrow> string \<Rightarrow> string \<Rightarrow> string list \<Rightarrow> bool" where
  "sendable tags pre cmd ps \<longleftrightarrow> CHR '' '' \<notin> set tags \<and> CHR '' '' \<notin> set pre \<and> middle cmd \<and> hd cmd \<noteq> CHR ''@''
     \<and> (ps = [] \<or> list_all middle (butlast ps) \<and> final (last ps))"

lemma append_single [simp]: "(@) [c] = (#) c"
  by (rule ext) simp

definition words_line :: "string \<Rightarrow> string list \<Rightarrow> string" where
  "words_line w ws = w @ concat (map (\<lambda>p. '' '' @ p) ws)"

lemma cut_trailing_words:
  assumes "middle w" "list_all middle ws"
  shows "cut_trailing (words_line w ws @ s) = apfst ((@) (words_line w ws)) (cut_trailing s)"
proof -
  have params: "list_all middle ws \<Longrightarrow> cut_trailing (concat (map (\<lambda>p. '' '' @ p) ws) @ s)
      = apfst ((@) (concat (map (\<lambda>p. '' '' @ p) ws))) (cut_trailing s)" for ws
  proof (induction ws)
    case (Cons p ws)
    then have "CHR '' '' \<notin> set p" "p \<noteq> []" "hd p \<noteq> CHR '':''" using word_bytes [of p] by (auto simp: middle_def word_text_def)
    from cut_trailing_param [OF this] Cons show ?case by (simp add: apfst_def map_prod_def split_def)
  qed (simp add: apfst_def map_prod_def split_def)
  have "CHR '' '' \<notin> set w" using assms(1) word_bytes by (auto simp: middle_def)
  from cut_trailing_other [OF this] params [OF assms(2)] show ?thesis
    by (simp add: words_line_def apfst_def map_prod_def split_def)
qed

lemma final_word: "final p \<Longrightarrow> CHR '' '' \<notin> set p \<Longrightarrow> p \<noteq> [] \<Longrightarrow> middle p"
  by (cases p) (auto simp: final_def middle_def has_prefix_def)

text \<open>A command and its parameters as \<open>FormatLine\<close> writes them.\<close>

definition command_line :: "string \<Rightarrow> string list \<Rightarrow> string" where
  "command_line cmd ps = cmd @ (if ps = [] then [] else concat (map (\<lambda>p. '' '' @ p) (butlast ps)) @ '' '' @ last_param (last ps))"

lemma command_line_parts:
  assumes "sendable tags pre cmd ps"
  shows "\<exists>ws t. command_line cmd ps = words_line cmd ws @ (case t of Some l \<Rightarrow> '' :'' @ l | None \<Rightarrow> [])
     \<and> list_all middle (cmd # ws) \<and> ps = ws @ (case t of Some l \<Rightarrow> [l] | None \<Rightarrow> [])"
proof (cases "ps = []")
  case True
  then show ?thesis using assms by (intro exI [of _ "[]"] exI [of _ None]) (simp add: command_line_def words_line_def sendable_def)
next
  case False
  then have ok: "middle cmd" "list_all middle (butlast ps)" "final (last ps)" using assms by (auto simp: sendable_def)
  show ?thesis
  proof (cases "last ps = [] \<or> CHR '' '' \<in> set (last ps)")
    case True
    then show ?thesis using ok False
      by (intro exI [of _ "butlast ps"] exI [of _ "Some (last ps)"]) (auto simp: command_line_def words_line_def last_param_def final_def)
  next
    case words: False
    then have "middle (last ps)" using final_word ok by blast
    then have "list_all middle ps" using ok(2) False by (cases ps rule: rev_cases) auto
    moreover have "concat (map (\<lambda>p. '' '' @ p) ps) = concat (map (\<lambda>p. '' '' @ p) (butlast ps)) @ '' '' @ last ps"
      using False by (cases ps rule: rev_cases) auto
    ultimately show ?thesis using ok False words
      by (intro exI [of _ ps] exI [of _ None]) (auto simp: command_line_def words_line_def last_param_def final_def)
  qed
qed

lemma parse_command_line:
  assumes "sendable tags pre cmd ps"
  shows "parse_command U rawTags tg (command_line cmd ps)
    = Some \<lparr>cm_RawTags = rawTags, cm_Tags = tg, cm_Command = u_upper U cmd, cm_Params = ps\<rparr>"
proof -
  obtain ws t where wt: "command_line cmd ps = words_line cmd ws @ (case t of Some l \<Rightarrow> '' :'' @ l | None \<Rightarrow> [])"
    "list_all middle (cmd # ws)" "ps = ws @ (case t of Some l \<Rightarrow> [l] | None \<Rightarrow> [])"
    using command_line_parts [OF assms] by blast
  have cut: "cut_trailing (command_line cmd ps) = (words_line cmd ws, t)"
    unfolding wt(1) using cut_trailing_words [of cmd ws] cut_trailing_words [of cmd ws "[]"] wt(2) by (cases t) (simp_all add: apfst_def map_prod_def)
  have words: "Core_Command.fields (words_line cmd ws) = cmd # ws"
    unfolding words_line_def by (rule fields_words) (use wt(2) in \<open>auto simp: middle_def list_all_iff\<close>)
  have "command_line cmd ps \<noteq> []" using wt by (auto simp: words_line_def middle_def word_text_def)
  then show ?thesis using cut words wt(3) by (simp add: parse_command_def)
qed

lemma command_line_bytes:
  assumes "sendable tags pre cmd ps"
  shows "set (command_line cmd ps) \<inter> {CHR 0x0D, CHR 0x0A, CHR 0x00} = {}" "command_line cmd ps \<noteq> []"
    "hd (command_line cmd ps) \<notin> {CHR '' '', CHR '':'', CHR ''@''}"
proof -
  have mid: "middle p \<Longrightarrow> set p \<inter> {CHR 0x0D, CHR 0x0A, CHR 0x00} = {} \<and> CHR '' '' \<notin> set p" for p
    using word_bytes [of p] by (auto simp: middle_def)
  have cmd: "middle cmd" "cmd \<noteq> []" "hd cmd \<noteq> CHR ''@''" using assms by (auto simp: sendable_def middle_def word_text_def)
  then show "command_line cmd ps \<noteq> []" "hd (command_line cmd ps) \<notin> {CHR '' '', CHR '':'', CHR ''@''}"
    using mid [OF cmd(1)] by (cases cmd; auto simp: command_line_def middle_def)+
  show "set (command_line cmd ps) \<inter> {CHR 0x0D, CHR 0x0A, CHR 0x00} = {}"
  proof (cases "ps = []")
    case False
    have "set (last_param (last ps)) \<inter> {CHR 0x0D, CHR 0x0A, CHR 0x00} = {}"
      using assms False by (auto simp: sendable_def final_def last_param_def)
    moreover have "set (concat (map (\<lambda>p. '' '' @ p) ws)) \<inter> {CHR 0x0D, CHR 0x0A, CHR 0x00} = {}" if "list_all middle ws" for ws
      using that mid by (induction ws) auto
    ultimately show ?thesis using mid [OF cmd(1)] assms False by (auto simp: command_line_def sendable_def)
  qed (use mid [OF cmd(1)] in \<open>simp add: command_line_def\<close>)
qed

lemma lead_word_line: "CHR '' '' \<notin> set w \<Longrightarrow> x \<noteq> CHR '' '' \<Longrightarrow> rest \<noteq> [] \<Longrightarrow> hd rest \<noteq> CHR '' ''
    \<Longrightarrow> lead_word (x # w @ CHR '' '' # rest) = Some (w, rest)"
  using index_byte_append [of "CHR '' ''" "x # w" rest] by (cases rest) (auto simp: lead_word_def trim_left_def)

lemma trim_right_last: "s \<noteq> [] \<Longrightarrow> last s \<notin> set cs \<Longrightarrow> trim_right s cs = s"
  by (cases s rule: rev_cases) (auto simp: trim_right_def)

text \<open>
  C40. A line parses back to what it was written from: its command, its parameters, whatever spaces the last one
  has, and its client tags, with or without a prefix; provided the command and the other parameters are words, no
  parameter starts with a colon and none has the bytes that end a line.\<close>

theorem lines_round_trip:
  assumes "sendable tags pre cmd ps"
  shows "ParseLine U (FormatLine tags pre cmd ps) =
    (let (rawTags, tg) = (if tags = [] then ([], Map.empty) else client_tags tags)
     in Some \<lparr>cm_RawTags = rawTags, cm_Tags = tg, cm_Command = u_upper U cmd, cm_Params = ps\<rparr>)"
proof -
  let ?c = "command_line cmd ps"
  define body where "body = (if pre = [] then ?c else CHR '':'' # pre @ CHR '' '' # ?c)"
  note bytes = command_line_bytes [OF assms]
  have free: "CHR '' '' \<notin> set tags" "CHR '' '' \<notin> set pre" using assms by (auto simp: sendable_def)
  have line: "FormatLine tags pre cmd ps = (if tags = [] then body else CHR ''@'' # tags @ CHR '' '' # body)"
    by (simp add: FormatLine_def body_def command_line_def)
  have ends: "s = x @ ?c \<Longrightarrow> trim_right s [CHR 0x0D, CHR 0x0A, CHR 0x00] = s" for s x
    using bytes(2) last_in_set [OF bytes(2)] disjoint_iff [THEN iffD1, OF bytes(1)] by (intro trim_right_last) auto
  have trimmed: "trim_right (FormatLine tags pre cmd ps) [CHR 0x0D, CHR 0x0A, CHR 0x00] = FormatLine tags pre cmd ps"
    unfolding line body_def using ends [of _ "[]"] ends [of _ "CHR '':'' # pre @ '' ''"] ends [of _ "CHR ''@'' # tags @ '' ''"]
      ends [of _ "CHR ''@'' # tags @ '' :'' @ pre @ '' ''"] by auto
  have start: "body \<noteq> []" "hd body \<noteq> CHR '' ''" "hd body \<noteq> CHR ''@''" using bytes(2,3) by (auto simp: body_def)
  have strip: "strip_prefix U rt tg body = Some \<lparr>cm_RawTags = rt, cm_Tags = tg, cm_Command = u_upper U cmd, cm_Params = ps\<rparr>" for rt tg
  proof (cases "pre = []")
    case True
    then have "\<not> has_prefix body '':''" using bytes(2,3) by (cases ?c) (auto simp: body_def has_prefix_def)
    then show ?thesis using True parse_command_line [OF assms] by (simp add: strip_prefix_def body_def)
  next
    case False
    then have "lead_word body = Some (pre, ?c)" using lead_word_line [OF free(2)] bytes(2,3) by (simp add: body_def)
    then show ?thesis using False parse_command_line [OF assms] by (simp add: strip_prefix_def body_def has_prefix_def)
  qed
  show ?thesis
  proof (cases "tags = []")
    case True
    moreover have "\<not> has_prefix body ''@''" using start by (cases body) (auto simp: has_prefix_def)
    ultimately show ?thesis using trimmed [unfolded line] strip start(1) unfolding ParseLine_def line Let_def by simp
  next
    case False
    then have "lead_word (CHR ''@'' # tags @ CHR '' '' # body) = Some (tags, body)" using lead_word_line [OF free(1)] start by simp
    then show ?thesis using False strip unfolding ParseLine_def trimmed by (simp add: line has_prefix_def split_def)
  qed
qed

theorem lines_round_trip_witness:
  "ParseLine ascii (FormatLine [] ''bob!b@h'' ''PRIVMSG'' [''#go'', ''hi all :)'']) =
    Some \<lparr>cm_RawTags = [], cm_Tags = Map.empty, cm_Command = ''PRIVMSG'', cm_Params = [''#go'', ''hi all :)'']\<rparr>"
proof -
  have "sendable [] ''bob!b@h'' ''PRIVMSG'' [''#go'', ''hi all :)'']" by code_simp
  moreover have "u_upper ascii ''PRIVMSG'' = ''PRIVMSG''" by code_simp
  ultimately show ?thesis using lines_round_trip [of "[]" "''bob!b@h''" "''PRIVMSG''" "[''#go'', ''hi all :)'']" ascii] by simp
qed

section \<open>The names of a channel\<close>

definition grow :: "string list \<Rightarrow> string \<Rightarrow> int" where
  "grow chunk x = int (length x) + (if chunk \<noteq> [] then 1 else 0)"

lemma names_chunks_step:
  "names_chunks budget (x # names) chunk len =
     (if budget < len + grow chunk x \<and> chunk \<noteq> [] then chunk # names_chunks budget names [x] (int (length x))
      else names_chunks budget names (chunk @ [x]) (len + grow chunk x))"
  unfolding names_chunks.simps Let_def grow_def by (rule refl)

lemma names_chunks_spec:
  "concat (names_chunks budget names chunk len) = chunk @ names \<and> list_all (\<lambda>c. c \<noteq> []) (names_chunks budget names chunk len)"
proof (induction names arbitrary: chunk len)
  case (Cons x names)
  show ?case
  proof (cases "budget < len + grow chunk x \<and> chunk \<noteq> []")
    case True
    then show ?thesis using Cons [of "[x]" "int (length x)"] unfolding names_chunks_step if_P [OF True] by simp
  next
    case False
    then show ?thesis using Cons [of "chunk @ [x]" "len + grow chunk x"] unfolding names_chunks_step if_not_P [OF False] by simp
  qed
qed simp

lemma join_snoc: "length (join_with (chunk @ [x]) '' '') = length (join_with chunk '' '') + length x + (if chunk \<noteq> [] then 1 else 0)"
  by (induction chunk "'' ''" rule: join_with.induct) auto

lemma names_chunks_length:
  assumes "list_all (\<lambda>n. int (length n) \<le> budget) names" "len = int (length (join_with chunk '' ''))" "len \<le> budget"
  shows "list_all (\<lambda>c. int (length (join_with c '' '')) \<le> budget) (names_chunks budget names chunk len)"
  using assms
proof (induction names arbitrary: chunk len)
  case Nil
  then show ?case by simp
next
  case (Cons x names)
  have grown: "len + grow chunk x = int (length (join_with (chunk @ [x]) '' ''))" using Cons(3) by (simp add: join_snoc grow_def)
  have x: "int (length x) \<le> budget" "list_all (\<lambda>n. int (length n) \<le> budget) names" using Cons(2) by simp_all
  show ?case
  proof (cases "budget < len + grow chunk x \<and> chunk \<noteq> []")
    case True
    have "int (length x) = int (length (join_with [x] '' ''))" by simp
    from Cons(1) [OF x(2) this x(1)] Cons(3,4) show ?thesis unfolding names_chunks_step if_P [OF True] by simp
  next
    case False
    have "len + grow chunk x \<le> budget"
    proof (cases "chunk = []")
      case True
      then show ?thesis using x(1) Cons(3) by (simp add: grow_def)
    next
      case chunk: False
      then show ?thesis using False by simp
    qed
    from Cons(1) [OF x(2) grown this] show ?thesis unfolding names_chunks_step if_not_P [OF False] .
  qed
qed

definition names_budget :: "string \<Rightarrow> string \<Rightarrow> int" where
  "names_budget nick channel = max 64 (480 - int (length (names_base nick channel)))"

text \<open>
  The NAMES reply lists every member once and in order: its lines but the last are the base of the reply
  followed by non-empty groups of names that together are all the names; when no name alone is over the budget
  each line has at most 480 bytes, or 64 past a base so long that less would remain.\<close>

theorem names_reply_lists_every_member:
  assumes "list_all (\<lambda>n. int (length n) \<le> names_budget nick channel) names"
  shows "\<exists>groups. BuildNamesLines nick channel names = map (\<lambda>g. names_base nick channel @ join_with g '' '') groups
        @ ['':'' @ serverName @ '' 366 '' @ nick @ '' '' @ channel @ '' :End of /NAMES list.'']
     \<and> concat groups = names \<and> [] \<notin> set groups
     \<and> (\<forall>g \<in> set groups. int (length (names_base nick channel @ join_with g '' ''))
          \<le> max 480 (int (length (names_base nick channel)) + 64))"
proof -
  let ?gs = "names_chunks (names_budget nick channel) names [] 0"
  have "\<forall>g \<in> set ?gs. int (length (join_with g '' '')) \<le> names_budget nick channel"
    using names_chunks_length [OF assms, of 0 "[]"] by (simp add: list_all_iff names_budget_def)
  then show ?thesis
    using names_chunks_spec [of "names_budget nick channel" names "[]" 0]
    by (intro exI [of _ ?gs]) (auto simp: BuildNamesLines_def Let_def names_budget_def list_all_iff)
qed

theorem names_reply_lists_every_member_witness:
  "\<exists>groups. BuildNamesLines ''ann'' ''#go'' [''@bob'', ''ann''] = map (\<lambda>g. names_base ''ann'' ''#go'' @ join_with g '' '') groups
        @ ['':'' @ serverName @ '' 366 '' @ ''ann'' @ '' '' @ ''#go'' @ '' :End of /NAMES list.'']
     \<and> concat groups = [''@bob'', ''ann''] \<and> [] \<notin> set groups
     \<and> (\<forall>g \<in> set groups. int (length (names_base ''ann'' ''#go'' @ join_with g '' '')) \<le> max 480 (int (length (names_base ''ann'' ''#go'')) + 64))"
  by (rule names_reply_lists_every_member) code_simp

section \<open>Echoes\<close>

definition sent_as :: "string \<Rightarrow> string \<Rightarrow> msgKind \<times> string" where
  "sent_as cmd t = (case action_body t of Some body \<Rightarrow> (MsgAction, body)
     | None \<Rightarrow> (if cmd = ''NOTICE'' then MsgNotice else MsgPrivmsg, t))"

lemma consume_echo_spec:
  "key \<in> fst ` set es \<Longrightarrow> fst (consume_echo key es) \<and> add_mset key (mset (map fst (snd (consume_echo key es)))) = mset (map fst es)"
  by (induction es) (auto simp: split_def Let_def)

lemma send_to_state:
  assumes "trim_space target \<noteq> []"
  shows "\<exists>b t. send_to W cmd tx target s =
    input_to b t (registerEcho W (fst (sent_as cmd tx)) (trim_space target) (snd (sent_as cmd tx)) s)"
  using assms by (auto simp: send_to_def sent_as_def Let_def split: option.split)

text \<open>
  C39. What a client without the echo-message capability sent is not sent back to it when the core commits it: the
  committed line of the same kind, target (up to case) and text adds nothing to the session's queue, and uses up
  exactly the one echo that sending it had announced.\<close>

theorem own_message_is_not_echoed:
  assumes "live s" "\<not> hasCap_session s ''echo-message''" "trim_space target \<noteq> []" "length (bs_pendingEcho s) < 200"
    and "msg_Self m" "msg_Kind m = fst (sent_as cmd tx)" "msg_Text m = snd (sent_as cmd tx)" "FoldIRC (msg_Buffer m) = FoldIRC (trim_space target)"
  shows "bs_out (print_one W' m (send_to W cmd tx target s)) = bs_out s
    \<and> mset (map fst (bs_pendingEcho (print_one W' m (send_to W cmd tx target s))))
       = mset (map fst (filter (\<lambda>e. wd_now W - 30 * 10 ^ 9 < snd e) (bs_pendingEcho s)))"
proof -
  let ?key = "echo_key (msg_Kind m) (msg_Buffer m) (msg_Text m)"
  let ?active = "filter (\<lambda>e. wd_now W - 30 * 10 ^ 9 < snd e) (bs_pendingEcho s)" and ?es = "\<lambda>es. snd (consume_echo (echo_key (msg_Kind m) (msg_Buffer m) (msg_Text m)) es)"
  let ?sent = "send_to W cmd tx target s"
  obtain b t where "?sent = input_to b t (registerEcho W (fst (sent_as cmd tx)) (trim_space target) (snd (sent_as cmd tx)) s)"
    using send_to_state [OF assms(3)] by blast
  moreover have "echo_key (fst (sent_as cmd tx)) (trim_space target) (snd (sent_as cmd tx)) = ?key" using assms(6-8) by (simp add: echo_key_def)
  moreover have "length (?active @ [(?key, wd_now W)]) \<le> 200" using le_less_trans [OF length_filter_le assms(4)] by (simp only: length_append list.size Suc_leI add_0_right add_Suc_right One_nat_def)
  ultimately have sent: "bs_pendingEcho ?sent = ?active @ [(?key, wd_now W)]" "bs_out ?sent = bs_out s" "live ?sent" "\<not> hasCap_session ?sent ''echo-message''"
    using assms(1,2) by (simp_all add: input_to_def bs_call_def registerEcho_def Let_def live_def hasCap_session_def)
  note eaten = consume_echo_spec [of ?key "?active @ [(?key, wd_now W)]"]
  then have "isOwnEcho (msg_Kind m) (msg_Buffer m) (msg_Text m) ?sent = (True, ?sent\<lparr>bs_pendingEcho := ?es (?active @ [(?key, wd_now W)])\<rparr>)"
    by (simp add: isOwnEcho_def sent(1) split_def)
  then have "print_one W' m ?sent = ?sent\<lparr>bs_pendingEcho := ?es (?active @ [(?key, wd_now W)])\<rparr>"
    using sent(3,4) assms(5) by (simp add: print_one_def hasCap_session_def)
  then show ?thesis using eaten sent(2) by simp
qed

theorem own_message_is_not_echoed_witness:
  "bs_out (print_one sample_world (sample_message\<lparr>msg_Self := True, msg_Buffer := ''#Go''\<rparr>)
     (send_to sample_world ''PRIVMSG'' ''hi all'' ''#go'' (serve_run ''10.0.0.1:5000'' 0 sample_run))) = bs_out (serve_run ''10.0.0.1:5000'' 0 sample_run)"
proof -
  let ?s = "serve_run ''10.0.0.1:5000'' 0 sample_run"
  have "live ?s" "\<not> hasCap_session ?s ''echo-message''" "trim_space ''#go'' \<noteq> []" "length (bs_pendingEcho ?s) < 200"
    "sent_as ''PRIVMSG'' ''hi all'' = (MsgPrivmsg, ''hi all'')" "FoldIRC ''#Go'' = FoldIRC (trim_space ''#go'')"
    by code_simp+
  then show ?thesis
    using own_message_is_not_echoed [of ?s "''#go''" "sample_message\<lparr>msg_Self := True, msg_Buffer := ''#Go''\<rparr>" "''PRIVMSG''" "''hi all''" sample_world sample_world]
    by (simp add: sample_message_def)
qed

section \<open>A login by the client half\<close>

text \<open>
  The AUTHENTICATE arguments on the wire: the chunks \<open>sendChunked\<close> wrote, the one it left for girc, and the
  \<open>+\<close> girc adds after a last chunk of full length.
\<close>

definition sasl_args :: "string list \<times> string \<Rightarrow> string list" where
  "sasl_args r = fst r @ [snd r] @ (if length (snd r) = saslChunk then [''+''] else [])"

definition authenticate_line :: "string \<Rightarrow> client_message" where
  "authenticate_line a = \<lparr>cm_RawTags = [], cm_Tags = Map.empty, cm_Command = ''AUTHENTICATE'', cm_Params = [a]\<rparr>"

definition feed :: "world \<Rightarrow> string list \<Rightarrow> bsession \<Rightarrow> bsession" where
  "feed W as s = fold (\<lambda>a. handleSasl W (authenticate_line a)) as s"

definition awaiting :: "bsession \<Rightarrow> bool" where
  "awaiting s \<longleftrightarrow> hasCap_session s ''sasl'' \<and> bs_saslMech s = ''PLAIN''"

lemma arg_line [simp]: "arg_at (authenticate_line a) 0 = a"
  by (simp add: authenticate_line_def arg_at_def)

lemma feed_chunk:
  assumes "awaiting s" "length a = 400" "length (bs_saslBuf s @ a) \<le> maxSaslResponse"
  shows "handleSasl W (authenticate_line a) s = s\<lparr>bs_saslBuf := bs_saslBuf s @ a\<rparr>"
proof -
  have "a \<noteq> ''*''" "a \<noteq> ''+''" using assms(2) by auto
  then show ?thesis using assms by (simp add: handleSasl_def awaiting_def Let_def)
qed

lemma feed_chunks:
  assumes "awaiting s" "list_all (\<lambda>a. length a = 400) as" "length (bs_saslBuf s @ concat as) \<le> maxSaslResponse"
  shows "feed W as s = s\<lparr>bs_saslBuf := bs_saslBuf s @ concat as\<rparr>"
  using assms
proof (induction as arbitrary: s)
  case (Cons a as)
  have "handleSasl W (authenticate_line a) s = s\<lparr>bs_saslBuf := bs_saslBuf s @ a\<rparr>" using Cons by (intro feed_chunk) auto
  moreover have "feed W as (s\<lparr>bs_saslBuf := bs_saslBuf s @ a\<rparr>) = s\<lparr>bs_saslBuf := (bs_saslBuf s @ a) @ concat as\<rparr>"
    using Cons(2-4) Cons(1) [of "s\<lparr>bs_saslBuf := bs_saslBuf s @ a\<rparr>"] by (simp add: awaiting_def hasCap_session_def)
  ultimately show ?case by (simp add: feed_def)
qed (simp add: feed_def)

lemma feed_last:
  assumes "awaiting s" "a \<noteq> ''*''" "a \<noteq> ''+''" "length a \<noteq> 400" "length (bs_saslBuf s @ a) \<le> maxSaslResponse"
  shows "handleSasl W (authenticate_line a) s
    = finishSaslPlain W (bs_saslBuf s @ a) (currentNickOr W ''*'' s) (s\<lparr>bs_saslMech := [], bs_saslBuf := []\<rparr>)"
  using assms by (simp add: handleSasl_def awaiting_def Let_def)

lemma feed_plus:
  assumes "awaiting s"
  shows "handleSasl W (authenticate_line ''+'') s = finishSaslPlain W (bs_saslBuf s) (currentNickOr W ''*'' s) (s\<lparr>bs_saslMech := [], bs_saslBuf := []\<rparr>)"
  using assms by (simp add: handleSasl_def awaiting_def Let_def)

lemma nick_buffer [simp]: "currentNickOr W d (s\<lparr>bs_saslBuf := b\<rparr>) = currentNickOr W d s"
proof -
  have "currentNick W (s\<lparr>bs_saslBuf := b\<rparr>) = currentNick W s"
    by (simp add: currentNick_def bs_tenant_def split: option.split)
  then show ?thesis by (simp add: currentNickOr_def)
qed

lemma base64_length: "length (base64_encode bs) mod 4 = 0"
  by (induction bs rule: base64_encode.induct) (auto simp: base64_encode.simps)

lemma feed_encoded:
  assumes s: "awaiting s" "bs_saslBuf s = []" and len: "length (base64_encode m) \<le> maxSaslResponse"
  shows "feed W (sasl_args (sendChunked (base64_encode m))) s
    = finishSaslPlain W (base64_encode m) (currentNickOr W ''*'' s) (s\<lparr>bs_saslMech := [], bs_saslBuf := []\<rparr>)"
proof -
  obtain cs l where r: "sendChunked (base64_encode m) = (cs, l)" by fastforce
  have parts: "concat cs @ l = base64_encode m" "list_all (\<lambda>c. length c = 400) cs"
    using sendChunked_spec [of "base64_encode m"] r by (simp_all add: saslChunk_def)
  let ?t = "s\<lparr>bs_saslBuf := concat cs\<rparr>"
  have cs: "feed W cs s = ?t" using feed_chunks [OF s(1) parts(2)] s(2) len parts(1) by (metis append_Nil length_append le_add1 order_trans)
  have t: "awaiting ?t" using s(1) by (simp add: awaiting_def hasCap_session_def)
  have total: "length (bs_saslBuf ?t @ l) \<le> maxSaslResponse" using len parts(1) by simp
  show ?thesis
  proof (cases "length l = 400")
    case True
    then have "handleSasl W (authenticate_line l) ?t = s\<lparr>bs_saslBuf := base64_encode m\<rparr>" using feed_chunk [OF t True total] parts(1) by simp
    moreover have "awaiting (s\<lparr>bs_saslBuf := base64_encode m\<rparr>)" using s(1) by (simp add: awaiting_def hasCap_session_def)
    ultimately show ?thesis using cs feed_plus True by (simp add: sasl_args_def r saslChunk_def feed_def)
  next
    case False
    have "length (concat cs) mod 4 = 0" using parts(2) by (induction cs) (auto simp: mod_add_eq [symmetric])
    then have "length l mod 4 = 0" using base64_length [of m] parts(1) by (metis length_append mod_add_self1 mod_add_left_eq add_0)
    then have "l \<noteq> ''*''" "l \<noteq> ''+''" by auto
    then have "handleSasl W (authenticate_line l) ?t = finishSaslPlain W (base64_encode m) (currentNickOr W ''*'' s) (s\<lparr>bs_saslMech := [], bs_saslBuf := []\<rparr>)"
      using feed_last [OF t _ _ False total] parts(1) by simp
    then show ?thesis using cs False by (simp add: sasl_args_def r saslChunk_def feed_def)
  qed
qed

text \<open>
  C37. The two halves of the program agree on SASL PLAIN: a client half that answers the prompt of the server half
  is logged in to the account its user name and password give, on the network the user name selects, whatever the
  length of the credentials (within the 8 KiB the server takes), and is told so.\<close>

theorem client_half_logs_in_to_server_half:
  assumes "awaiting s" "bs_saslBuf s = []" "CHR 0x00 \<notin> set user" "CHR 0x00 \<notin> set pass" "pass \<noteq> []"
    and "user \<noteq> []" "pl_Username (UnmarshalLogin user) \<noteq> []" "hb_AuthEnabled (wd_hub W)" "hb_Login (wd_hub W) (pl_Username (UnmarshalLogin user)) pass = Some u"
    and "length (base64_encode ([CHR 0x00] @ user @ [CHR 0x00] @ pass)) \<le> maxSaslResponse" "\<not> bs_closed s"
  shows "bs_saslUser (feed W (sasl_args (plain_Encode user pass [''+''])) s) = u
    \<and> bs_saslNetwork (feed W (sasl_args (plain_Encode user pass [''+''])) s) = pl_Network (UnmarshalLogin user)
    \<and> bs_saslMech (feed W (sasl_args (plain_Encode user pass [''+''])) s) = []
    \<and> map (\<lambda>l. take 19 l) (drop (length (bs_out s)) (bs_out (feed W (sasl_args (plain_Encode user pass [''+''])) s)))
       = ['':'' @ serverName @ '' 900'', '':'' @ serverName @ '' 903'']"
proof -
  let ?m = "[CHR 0x00] @ user @ [CHR 0x00] @ pass"
  have enc: "plain_Encode user pass [''+''] = sendChunked (base64_encode ?m)" by (simp add: plain_Encode_def)
  have "split_on (user @ CHR 0x00 # pass) CHR 0x00 = [user, pass]" using assms(3,4) by (simp add: split_on_append split_on_notin)
  then have parts: "split_on ?m CHR 0x00 = [[], user, pass]" by simp
  show ?thesis
    unfolding enc feed_encoded [OF assms(1,2,10)] using assms(5-9,11) parts
    by (simp add: finishSaslPlain_def Let_def server_line_def bs_write_def FormatLine_def sanitizeLine_def serverName_def)
qed

theorem client_half_logs_in_to_server_half_witness:
  "bs_saslUser (feed sample_world (sasl_args (plain_Encode ''ann/libera'' ''secret'' [''+'']))
     ((newSession ''10.0.0.1:5000'' 0)\<lparr>bs_caps := [''sasl''], bs_saslMech := ''PLAIN''\<rparr>)) = ''u1''"
proof -
  let ?s = "(newSession ''10.0.0.1:5000'' 0)\<lparr>bs_caps := [''sasl''], bs_saslMech := ''PLAIN''\<rparr>"
  have "pl_Username (UnmarshalLogin ''ann/libera'') = ''ann''" "length (base64_encode ([CHR 0x00] @ ''ann/libera'' @ [CHR 0x00] @ ''secret'')) \<le> maxSaslResponse"
    by code_simp+
  then show ?thesis
    using client_half_logs_in_to_server_half [of ?s "''ann/libera''" "''secret''" sample_world "''u1''"]
    by (simp add: awaiting_def hasCap_session_def newSession_def sample_world_def sample_hub_def)
qed

end
