(* ===== verification/Spec2Isabelle.thy ===== *)
theory Spec2Isabelle
  imports Server_Properties Resume_Properties View_Properties Edit_Properties Input_Properties Irc_Properties Sasl_Properties
    Bouncer_Properties Bouncer_Wire
begin

text \<open>
  Verification of stugan, an always-on IRC client written in Go.

  \<^bold>\<open>The program.\<close> A stugan daemon holds one state for its user: networks, their buffers, members, topics
  and settings (\<^verbatim>\<open>src/internal/core\<close>). Connections feed it events, plugins may rewrite or consume them, and
  every committed line and every changed network is fanned out to sinks (web clients, the store). The
  sockets themselves can live in a second process, the connection engine (\<^verbatim>\<open>src/internal/engine\<close>), which
  keeps them registered while the daemon restarts: it numbers and buffers what the IRC server sends and
  hands it over when a daemon claims the session again. The daemon's end of that link is
  \<^verbatim>\<open>src/internal/enginelink\<close>; the two talk in the frames of \<^verbatim>\<open>src/internal/engineproto\<close>. A connection to one network
  (\<^verbatim>\<open>src/internal/irc\<close>) turns the lines that girc reads into core events and queues what is sent. Other IRC clients
  attach to the daemon through an IRC server of its own (\<^verbatim>\<open>src/internal/ircserver\<close>), a sink of the core like the rest.

  \<^bold>\<open>Shared theories.\<close> \<^verbatim>\<open>Prelude\<close> holds the named theorem collections and facts on lists. \<^verbatim>\<open>Go_Strings\<close> models
  the functions of Go's \<^verbatim>\<open>strings\<close>, \<^verbatim>\<open>strconv\<close>, \<^verbatim>\<open>unicode/utf8\<close> and \<^verbatim>\<open>sort\<close> packages that the sources call. A
  string is its list of bytes. \<^verbatim>\<open>Go_Crypto\<close> computes base64, hex, SHA-256, SHA-512, HMAC and PBKDF2; \<^verbatim>\<open>Go_Net\<close>
  models \<^verbatim>\<open>net.ParseIP\<close>.

  \<^bold>\<open>The connection engine.\<close>
  \<^item> \<^verbatim>\<open>Engine_Line\<close>: the line parser and the case folding (\<^verbatim>\<open>ircline.go\<close>).
  \<^item> \<^verbatim>\<open>Line_Buffer\<close>: the numbered backlog of a session (\<^verbatim>\<open>buffer.go\<close>), with a locale for the contract of its
    operations, interpreted on the code's buffer.
  \<^item> \<^verbatim>\<open>Engine_Proto\<close>: frames as records. \<^verbatim>\<open>Engine_Session\<close>: one session as a record, one definition per
    critical section of \<^verbatim>\<open>session.go\<close> (dialing, ingesting a line, tracking the burst, writing, claiming,
    pulling, acknowledging, shutting down).
  \<^item> \<^verbatim>\<open>Engine_Delivery\<close>, \<^verbatim>\<open>Session_Runs\<close>: the invariant of the backlog and the life of a session as any
    interleaving of its critical sections; what is delivered, in which order, and what is lost.
  \<^item> \<^verbatim>\<open>Engine_Server\<close>: the server's table of sessions and links and the byte budget (\<^verbatim>\<open>server.go\<close>,
    \<^verbatim>\<open>buffer.go\<close>), one definition per frame handler, the link writer, the reaper and the shutdown.
    \<^verbatim>\<open>Server_Invariant\<close>, \<^verbatim>\<open>Server_Properties\<close>: reachable states, their invariant, the exact budget, isolation
    of instances, generations and takeovers, termination of \<^verbatim>\<open>reclaim\<close>.
  \<^item> \<^verbatim>\<open>Engine_Link\<close>, \<^verbatim>\<open>Link_Properties\<close>: the daemon's end (tags, relayed connections, the frame dispatcher,
    acknowledgements). \<^verbatim>\<open>Resume_Properties\<close> puts both ends together: what a daemon reads after it claimed
    a held session.

  \<^bold>\<open>The core.\<close>
  \<^item> \<^verbatim>\<open>Core_Names\<close>: folding, buffer kinds, member prefixes, channel modes, perform variables, backoff.
  \<^item> \<^verbatim>\<open>Core_Network\<close>: a network with its buffers. Channels are shared between the display list and the
    lookaside index, so they live in a store of channels and both hold addresses; the locale
    \<^verbatim>\<open>keyed_table\<close> states what such a table promises and is interpreted on the buffers of a network and,
    in \<^verbatim>\<open>Core_Invariant\<close>, on the networks of the user. The auto-join list and its keys are here too.
  \<^item> \<^verbatim>\<open>Core_Events\<close>: events, highlighting, and each case of \<^verbatim>\<open>applyLocked\<close>. \<^verbatim>\<open>Event_Facts\<close>: what they keep.
  \<^item> \<^verbatim>\<open>Core_Engine\<close>: the engine's record, \<^verbatim>\<open>commit\<close>, snapshots, fan-out. \<^verbatim>\<open>Core_Admin\<close>: the operations on
    networks and the auto-join gate. \<^verbatim>\<open>Core_Command\<close>: typed input, aliases, the plugin API, chathistory.
    \<^verbatim>\<open>Core_Handle\<close>: built-in commands and the dispatch of one event. \<^verbatim>\<open>Core_Loop\<close>: starting, stopping, the
    event loop and the reconnect loop. \<^verbatim>\<open>Core_Bouncer\<close>: control of a bouncer's networks.
  \<^item> \<^verbatim>\<open>Core_Invariant\<close>, \<^verbatim>\<open>Core_Runs\<close>: the state machine of all entry points and goroutine continuations and
    the invariant of its reachable states. \<^verbatim>\<open>Core_Properties\<close>, \<^verbatim>\<open>Join_Properties\<close>, \<^verbatim>\<open>View_Properties\<close>,
    \<^verbatim>\<open>Edit_Properties\<close>, \<^verbatim>\<open>Input_Properties\<close>: isolation of networks, membership, disconnects, the auto-join
    memory and gate, snapshots and ordering, live edits, bouncer attributes, typed lines, catch-up.

  \<^bold>\<open>A connection to a network.\<close>
  \<^item> \<^verbatim>\<open>Irc_Translate\<close>: \<^verbatim>\<open>translate.go\<close>, one definition per case of \<^verbatim>\<open>toEvent\<close>, numerics, NAMES and MODE. girc's event is a
    record and its accessors are fields of the record \<open>wire\<close>.
  \<^item> \<^verbatim>\<open>Irc_Conn\<close>: \<^verbatim>\<open>conn.go\<close>, the outbound writer (a choice of \<open>select\<close> is an argument of its turn), auto-join and MONITOR
    lines, batches, closing and detaching. \<^verbatim>\<open>Irc_Relay\<close>: the handlers registered with girc, building and connecting,
    and what \<^verbatim>\<open>relay.go\<close> adds for a socket held by the connection engine.
  \<^item> \<^verbatim>\<open>Irc_Sasl\<close>: PLAIN, SCRAM and the registration fingerprint (\<^verbatim>\<open>sasl.go\<close>, \<^verbatim>\<open>scram.go\<close>).
  \<^item> \<^verbatim>\<open>Irc_Properties\<close>: order of outbound lines, arguments of modes, auto-join lines, acknowledgements, history batches,
    multiline messages, the announcement of a resumed connection. \<^verbatim>\<open>Sasl_Properties\<close>: what a SCRAM client accepts, the
    exchange with an honest server, what the fingerprint tells apart.

  \<^bold>\<open>The IRC server for other clients.\<close>
  \<^item> \<^verbatim>\<open>Bouncer_Lines\<close>: the line format, tag values, logins, nicks, NAMES replies (\<^verbatim>\<open>parse.go\<close>, \<^verbatim>\<open>isupport.go\<close>, \<^verbatim>\<open>replay.go\<close>).
  \<^item> \<^verbatim>\<open>Bouncer_Session\<close>: one session up to its attachment (\<^verbatim>\<open>session.go\<close>) and what it is sent (\<^verbatim>\<open>sink.go\<close>, \<^verbatim>\<open>replay.go\<close>).
    \<^verbatim>\<open>Bouncer_Inbound\<close>: the commands of an attached client (\<^verbatim>\<open>inbound.go\<close>), echoes, heartbeat and writer.
    \<^verbatim>\<open>Bouncer_Server\<close>: the registry and the fan-out (\<^verbatim>\<open>server.go\<close>), and the step relation of the whole server.
  \<^item> \<^verbatim>\<open>Bouncer_Facts\<close>: what every handler keeps of a session. \<^verbatim>\<open>Bouncer_Auth\<close>: what a session knows of what its client
    sent, and how it becomes attached. \<^verbatim>\<open>Bouncer_Registry\<close>: the invariant of the server's reachable states.
    \<^verbatim>\<open>Bouncer_Properties\<close>, \<^verbatim>\<open>Bouncer_Wire\<close>: who gets in, which sessions a message reaches, whole lines, round trips,
    echoes, and the SASL login of the client half at the server half.

  \<^bold>\<open>Conventions.\<close> An operation takes the state and returns it with what it did to the outside: frames for
  the engine, values of type \<open>effect\<close> for the core, in order. Errors are values. A goroutine is an effect
  that carries what it captured, and its continuation is an operation of its own, so that everything may
  happen in between. What the code takes from outside (clock, regular expressions, time layouts,
  Unicode casing, connections, the connector, the plugin host, the store) is the record \<open>env\<close>; the only
  law assumed of it is \<open>host_keeps_network\<close>, that a plugin does not move an event to another network. A
  nil map reads like an empty one, so maps whose missing keys read as a zero value are total functions.

  \<^bold>\<open>Bounds.\<close> Sequence numbers of sessions and of startups are 64-bit in the code; the startup and id
  counters wrap in the model as well, session numbers are unbounded (a session would need centuries to
  reach the bound). Recursions terminate by their data; alias expansion is bounded by the code's own
  depth of eight, the catch-up by its ten pages, and \<open>drain\<close> takes as many rounds as there are lines.

  \<^bold>\<open>Not modelled.\<close> Sockets, TLS, deadlines, channels and contexts; the JSON codec; girc itself; the SQL store; HTTP,
  WebSocket and uploads (\<^verbatim>\<open>src/internal/server\<close>); the Lua host; configuration, accounts and backup; previews and
  the terminal client.
\<close>

end
